(* ===== verification/Prelude.thy ===== *)
theory Prelude
  imports Main "HOL-Library.Word" "HOL-Library.Monad_Syntax"
begin

text \<open>
  Shared vocabulary of the development: the C integer types, little-endian byte images of
  machine words, reads and writes of byte buffers, and the generic lemmas on them.
\<close>

unbundle bit_operations_syntax

named_theorems wire_simps \<open>unfolding rules of the wire format\<close>

type_synonym byte = "8 word"
type_synonym u16 = "16 word"
type_synonym u32 = "32 word"
type_synonym u64 = "64 word"

section \<open>Little-endian images\<close>

primrec le_bytes :: "nat \<Rightarrow> 'a::len word \<Rightarrow> byte list" where
  "le_bytes 0 w = []"
| "le_bytes (Suc n) w = ucast w # le_bytes n (drop_bit 8 w)"

primrec le_word :: "byte list \<Rightarrow> 'a::len word" where
  "le_word [] = 0"
| "le_word (b # bs) = ucast b OR push_bit 8 (le_word bs)"

lemma length_le_bytes [simp]: "length (le_bytes n w) = n"
  by (induction n arbitrary: w) auto

lemma le_word_le_bytes_take: "le_word (le_bytes n w) = take_bit (8 * n) (w :: 'a::len word)"
proof (induction n arbitrary: w)
  case 0
  then show ?case by simp
next
  case (Suc n)
  show ?case
    by (rule bit_word_eqI) (auto simp: Suc bit_simps)
qed

lemma le_word_le_bytes [simp]:
  "LENGTH('a) = 8 * n \<Longrightarrow> le_word (le_bytes n w) = (w :: 'a::len word)"
  using le_word_le_bytes_take [of n w] by (simp add: take_bit_word_eq_self)

lemma bit_le_word: "bit (le_word bs :: 'a::len word) i \<Longrightarrow> i < 8 * length bs"
proof (induction bs arbitrary: i)
  case Nil
  then show ?case by simp
next
  case (Cons b bs)
  then have "bit b i \<or> 8 \<le> i \<and> bit (le_word bs :: 'a word) (i - 8)"
    by (auto simp: bit_simps)
  then show ?case
    using Cons.IH [of "i - 8"] bit_imp_le_length [of b i] by auto
qed

lemma le_bytes_le_word:
  "length bs = n \<Longrightarrow> 8 * n \<le> LENGTH('a) \<Longrightarrow> le_bytes n (le_word bs :: 'a::len word) = bs"
proof (induction bs arbitrary: n)
  case Nil
  then show ?case by simp
next
  case (Cons b bs)
  then obtain m where n: "n = Suc m" "length bs = m" "8 * m + 8 \<le> LENGTH('a)"
    by auto
  have "(ucast (ucast b OR push_bit 8 (le_word bs) :: 'a word) :: byte) = b"
    using n by (intro bit_word_eqI) (auto simp: bit_simps)
  moreover have "drop_bit 8 (ucast b OR push_bit 8 (le_word bs) :: 'a word) = le_word bs"
    using n by (intro bit_word_eqI) (auto simp: bit_simps dest: bit_le_word bit_imp_le_length)
  ultimately show ?case using Cons.IH [of m] n by simp
qed

section \<open>Byte buffers\<close>

definition read_bytes :: "byte list \<Rightarrow> u64 \<Rightarrow> nat \<Rightarrow> byte list option" where
  "read_bytes buf p n =
     (if unat p + n \<le> length buf then Some (take n (drop (unat p) buf)) else None)"

definition store_bytes :: "byte list \<Rightarrow> nat \<Rightarrow> byte list \<Rightarrow> byte list option" where
  "store_bytes d off bs =
     (if off + length bs \<le> length d
      then Some (take off d @ bs @ drop (off + length bs) d) else None)"

lemma length_store_bytes: "store_bytes d off bs = Some d' \<Longrightarrow> length d' = length d"
  by (auto simp: store_bytes_def split: if_splits)

lemma store_bytes_append:
  "store_bytes d off (a @ b) = store_bytes d off a \<bind> (\<lambda>d'. store_bytes d' (off + length a) b)"
  by (auto simp: store_bytes_def ac_simps)

lemma store_bytes_overwrite:
  "length a = length b \<Longrightarrow>
   store_bytes d off (a @ c) \<bind> (\<lambda>d'. store_bytes d' off b) = store_bytes d off (b @ c)"
  by (auto simp: store_bytes_def)

lemma unat_plus_le:
  "unat (a :: 'a::len word) + unat b < 2 ^ LENGTH('a) \<Longrightarrow> unat (a + b) = unat a + unat b"
  by (simp add: unat_word_ariths)

lemma unat_bound: "unat (w :: 'a::len word) < 2 ^ LENGTH('a)"
  by (rule unsigned_less)

lemma unat_of_nat_small:
  "n < 2 ^ LENGTH('a) \<Longrightarrow> unat (of_nat n :: 'a::len word) = n"
  by (simp add: unat_of_nat)

lemma power_length_le:
  "n < 2 ^ LENGTH('a::len) \<Longrightarrow> LENGTH('a) \<le> LENGTH('b::len) \<Longrightarrow> (n::nat) < 2 ^ LENGTH('b)"
proof -
  assume n: "n < 2 ^ LENGTH('a)" and "LENGTH('a) \<le> LENGTH('b)"
  then have "(2::nat) ^ LENGTH('a) \<le> 2 ^ LENGTH('b)"
    by (intro power_increasing) simp_all
  with n show ?thesis by (rule order_less_le_trans)
qed

lemma unat_ucast_up:
  "LENGTH('a) \<le> LENGTH('b) \<Longrightarrow> unat (ucast (w :: 'a::len word) :: 'b::len word) = unat w"
  using power_length_le [OF unat_bound [of w], where 'b = 'b]
  by (simp add: unsigned_ucast_eq take_bit_nat_eq_self_iff)

lemma ucast_up_down [simp]:
  "LENGTH('a) \<le> LENGTH('b) \<Longrightarrow> (ucast (ucast (w :: 'a::len word) :: 'b::len word) :: 'a word) = w"
  by (rule bit_word_eqI) (auto simp: bit_simps)

lemma ucast_of_nat_up:
  assumes "n < 2 ^ LENGTH('a)" and "LENGTH('a) \<le> LENGTH('b)"
  shows "(ucast (of_nat n :: 'a::len word) :: 'b::len word) = of_nat n"
  using assms power_length_le [OF assms]
  by (intro word_unat_eq_iff [THEN iffD2]) (simp add: unat_ucast_up unat_of_nat_small)

lemma unat_of_nat32: "n < 2 ^ 32 \<Longrightarrow> unat (of_nat n :: u32) = n"
  and unat_of_nat64: "n < 2 ^ 64 \<Longrightarrow> unat (of_nat n :: u64) = n"
  by (simp_all add: unat_of_nat_small)

lemma ucast_as_of_nat: "(ucast (w :: u32) :: u64) = of_nat (unat w)"
  using unat_bound [of w]
  by (intro word_unat_eq_iff [THEN iffD2]) (simp add: unat_ucast_up unat_of_nat64)

lemma unat_plus_one: "w \<noteq> - 1 \<Longrightarrow> unat (w + 1) = unat w + 1" for w :: "'a::len word"
  by (metis Suc_eq_plus1 add.commute add_eq_0_iff unatSuc)

lemma less_plus_one: "w \<noteq> - 1 \<Longrightarrow> w < w + 1" for w :: "'a::len word"
  by (simp add: word_less_nat_alt unat_plus_one)

end
