(* ===== verification/Serialization.thy ===== *)
theory Serialization
  imports Prelude
begin

text \<open>
  The wire format of \<^verbatim>\<open>client_module/source/common/toolkit/Serialization.{c,h}\<close>.

  A serialization context is the pair \<^verbatim>\<open>(data, length)\<close> of \<^verbatim>\<open>SerializeCtx\<close>: with a null data
  pointer the serializers only count bytes, otherwise they store into the buffer at offset
  \<open>length\<close>; a store outside the buffer is the value \<^const>\<open>None\<close>.
  A deserialization context is an offset into the received buffer together with the 64 bit
  \<open>length\<close> the code believes to remain; a deserializer returns \<open>true\<close> (\<open>Done\<close>), \<open>false\<close>
  (\<open>Refused\<close>) or touches memory outside the buffer (\<open>Overrun\<close>).
\<close>

section \<open>Contexts\<close>

record SerializeCtx =
  s_data :: "byte list option"
  s_length :: u32

record DeserializeCtx =
  d_pos :: u64
  d_length :: u64

record RawList =
  r_data :: u64
  r_length :: u32
  r_elemCount :: u32

datatype 'a dres = Done 'a | Refused | Overrun

fun dbind :: "'a dres \<Rightarrow> ('a \<Rightarrow> 'b dres) \<Rightarrow> 'b dres" where
  "dbind (Done x) f = f x"
| "dbind Refused f = Refused"
| "dbind Overrun f = Overrun"

text \<open>\<^verbatim>\<open>if(ctx->data) store; ctx->length += n\<close>: the shape every serializer shares.\<close>

definition emit :: "SerializeCtx \<Rightarrow> byte list \<Rightarrow> SerializeCtx option" where
  "emit ctx bs =
     (case s_data ctx of
        None \<Rightarrow> Some (ctx\<lparr>s_length := s_length ctx + of_nat (length bs)\<rparr>)
      | Some d \<Rightarrow>
          (case store_bytes d (unat (s_length ctx)) bs of
             None \<Rightarrow> None
           | Some d' \<Rightarrow> Some (ctx\<lparr>s_data := Some d', s_length := s_length ctx + of_nat (length bs)\<rparr>)))"

text \<open>\<^verbatim>\<open>ctx->data += n; ctx->length -= n\<close>, in 64 bit arithmetic.\<close>

definition advance :: "DeserializeCtx \<Rightarrow> u64 \<Rightarrow> DeserializeCtx" where
  "advance ctx n = ctx\<lparr>d_pos := d_pos ctx + n, d_length := d_length ctx - n\<rparr>"

section \<open>Scalars\<close>

definition deserializeRaw ::
    "nat \<Rightarrow> byte list \<Rightarrow> DeserializeCtx \<Rightarrow> ('a::len word \<times> DeserializeCtx) dres" where
  "deserializeRaw n buf ctx =
     (if d_length ctx \<ge> of_nat n then
        (case read_bytes buf (d_pos ctx) n of
           None \<Rightarrow> Overrun
         | Some bs \<Rightarrow> Done (le_word bs, advance ctx (of_nat n)))
      else Refused)"

definition Serialization_serializeBlock ::
    "SerializeCtx \<Rightarrow> byte list \<Rightarrow> u32 \<Rightarrow> SerializeCtx option" where
  "Serialization_serializeBlock ctx val len =
     (case s_data ctx of
        None \<Rightarrow> Some (ctx\<lparr>s_length := s_length ctx + len\<rparr>)
      | Some d \<Rightarrow>
          if unat len \<le> length val then emit ctx (take (unat len) val) else None)"

definition Serialization_serializeChar :: "SerializeCtx \<Rightarrow> byte \<Rightarrow> SerializeCtx option" where
  "Serialization_serializeChar ctx v = emit ctx [v]"

definition Serialization_deserializeChar ::
    "byte list \<Rightarrow> DeserializeCtx \<Rightarrow> (byte \<times> DeserializeCtx) dres" where
  "Serialization_deserializeChar = deserializeRaw 1"

definition Serialization_serializeBool :: "SerializeCtx \<Rightarrow> bool \<Rightarrow> SerializeCtx option" where
  "Serialization_serializeBool ctx v = Serialization_serializeChar ctx (if v then 1 else 0)"

definition Serialization_deserializeBool ::
    "byte list \<Rightarrow> DeserializeCtx \<Rightarrow> (bool \<times> DeserializeCtx) dres" where
  "Serialization_deserializeBool buf ctx =
     dbind (Serialization_deserializeChar buf ctx) (\<lambda>(c, ctx). Done (c \<noteq> 0, ctx))"

definition Serialization_serializeUInt8 :: "SerializeCtx \<Rightarrow> byte \<Rightarrow> SerializeCtx option" where
  "Serialization_serializeUInt8 ctx v = Serialization_serializeChar ctx v"

definition Serialization_deserializeUInt8 ::
    "byte list \<Rightarrow> DeserializeCtx \<Rightarrow> (byte \<times> DeserializeCtx) dres" where
  "Serialization_deserializeUInt8 = Serialization_deserializeChar"

definition Serialization_serializeUShort :: "SerializeCtx \<Rightarrow> u16 \<Rightarrow> SerializeCtx option" where
  "Serialization_serializeUShort ctx v = emit ctx (le_bytes 2 v)"

definition Serialization_deserializeUShort ::
    "byte list \<Rightarrow> DeserializeCtx \<Rightarrow> (u16 \<times> DeserializeCtx) dres" where
  "Serialization_deserializeUShort = deserializeRaw 2"

definition Serialization_serializeUInt :: "SerializeCtx \<Rightarrow> u32 \<Rightarrow> SerializeCtx option" where
  "Serialization_serializeUInt ctx v = emit ctx (le_bytes 4 v)"

definition Serialization_deserializeUInt ::
    "byte list \<Rightarrow> DeserializeCtx \<Rightarrow> (u32 \<times> DeserializeCtx) dres" where
  "Serialization_deserializeUInt = deserializeRaw 4"

definition Serialization_serializeUInt64 :: "SerializeCtx \<Rightarrow> u64 \<Rightarrow> SerializeCtx option" where
  "Serialization_serializeUInt64 ctx v = emit ctx (le_bytes 8 v)"

definition Serialization_deserializeUInt64 ::
    "byte list \<Rightarrow> DeserializeCtx \<Rightarrow> (u64 \<times> DeserializeCtx) dres" where
  "Serialization_deserializeUInt64 = deserializeRaw 8"

text \<open>
  The signed serializers convert to the unsigned type of the same width and delegate; a signed
  value is kept as its two's complement word.
\<close>

definition Serialization_serializeShort :: "SerializeCtx \<Rightarrow> u16 \<Rightarrow> SerializeCtx option" where
  "Serialization_serializeShort = Serialization_serializeUShort"

definition Serialization_deserializeShort ::
    "byte list \<Rightarrow> DeserializeCtx \<Rightarrow> (u16 \<times> DeserializeCtx) dres" where
  "Serialization_deserializeShort = Serialization_deserializeUShort"

definition Serialization_serializeInt :: "SerializeCtx \<Rightarrow> u32 \<Rightarrow> SerializeCtx option" where
  "Serialization_serializeInt = Serialization_serializeUInt"

definition Serialization_deserializeInt ::
    "byte list \<Rightarrow> DeserializeCtx \<Rightarrow> (u32 \<times> DeserializeCtx) dres" where
  "Serialization_deserializeInt = Serialization_deserializeUInt"

definition Serialization_serializeInt64 :: "SerializeCtx \<Rightarrow> u64 \<Rightarrow> SerializeCtx option" where
  "Serialization_serializeInt64 = Serialization_serializeUInt64"

definition Serialization_deserializeInt64 ::
    "byte list \<Rightarrow> DeserializeCtx \<Rightarrow> (u64 \<times> DeserializeCtx) dres" where
  "Serialization_deserializeInt64 = Serialization_deserializeUInt64"

section \<open>Laws of contexts\<close>

text \<open>
  \<open>ctx_ok buf ctx\<close>: the remaining length does not run past the buffer. \<open>view buf ctx\<close> is the
  sequence of bytes the context still covers.
\<close>

definition ctx_ok :: "byte list \<Rightarrow> DeserializeCtx \<Rightarrow> bool" where
  "ctx_ok buf ctx \<longleftrightarrow>
     unat (d_pos ctx) + unat (d_length ctx) \<le> length buf \<and> length buf < 2 ^ 64"

definition view :: "byte list \<Rightarrow> DeserializeCtx \<Rightarrow> byte list" where
  "view buf ctx = take (unat (d_length ctx)) (drop (unat (d_pos ctx)) buf)"

definition sctx_ok :: "SerializeCtx \<Rightarrow> bool" where
  "sctx_ok ctx \<longleftrightarrow> (case s_data ctx of None \<Rightarrow> True
     | Some d \<Rightarrow> unat (s_length ctx) \<le> length d \<and> length d < 2 ^ 32)"

lemma length_view: "ctx_ok buf ctx \<Longrightarrow> length (view buf ctx) = unat (d_length ctx)"
  by (auto simp: ctx_ok_def view_def)

lemma whole_buffer:
  assumes "length buf < 2 ^ 64"
  shows "ctx_ok buf \<lparr>d_pos = 0, d_length = of_nat (length buf)\<rparr>"
    and "view buf \<lparr>d_pos = 0, d_length = of_nat (length buf)\<rparr> = buf"
  using assms by (simp_all add: ctx_ok_def view_def unat_of_nat64)

lemma view_nth:
  "ctx_ok buf ctx \<Longrightarrow> k < length (view buf ctx) \<Longrightarrow> buf ! (unat (d_pos ctx) + k) = view buf ctx ! k"
  by (simp add: view_def ctx_ok_def)

lemma advance_ok:
  assumes "ctx_ok buf ctx" and "n \<le> d_length ctx"
  shows "ctx_ok buf (advance ctx n)"
    and "view buf (advance ctx n) = drop (unat n) (view buf ctx)"
proof -
  from assms(2) have n: "unat n \<le> unat (d_length ctx)"
    by (simp add: word_le_nat_alt)
  with assms(1) have p: "unat (d_pos ctx + n) = unat (d_pos ctx) + unat n"
    by (intro unat_plus_le) (simp add: ctx_ok_def)
  have l: "unat (d_length ctx - n) = unat (d_length ctx) - unat n"
    using assms(2) by (rule unat_sub)
  show "ctx_ok buf (advance ctx n)"
    using assms(1) n by (simp add: ctx_ok_def advance_def p l)
  show "view buf (advance ctx n) = drop (unat n) (view buf ctx)"
    by (simp add: view_def advance_def p l drop_take) (simp add: add.commute)
qed

lemma advance_0 [simp]: "advance ctx 0 = ctx"
  by (simp add: advance_def)

lemma advance_advance: "advance (advance ctx m) n = advance ctx (m + n)"
  by (simp add: advance_def algebra_simps)

lemma advance_append:
  assumes "ctx_ok buf ctx" and "view buf ctx = bs @ rest"
  shows "ctx_ok buf (advance ctx (of_nat (length bs)))"
    and "view buf (advance ctx (of_nat (length bs))) = rest"
proof -
  have "length bs \<le> unat (d_length ctx)"
    using assms length_view [OF assms(1)] by simp
  then have le: "of_nat (length bs) \<le> d_length ctx"
    and un: "unat (of_nat (length bs) :: u64) = length bs"
    using unat_bound [of "d_length ctx"]
    by (auto simp: word_le_nat_alt unat_of_nat_small)
  from advance_ok [OF assms(1) le] assms(2) un
  show "ctx_ok buf (advance ctx (of_nat (length bs)))"
    and "view buf (advance ctx (of_nat (length bs))) = rest"
    by simp_all
qed

lemma deserializeRaw_view:
  assumes ok: "ctx_ok buf ctx" and n: "n < 2 ^ 64"
  shows "deserializeRaw n buf ctx =
    (if n \<le> length (view buf ctx)
     then Done (le_word (take n (view buf ctx)), advance ctx (of_nat n)) else Refused)"
proof -
  have un: "unat (of_nat n :: u64) = n"
    using n by (simp add: unat_of_nat_small)
  have "read_bytes buf (d_pos ctx) n = Some (take n (view buf ctx))"
    if "n \<le> unat (d_length ctx)"
    using ok that by (simp add: read_bytes_def ctx_ok_def view_def)
  then show ?thesis
    using ok by (simp add: deserializeRaw_def length_view word_le_nat_alt un)
qed

lemma emit_None_data [simp]:
  "s_data ctx = None \<Longrightarrow> emit ctx bs = Some (ctx\<lparr>s_length := s_length ctx + of_nat (length bs)\<rparr>)"
  by (simp add: emit_def)

lemma emit_sctx_ok: "sctx_ok ctx \<Longrightarrow> emit ctx bs = Some ctx' \<Longrightarrow> sctx_ok ctx'"
proof (cases "s_data ctx")
  case None
  assume "emit ctx bs = Some ctx'"
  with None show ?thesis by (auto simp: sctx_ok_def)
next
  case (Some d)
  assume ok: "sctx_ok ctx" and e: "emit ctx bs = Some ctx'"
  from e Some have fits: "unat (s_length ctx) + length bs \<le> length d"
    by (auto simp: emit_def store_bytes_def split: if_splits)
  then have "unat (s_length ctx + of_nat (length bs)) = unat (s_length ctx) + length bs"
    using ok Some by (subst unat_plus_le) (simp_all add: sctx_ok_def unat_of_nat_small)
  with ok e Some fits show ?thesis
    by (auto simp: emit_def sctx_ok_def dest: length_store_bytes split: option.splits)
qed

lemma emit_append:
  assumes "sctx_ok ctx"
  shows "emit ctx a \<bind> (\<lambda>c. emit c b) = emit ctx (a @ b)"
proof (cases "s_data ctx")
  case None
  then show ?thesis by (simp add: algebra_simps)
next
  case (Some d)
  have "unat (s_length ctx + of_nat (length a)) = unat (s_length ctx) + length a"
    if "unat (s_length ctx) + length a \<le> length d"
  proof -
    have un: "unat (of_nat (length a) :: u32) = length a"
      using that assms Some by (simp add: sctx_ok_def unat_of_nat_small)
    then show ?thesis
      using that assms Some
      by (subst unat_plus_le) (simp_all add: sctx_ok_def)
  qed
  then show ?thesis
    using Some
    by (auto simp: emit_def store_bytes_append store_bytes_def algebra_simps split: option.splits)
qed

section \<open>The contracts of serializers and deserializers\<close>

text \<open>
  A serializer emits exactly the reference encoding \<open>enc x\<close> (for values in \<open>wf\<close>). A decoder
  started on a valid context stays inside the buffer and moves forward within its length.
  A codec is a serializer with a reader that inverts the encoding; a wire type is a codec whose
  reader is also a decoder, that is, safe on every input and not only on well-formed ones.
\<close>

definition emits :: "(SerializeCtx \<Rightarrow> SerializeCtx option) \<Rightarrow> byte list \<Rightarrow> bool" where
  "emits f bs \<longleftrightarrow> (\<forall>ctx. sctx_ok ctx \<longrightarrow> f ctx = emit ctx bs)"

lemma emits_emit [intro!, simp]: "emits (\<lambda>ctx. emit ctx bs) bs"
  by (simp add: emits_def)

lemma emits_return [simp]: "emits Some []"
  by (auto simp: emits_def emit_def store_bytes_def sctx_ok_def split: option.splits)

lemma emits_bind:
  assumes "emits f a" and "emits g b"
  shows "emits (\<lambda>ctx. f ctx \<bind> g) (a @ b)"
proof -
  have "f ctx \<bind> g = emit ctx (a @ b)" if ok: "sctx_ok ctx" for ctx
  proof -
    have "emit ctx a \<bind> g = emit ctx a \<bind> (\<lambda>c. emit c b)"
      using assms(2) emit_sctx_ok [OF ok]
      by (cases "emit ctx a") (auto simp: emits_def)
    with ok show ?thesis
      using assms(1) by (simp add: emits_def emit_append)
  qed
  then show ?thesis by (simp add: emits_def)
qed

lemma emits_block_take:
  "unat len \<le> length val \<Longrightarrow>
   emits (\<lambda>ctx. Serialization_serializeBlock ctx val len) (take (unat len) val)"
  by (auto simp: emits_def Serialization_serializeBlock_def emit_def min.absorb1 split: option.splits)

lemma emits_block:
  "length val = unat len \<Longrightarrow> emits (\<lambda>ctx. Serialization_serializeBlock ctx val len) val"
  by (auto simp: emits_def Serialization_serializeBlock_def emit_def split: option.splits)

locale serializer =
  fixes ser :: "SerializeCtx \<Rightarrow> 'a \<Rightarrow> SerializeCtx option"
    and enc :: "'a \<Rightarrow> byte list"
    and wf :: "'a \<Rightarrow> bool"
  assumes ser_emits: "wf x \<Longrightarrow> emits (\<lambda>ctx. ser ctx x) (enc x)"
begin

lemma count_pass:
  "wf x \<Longrightarrow> ser \<lparr>s_data = None, s_length = l\<rparr> x =
     Some \<lparr>s_data = None, s_length = l + of_nat (length (enc x))\<rparr>"
  using ser_emits [of x] by (simp add: emits_def sctx_ok_def)

lemma store_pass:
  assumes "wf x" and "unat l + length (enc x) \<le> length d" and "length d < 2 ^ 32"
  shows "ser \<lparr>s_data = Some d, s_length = l\<rparr> x =
    Some \<lparr>s_data = Some (take (unat l) d @ enc x @ drop (unat l + length (enc x)) d),
          s_length = l + of_nat (length (enc x))\<rparr>"
  using ser_emits [OF assms(1)] assms(2,3)
  by (simp add: emits_def sctx_ok_def emit_def store_bytes_def)

text \<open>A buffer one byte too short for the encoding is never silently overrun.\<close>

lemma short_buffer:
  "wf x \<Longrightarrow> unat l \<le> length d \<Longrightarrow> length d < unat l + length (enc x) \<Longrightarrow> length d < 2 ^ 32 \<Longrightarrow>
   ser \<lparr>s_data = Some d, s_length = l\<rparr> x = None"
  using ser_emits [of x]
  by (simp add: emits_def sctx_ok_def emit_def store_bytes_def)

end

locale decoder =
  fixes dec :: "byte list \<Rightarrow> DeserializeCtx \<Rightarrow> ('a \<times> DeserializeCtx) dres"
  assumes in_bounds: "ctx_ok buf ctx \<Longrightarrow> dec buf ctx \<noteq> Overrun"
    and consumes: "ctx_ok buf ctx \<Longrightarrow> dec buf ctx = Done (x, ctx') \<Longrightarrow>
      \<exists>n \<le> d_length ctx. ctx' = advance ctx n"
begin

lemma dec_ok: "ctx_ok buf ctx \<Longrightarrow> dec buf ctx = Done (x, ctx') \<Longrightarrow> ctx_ok buf ctx'"
  using advance_ok(1) consumes by blast

lemma dec_view:
  "ctx_ok buf ctx \<Longrightarrow> dec buf ctx = Done (x, ctx') \<Longrightarrow>
   \<exists>n. view buf ctx' = drop n (view buf ctx)"
  using advance_ok(2) consumes by blast

end

text \<open>
  \<open>reads_before k dec bs x\<close>: on a view that starts with \<open>bs\<close> and has at least \<open>k\<close> more bytes,
  \<open>dec\<close> returns \<open>x\<close> and consumes \<open>bs\<close>.
\<close>

definition reads_before ::
    "nat \<Rightarrow> (byte list \<Rightarrow> DeserializeCtx \<Rightarrow> ('a \<times> DeserializeCtx) dres) \<Rightarrow> byte list \<Rightarrow> 'a \<Rightarrow> bool"
where
  "reads_before k dec bs x \<longleftrightarrow> (\<forall>buf ctx rest. ctx_ok buf ctx \<longrightarrow> view buf ctx = bs @ rest \<longrightarrow>
     k \<le> length rest \<longrightarrow> dec buf ctx = Done (x, advance ctx (of_nat (length bs))))"

abbreviation reads ::
    "(byte list \<Rightarrow> DeserializeCtx \<Rightarrow> ('a \<times> DeserializeCtx) dres) \<Rightarrow> byte list \<Rightarrow> 'a \<Rightarrow> bool" where
  "reads \<equiv> reads_before 0"

lemma reads_def:
  "reads dec bs x \<longleftrightarrow> (\<forall>buf ctx rest. ctx_ok buf ctx \<longrightarrow> view buf ctx = bs @ rest \<longrightarrow>
     dec buf ctx = Done (x, advance ctx (of_nat (length bs))))"
  unfolding reads_before_def by simp

lemma readsD:
  "reads dec bs x \<Longrightarrow> ctx_ok buf ctx \<Longrightarrow> view buf ctx = bs @ rest \<Longrightarrow>
   dec buf ctx = Done (x, advance ctx (of_nat (length bs)))"
  unfolding reads_def by blast

locale codec = serializer ser enc wf
  for ser :: "SerializeCtx \<Rightarrow> 'a \<Rightarrow> SerializeCtx option"
    and enc :: "'a \<Rightarrow> byte list"
    and wf :: "'a \<Rightarrow> bool" +
  fixes dec :: "byte list \<Rightarrow> DeserializeCtx \<Rightarrow> ('a \<times> DeserializeCtx) dres"
  assumes dec_reads: "wf x \<Longrightarrow> reads dec (enc x) x"
begin

text \<open>
  The code's two passes: count with a null buffer, allocate exactly that many bytes, store, and
  read the buffer back. The value is recovered and the whole buffer is consumed.
\<close>

lemma two_pass_roundtrip:
  assumes wf: "wf x" and len: "length (enc x) < 2 ^ 32"
    and count: "ser \<lparr>s_data = None, s_length = 0\<rparr> x = Some c"
    and alloc: "length d = unat (s_length c)"
  shows "\<exists>buf. ser \<lparr>s_data = Some d, s_length = 0\<rparr> x = Some \<lparr>s_data = Some buf, s_length = s_length c\<rparr>
    \<and> length buf = length d
    \<and> dec buf \<lparr>d_pos = 0, d_length = of_nat (length d)\<rparr>
        = Done (x, \<lparr>d_pos = of_nat (length d), d_length = 0\<rparr>)"
proof -
  have c: "s_length c = of_nat (length (enc x))"
    using count count_pass [OF wf, of 0] by auto
  have n: "length d = length (enc x)"
    using alloc c len by (simp add: unat_of_nat_small)
  let ?ctx = "\<lparr>d_pos = 0, d_length = of_nat (length d)\<rparr>"
  have un: "unat (of_nat (length d) :: u64) = length d"
    using n len by (simp add: unat_of_nat_small)
  have "ctx_ok (enc x) ?ctx" and "view (enc x) ?ctx = enc x @ []"
    using un n len by (simp_all add: ctx_ok_def view_def)
  then have "dec (enc x) ?ctx = Done (x, advance ?ctx (of_nat (length (enc x))))"
    using dec_reads [OF wf] unfolding reads_def by blast
  then show ?thesis
    using store_pass [OF wf, of 0 d] n len c by (simp add: advance_def)
qed

end

locale wire_type = codec ser enc wf dec + decoder dec
  for ser :: "SerializeCtx \<Rightarrow> 'a \<Rightarrow> SerializeCtx option"
    and enc :: "'a \<Rightarrow> byte list"
    and wf :: "'a \<Rightarrow> bool"
    and dec :: "byte list \<Rightarrow> DeserializeCtx \<Rightarrow> ('a \<times> DeserializeCtx) dres"

subsection \<open>Decoders compose\<close>

lemma dbind_eq_Done: "dbind m f = Done y \<longleftrightarrow> (\<exists>x. m = Done x \<and> f x = Done y)"
  by (cases m) auto

lemma dbind_eq_Overrun:
  "dbind m f = Overrun \<longleftrightarrow> m = Overrun \<or> (\<exists>x. m = Done x \<and> f x = Overrun)"
  by (cases m) auto

lemma advance_trans:
  assumes "ctx_ok buf ctx" and "m \<le> d_length ctx" and "n \<le> d_length (advance ctx m)"
  shows "\<exists>k \<le> d_length ctx. advance (advance ctx m) n = advance ctx k"
proof -
  from assms(3) have n: "n \<le> d_length ctx - m"
    by (simp add: advance_def)
  have "unat m + unat n \<le> unat (d_length ctx)"
    using n assms(2) by (simp add: word_le_nat_alt unat_sub)
  then have "m + n \<le> d_length ctx"
    using unat_bound [of "d_length ctx"] unat_plus_le [of m n] by (simp add: word_le_nat_alt)
  then show ?thesis by (auto simp: advance_advance)
qed

lemma decoder_return [intro!]: "decoder (\<lambda>buf ctx. Done (x, ctx))"
proof
  fix ctx ctx' :: DeserializeCtx and y
  assume "Done (x, ctx) = Done (y, ctx')"
  then show "\<exists>n \<le> d_length ctx. ctx' = advance ctx n"
    by (intro exI [of _ 0]) simp
qed simp

lemma decoder_refuse [intro!]: "decoder (\<lambda>buf ctx. Refused)"
  by unfold_locales auto

lemma decoder_if [intro]:
  "decoder f \<Longrightarrow> decoder g \<Longrightarrow> decoder (\<lambda>buf ctx. if c then f buf ctx else g buf ctx)"
  by (cases c) simp_all

lemma decoder_bind [intro]:
  assumes f: "decoder f" and g: "\<And>x. decoder (g x)"
  shows "decoder (\<lambda>buf ctx. dbind (f buf ctx) (\<lambda>(x, ctx). g x buf ctx))"
proof
  fix buf ctx
  assume ok: "ctx_ok buf ctx"
  show "dbind (f buf ctx) (\<lambda>(x, ctx). g x buf ctx) \<noteq> Overrun"
    using decoder.in_bounds [OF f ok] decoder.in_bounds [OF g] decoder.dec_ok [OF f ok]
    by (auto simp: dbind_eq_Overrun)
next
  fix buf ctx ctx' y
  assume ok: "ctx_ok buf ctx"
    and "dbind (f buf ctx) (\<lambda>(x, ctx). g x buf ctx) = Done (y, ctx')"
  then obtain x c where fc: "f buf ctx = Done (x, c)" and gc: "g x buf c = Done (y, ctx')"
    by (auto simp: dbind_eq_Done)
  obtain m where m: "m \<le> d_length ctx" "c = advance ctx m"
    using decoder.consumes [OF f ok fc] by blast
  obtain n where n: "n \<le> d_length c" "ctx' = advance c n"
    using decoder.consumes [OF g decoder.dec_ok [OF f ok fc] gc] by blast
  show "\<exists>n \<le> d_length ctx. ctx' = advance ctx n"
    using advance_trans [OF ok m(1)] m n by blast
qed

lemma decoder_raw: "n < 2 ^ 64 \<Longrightarrow> decoder (deserializeRaw n)"
proof
  fix buf ctx x ctx'
  assume n: "n < 2 ^ 64" and ok: "ctx_ok buf ctx"
  show "deserializeRaw n buf ctx \<noteq> Overrun"
    by (simp add: deserializeRaw_view [OF ok n])
  assume "deserializeRaw n buf ctx = Done (x, ctx')"
  then have "n \<le> length (view buf ctx)" and "ctx' = advance ctx (of_nat n)"
    by (auto simp: deserializeRaw_view [OF ok n] split: if_splits)
  moreover from this(1) have "(of_nat n :: u64) \<le> d_length ctx"
    using n by (simp add: length_view [OF ok] word_le_nat_alt unat_of_nat_small)
  ultimately show "\<exists>n \<le> d_length ctx. ctx' = advance ctx n" by blast
qed

lemma wire_type_raw:
  assumes "LENGTH('a) = 8 * n" and "n < 2 ^ 64"
  shows "wire_type (\<lambda>ctx v. emit ctx (le_bytes n v)) (le_bytes n) (\<lambda>_. True)
    (deserializeRaw n :: byte list \<Rightarrow> DeserializeCtx \<Rightarrow> ('a::len word \<times> DeserializeCtx) dres)"
proof (intro wire_type.intro codec.intro codec_axioms.intro decoder_raw [OF assms(2)])
  show "serializer (\<lambda>ctx v. emit ctx (le_bytes n v)) (le_bytes n :: 'a word \<Rightarrow> _) (\<lambda>_. True)"
    by unfold_locales auto
  fix x :: "'a word"
  show "reads (deserializeRaw n) (le_bytes n x) x"
    using assms by (simp add: reads_def deserializeRaw_view)
qed

interpretation UInt8: wire_type Serialization_serializeUInt8 "\<lambda>v. [v]" "\<lambda>_. True"
    Serialization_deserializeUInt8
proof -
  have "(\<lambda>v :: byte. [v]) = le_bytes 1" by (simp add: fun_eq_iff)
  then show "wire_type Serialization_serializeUInt8 (\<lambda>v. [v]) (\<lambda>_. True)
      Serialization_deserializeUInt8"
    using wire_type_raw [where 'a = 8, of 1]
    by (simp add: Serialization_serializeUInt8_def [abs_def] Serialization_serializeChar_def
        Serialization_deserializeUInt8_def Serialization_deserializeChar_def)
qed

interpretation UShort: wire_type Serialization_serializeUShort "le_bytes 2" "\<lambda>_. True"
    Serialization_deserializeUShort
  using wire_type_raw [where 'a = 16, of 2]
  by (simp add: Serialization_serializeUShort_def [abs_def] Serialization_deserializeUShort_def)

interpretation UInt: wire_type Serialization_serializeUInt "le_bytes 4" "\<lambda>_. True"
    Serialization_deserializeUInt
  using wire_type_raw [where 'a = 32, of 4]
  by (simp add: Serialization_serializeUInt_def [abs_def] Serialization_deserializeUInt_def)

interpretation UInt64: wire_type Serialization_serializeUInt64 "le_bytes 8" "\<lambda>_. True"
    Serialization_deserializeUInt64
  using wire_type_raw [where 'a = 64, of 8]
  by (simp add: Serialization_serializeUInt64_def [abs_def] Serialization_deserializeUInt64_def)

lemmas decoder_scalars [intro!] =
  UInt8.decoder_axioms UShort.decoder_axioms UInt.decoder_axioms UInt64.decoder_axioms

interpretation Bool: wire_type Serialization_serializeBool "\<lambda>v. [if v then 1 else 0]" "\<lambda>_. True"
    Serialization_deserializeBool
proof (intro wire_type.intro codec.intro codec_axioms.intro)
  show "serializer Serialization_serializeBool (\<lambda>v. [if v then 1 else 0]) (\<lambda>_. True)"
    by unfold_locales (simp add: Serialization_serializeBool_def Serialization_serializeChar_def)
  have "decoder (\<lambda>buf ctx. dbind (Serialization_deserializeUInt8 buf ctx)
      (\<lambda>(c, ctx). Done (c \<noteq> 0, ctx)))"
    by (rule decoder_bind) auto
  then show "decoder Serialization_deserializeBool"
    by (simp add: Serialization_deserializeBool_def [abs_def] Serialization_deserializeUInt8_def)
  fix x
  have "reads Serialization_deserializeUInt8 [if x then 1 else 0] (if x then 1 else 0)"
    by (rule UInt8.dec_reads) simp
  then show "reads Serialization_deserializeBool [if x then 1 else 0] x"
    by (simp add: reads_def Serialization_deserializeBool_def Serialization_deserializeUInt8_def)
qed

subsection \<open>Readers compose\<close>

lemma reads_return: "reads (\<lambda>buf ctx. Done (x, ctx)) [] x"
  by (simp add: reads_def)

lemma reads_before_mono: "reads_before k dec bs x \<Longrightarrow> k \<le> m \<Longrightarrow> reads_before m dec bs x"
  unfolding reads_before_def by (meson order_trans)

lemma reads_bind:
  assumes "reads_before k f a x" and "reads_before m (g x) b y" and "k \<le> length b + m"
  shows "reads_before m (\<lambda>buf ctx. dbind (f buf ctx) (\<lambda>(x, ctx). g x buf ctx)) (a @ b) y"
  unfolding reads_before_def
proof (intro allI impI)
  fix buf ctx rest
  assume ok: "ctx_ok buf ctx" and v: "view buf ctx = (a @ b) @ rest" and m: "m \<le> length rest"
  then have v': "view buf ctx = a @ b @ rest" by simp
  moreover have "k \<le> length (b @ rest)" using assms(3) m by simp
  ultimately have "f buf ctx = Done (x, advance ctx (of_nat (length a)))"
    using assms(1) ok unfolding reads_before_def by blast
  moreover have "g x buf (advance ctx (of_nat (length a)))
      = Done (y, advance (advance ctx (of_nat (length a))) (of_nat (length b)))"
    using assms(2) advance_append [OF ok v'] m unfolding reads_before_def by blast
  ultimately show "dbind (f buf ctx) (\<lambda>(x, ctx). g x buf ctx)
      = Done (y, advance ctx (of_nat (length (a @ b))))"
    by (simp add: advance_advance)
qed

text \<open>Last field of a record: the decoded value is only wrapped.\<close>

lemma reads_map:
  "reads_before k f a x \<Longrightarrow> h x = y \<Longrightarrow>
   reads_before k (\<lambda>buf ctx. dbind (f buf ctx) (\<lambda>(x, ctx). Done (h x, ctx))) a y"
  using reads_bind [of k f a x k "\<lambda>x buf ctx. Done (h x, ctx)" "[]" y]
    reads_before_mono [OF reads_return [of y], of k] by simp

end
