(* ===== verification/SerialLists.thy ===== *)
theory SerialLists
  imports Serialization
begin

text \<open>
  Strings, arrays and lists on the wire: the second half of \<^verbatim>\<open>Serialization.c\<close>. Lists carry a
  length field that is written as zero first and patched once the elements are stored.
\<close>

section \<open>Nested fields, strings and character arrays\<close>

definition read_byte :: "byte list \<Rightarrow> u64 \<Rightarrow> byte option" where
  "read_byte buf p = (if unat p < length buf then Some (buf ! unat p) else None)"

definition Serialization_deserializeNestedField ::
    "byte list \<Rightarrow> DeserializeCtx \<Rightarrow> (DeserializeCtx \<times> DeserializeCtx) dres" where
  "Serialization_deserializeNestedField buf ctx =
     dbind (Serialization_deserializeUInt buf ctx) (\<lambda>(len0, ctx).
       let len = len0 - 4 in
       if d_length ctx < ucast len then Refused
       else Done (\<lparr>d_pos = d_pos ctx, d_length = ucast len\<rparr>, advance ctx (ucast len)))"

definition Serialization_serializeStr ::
    "SerializeCtx \<Rightarrow> u32 \<Rightarrow> byte list \<Rightarrow> SerializeCtx option" where
  "Serialization_serializeStr ctx strLen str = do {
     ctx \<leftarrow> Serialization_serializeUInt ctx strLen;
     ctx \<leftarrow> Serialization_serializeBlock ctx str strLen;
     Serialization_serializeChar ctx 0 }"

definition Serialization_deserializeStr ::
    "byte list \<Rightarrow> DeserializeCtx \<Rightarrow> ((u32 \<times> u64) \<times> DeserializeCtx) dres" where
  "Serialization_deserializeStr buf ctx =
     dbind (Serialization_deserializeUInt buf ctx) (\<lambda>(strLen, ctx).
       if d_length ctx < ucast (strLen + 1) then Refused
       else (case read_byte buf (d_pos ctx + ucast strLen) of
               None \<Rightarrow> Overrun
             | Some c \<Rightarrow>
                 if c \<noteq> 0 then Refused
                 else Done ((strLen, d_pos ctx), advance ctx (ucast (strLen + 1)))))"

definition Serialization_serializeCharArray ::
    "SerializeCtx \<Rightarrow> u32 \<Rightarrow> byte list \<Rightarrow> SerializeCtx option" where
  "Serialization_serializeCharArray ctx arrLen arr = do {
     ctx \<leftarrow> Serialization_serializeUInt ctx arrLen;
     Serialization_serializeBlock ctx arr arrLen }"

definition Serialization_deserializeCharArray ::
    "byte list \<Rightarrow> DeserializeCtx \<Rightarrow> ((u32 \<times> u64) \<times> DeserializeCtx) dres" where
  "Serialization_deserializeCharArray buf ctx =
     dbind (Serialization_deserializeUInt buf ctx) (\<lambda>(elemNum, ctx).
       if d_length ctx < ucast elemNum then Refused
       else Done ((elemNum, d_pos ctx), advance ctx (ucast elemNum)))"

definition Serialization_serializeStrAlign4 ::
    "SerializeCtx \<Rightarrow> u32 \<Rightarrow> byte list \<Rightarrow> SerializeCtx option" where
  "Serialization_serializeStrAlign4 ctx strLen str = do {
     ctx \<leftarrow> Serialization_serializeUInt ctx strLen;
     ctx \<leftarrow> Serialization_serializeBlock ctx str strLen;
     ctx \<leftarrow> Serialization_serializeChar ctx 0;
     if (strLen + 1) mod 4 \<noteq> 0
     then Serialization_serializeBlock ctx (replicate 4 0) (4 - (strLen + 1) mod 4)
     else Some ctx }"

definition Serialization_deserializeStrAlign4 ::
    "byte list \<Rightarrow> DeserializeCtx \<Rightarrow> ((u32 \<times> u64) \<times> DeserializeCtx) dres" where
  "Serialization_deserializeStrAlign4 buf ctx =
     (let bufAtStart = d_pos ctx in
      dbind (Serialization_deserializeUInt buf ctx) (\<lambda>(strLen, ctx).
        if d_length ctx < ucast (strLen + 1) then Refused
        else (case read_byte buf (d_pos ctx + ucast strLen) of
                None \<Rightarrow> Overrun
              | Some c \<Rightarrow>
                  if c \<noteq> 0 then Refused
                  else
                    let strStart = d_pos ctx;
                        ctx = advance ctx (ucast (strLen + 1));
                        padding = (d_pos ctx - bufAtStart) mod 4
                    in if padding \<noteq> 0
                       then if d_length ctx < padding then Refused
                            else Done ((strLen, strStart), advance ctx (4 - padding))
                       else Done ((strLen, strStart), ctx))))"

section \<open>Lists\<close>

fun serializeEach ::
    "(SerializeCtx \<Rightarrow> 'a \<Rightarrow> SerializeCtx option) \<Rightarrow> 'a list \<Rightarrow> SerializeCtx \<Rightarrow> SerializeCtx option"
where
  "serializeEach ser [] ctx = Some ctx"
| "serializeEach ser (x # xs) ctx = ser ctx x \<bind> serializeEach ser xs"

fun deserializeEach ::
    "(byte list \<Rightarrow> DeserializeCtx \<Rightarrow> ('a \<times> DeserializeCtx) dres) \<Rightarrow> nat \<Rightarrow>
     byte list \<Rightarrow> DeserializeCtx \<Rightarrow> ('a list \<times> DeserializeCtx) dres"
where
  "deserializeEach dec 0 buf ctx = Done ([], ctx)"
| "deserializeEach dec (Suc n) buf ctx =
     dbind (dec buf ctx) (\<lambda>(x, ctx).
       dbind (deserializeEach dec n buf ctx) (\<lambda>(xs, ctx). Done (x # xs, ctx)))"

text \<open>
  Storing at an earlier position: \<^verbatim>\<open>startCtx\<close> is a copy of the context taken before the list, so it
  shares the buffer and keeps the old length.
\<close>

definition patch ::
    "SerializeCtx \<Rightarrow> SerializeCtx \<Rightarrow> (SerializeCtx \<Rightarrow> SerializeCtx option) \<Rightarrow> SerializeCtx option" where
  "patch startCtx ctx ser = do {
     p \<leftarrow> ser (ctx\<lparr>s_length := s_length startCtx\<rparr>);
     Some (ctx\<lparr>s_data := s_data p\<rparr>) }"

definition serializeSizedList ::
    "(SerializeCtx \<Rightarrow> 'a \<Rightarrow> SerializeCtx option) \<Rightarrow> SerializeCtx \<Rightarrow> 'a list \<Rightarrow> SerializeCtx option" where
  "serializeSizedList ser startCtx xs = do {
     let listSize = (of_nat (length xs) :: u32);
     ctx \<leftarrow> Serialization_serializeUInt startCtx 0;
     ctx \<leftarrow> Serialization_serializeUInt ctx listSize;
     ctx \<leftarrow> serializeEach ser (take (unat listSize) xs) ctx;
     patch startCtx ctx (\<lambda>c. Serialization_serializeUInt c (s_length ctx - s_length startCtx)) }"

definition deserializeSizedListPreprocess ::
    "u32 \<Rightarrow> byte list \<Rightarrow> DeserializeCtx \<Rightarrow> (RawList \<times> DeserializeCtx) dres" where
  "deserializeSizedListPreprocess elemLen buf ctx =
     dbind (Serialization_deserializeNestedField buf ctx) (\<lambda>(outCtx, ctx).
       dbind (Serialization_deserializeUInt buf outCtx) (\<lambda>(elemCount, outCtx).
         if d_length outCtx \<noteq> ucast (elemCount * elemLen) then Refused
         else Done (\<lparr>r_data = d_pos outCtx, r_length = ucast (d_length outCtx),
                     r_elemCount = elemCount\<rparr>, ctx)))"

definition deserializeRawList ::
    "(byte list \<Rightarrow> DeserializeCtx \<Rightarrow> ('a \<times> DeserializeCtx) dres) \<Rightarrow>
     byte list \<Rightarrow> RawList \<Rightarrow> 'a list dres" where
  "deserializeRawList dec buf inList =
     dbind (deserializeEach dec (unat (r_elemCount inList)) buf
              \<lparr>d_pos = r_data inList, d_length = ucast (r_length inList)\<rparr>)
       (\<lambda>(xs, ctx). Done xs)"

definition Serialization_deserializeUInt8ListPreprocess ::
    "byte list \<Rightarrow> DeserializeCtx \<Rightarrow> (RawList \<times> DeserializeCtx) dres" where
  "Serialization_deserializeUInt8ListPreprocess = deserializeSizedListPreprocess 1"

definition Serialization_deserializeUInt8List :: "byte list \<Rightarrow> RawList \<Rightarrow> byte list dres" where
  "Serialization_deserializeUInt8List = deserializeRawList Serialization_deserializeUInt8"

definition Serialization_serializeUInt16List ::
    "SerializeCtx \<Rightarrow> u16 list \<Rightarrow> SerializeCtx option" where
  "Serialization_serializeUInt16List = serializeSizedList Serialization_serializeUShort"

definition Serialization_deserializeUInt16ListPreprocess ::
    "byte list \<Rightarrow> DeserializeCtx \<Rightarrow> (RawList \<times> DeserializeCtx) dres" where
  "Serialization_deserializeUInt16ListPreprocess = deserializeSizedListPreprocess 2"

definition Serialization_deserializeUInt16List :: "byte list \<Rightarrow> RawList \<Rightarrow> u16 list dres" where
  "Serialization_deserializeUInt16List = deserializeRawList Serialization_deserializeUShort"

definition Serialization_serializeInt64CpyList ::
    "SerializeCtx \<Rightarrow> u64 list \<Rightarrow> SerializeCtx option" where
  "Serialization_serializeInt64CpyList = serializeSizedList Serialization_serializeInt64"

definition Serialization_deserializeInt64CpyListPreprocess ::
    "byte list \<Rightarrow> DeserializeCtx \<Rightarrow> (RawList \<times> DeserializeCtx) dres" where
  "Serialization_deserializeInt64CpyListPreprocess = deserializeSizedListPreprocess 8"

definition Serialization_deserializeInt64CpyList :: "byte list \<Rightarrow> RawList \<Rightarrow> u64 list dres" where
  "Serialization_deserializeInt64CpyList = deserializeRawList Serialization_deserializeInt64"

text \<open>The vector functions delegate to the list functions; vectors share their wire format.\<close>

definition Serialization_deserializeUInt8VecPreprocess ::
    "byte list \<Rightarrow> DeserializeCtx \<Rightarrow> (RawList \<times> DeserializeCtx) dres" where
  "Serialization_deserializeUInt8VecPreprocess = Serialization_deserializeUInt8ListPreprocess"

definition Serialization_deserializeUInt8Vec :: "byte list \<Rightarrow> RawList \<Rightarrow> byte list dres" where
  "Serialization_deserializeUInt8Vec = deserializeRawList Serialization_deserializeUInt8"

definition Serialization_serializeUInt16Vec ::
    "SerializeCtx \<Rightarrow> u16 list \<Rightarrow> SerializeCtx option" where
  "Serialization_serializeUInt16Vec = Serialization_serializeUInt16List"

definition Serialization_deserializeUInt16VecPreprocess ::
    "byte list \<Rightarrow> DeserializeCtx \<Rightarrow> (RawList \<times> DeserializeCtx) dres" where
  "Serialization_deserializeUInt16VecPreprocess = Serialization_deserializeUInt16ListPreprocess"

definition Serialization_deserializeUInt16Vec :: "byte list \<Rightarrow> RawList \<Rightarrow> u16 list dres" where
  "Serialization_deserializeUInt16Vec = deserializeRawList Serialization_deserializeUShort"

definition Serialization_serializeInt64CpyVec ::
    "SerializeCtx \<Rightarrow> u64 list \<Rightarrow> SerializeCtx option" where
  "Serialization_serializeInt64CpyVec = Serialization_serializeInt64CpyList"

definition Serialization_deserializeInt64CpyVecPreprocess ::
    "byte list \<Rightarrow> DeserializeCtx \<Rightarrow> (RawList \<times> DeserializeCtx) dres" where
  "Serialization_deserializeInt64CpyVecPreprocess = Serialization_deserializeInt64CpyListPreprocess"

definition Serialization_deserializeInt64CpyVec :: "byte list \<Rightarrow> RawList \<Rightarrow> u64 list dres" where
  "Serialization_deserializeInt64CpyVec = deserializeRawList Serialization_deserializeInt64"

section \<open>String lists\<close>

text \<open>\<^verbatim>\<open>strlen\<close>: \<^const>\<open>None\<close> when the scan leaves the buffer before it meets a zero byte.\<close>

fun strlen_of :: "byte list \<Rightarrow> nat option" where
  "strlen_of [] = None"
| "strlen_of (b # bs) = (if b = 0 then Some 0 else map_option Suc (strlen_of bs))"

definition c_strlen :: "byte list \<Rightarrow> u64 \<Rightarrow> nat option" where
  "c_strlen buf p = strlen_of (drop (unat p) buf)"

text \<open>Each element is stored with its terminating zero: \<^verbatim>\<open>strlen(currentElem) + 1\<close> bytes.\<close>

definition serializeCString :: "SerializeCtx \<Rightarrow> byte list \<Rightarrow> SerializeCtx option" where
  "serializeCString ctx str =
     Serialization_serializeBlock ctx (str @ [0]) (of_nat (length str) + 1)"

definition Serialization_serializeStrCpyList ::
    "SerializeCtx \<Rightarrow> byte list list \<Rightarrow> SerializeCtx option" where
  "Serialization_serializeStrCpyList startCtx xs = do {
     ctx \<leftarrow> Serialization_serializeUInt startCtx 0;
     ctx \<leftarrow> Serialization_serializeUInt ctx (of_nat (length xs));
     ctx \<leftarrow> serializeEach serializeCString xs ctx;
     patch startCtx ctx (\<lambda>c. Serialization_serializeUInt c (s_length ctx - s_length startCtx)) }"

definition Serialization_deserializeStrCpyListPreprocess ::
    "byte list \<Rightarrow> DeserializeCtx \<Rightarrow> (RawList \<times> DeserializeCtx) dres" where
  "Serialization_deserializeStrCpyListPreprocess buf ctx =
     dbind (Serialization_deserializeNestedField buf ctx) (\<lambda>(outCtx, ctx).
       dbind (Serialization_deserializeUInt buf outCtx) (\<lambda>(elemCount, outCtx).
         let res = Done (\<lparr>r_data = d_pos outCtx, r_length = ucast (d_length outCtx),
                          r_elemCount = elemCount\<rparr>, ctx)
         in if elemCount \<noteq> 0
            then (case read_byte buf (d_pos outCtx + (d_length outCtx - 1)) of
                    None \<Rightarrow> Overrun
                  | Some c \<Rightarrow> if c \<noteq> 0 then Refused else res)
            else res))"

text \<open>
  The reading loop: the first argument is \<open>elemCount - i\<close>, the result holds the strings and the
  number of iterations made before \<^verbatim>\<open>listBufLen\<close> became zero.
\<close>

fun strCpyLoop :: "nat \<Rightarrow> byte list \<Rightarrow> u64 \<Rightarrow> u32 \<Rightarrow> (byte list list \<times> nat) dres" where
  "strCpyLoop 0 buf listStart listBufLen = Done ([], 0)"
| "strCpyLoop (Suc n) buf listStart listBufLen =
     (if listBufLen > 0 then
        (case c_strlen buf listStart of
           None \<Rightarrow> Overrun
         | Some elemLen \<Rightarrow>
             dbind (strCpyLoop n buf (listStart + of_nat (elemLen + 1))
                      (listBufLen - of_nat (elemLen + 1)))
               (\<lambda>(xs, i). Done (take elemLen (drop (unat listStart) buf) # xs, Suc i)))
      else Done ([], 0))"

definition Serialization_deserializeStrCpyList ::
    "byte list \<Rightarrow> RawList \<Rightarrow> byte list list dres" where
  "Serialization_deserializeStrCpyList buf inList =
     dbind (strCpyLoop (unat (r_elemCount inList)) buf (r_data inList) (r_length inList))
       (\<lambda>(xs, i). if i = unat (r_elemCount inList) then Done xs else Refused)"

definition Serialization_serializeStrCpyVec ::
    "SerializeCtx \<Rightarrow> byte list list \<Rightarrow> SerializeCtx option" where
  "Serialization_serializeStrCpyVec = Serialization_serializeStrCpyList"

definition Serialization_deserializeStrCpyVecPreprocess ::
    "byte list \<Rightarrow> DeserializeCtx \<Rightarrow> (RawList \<times> DeserializeCtx) dres" where
  "Serialization_deserializeStrCpyVecPreprocess = Serialization_deserializeStrCpyListPreprocess"

definition Serialization_deserializeStrCpyVec ::
    "byte list \<Rightarrow> RawList \<Rightarrow> byte list list dres" where
  "Serialization_deserializeStrCpyVec buf inList =
     dbind (strCpyLoop (unat (r_elemCount inList)) buf (r_data inList) (r_length inList))
       (\<lambda>(xs, i). if i = unat (r_elemCount inList) then Done xs else Refused)"

section \<open>Storing elements and patching the length\<close>

lemma emits_each:
  "(\<And>x. x \<in> set xs \<Longrightarrow> emits (\<lambda>ctx. ser ctx x) (enc x)) \<Longrightarrow>
   emits (serializeEach ser xs) (concat (map enc xs))"
proof (induction xs)
  case Nil
  have "serializeEach ser [] = Some" by (simp add: fun_eq_iff)
  then show ?case by simp
next
  case (Cons x xs)
  have "serializeEach ser (x # xs) = (\<lambda>ctx. ser ctx x \<bind> serializeEach ser xs)"
    by (simp add: fun_eq_iff)
  then show ?case
    using Cons emits_bind [of "\<lambda>ctx. ser ctx x" "enc x" "serializeEach ser xs"] by simp
qed

text \<open>
  Patching: a header \<open>a\<close> of the same size was stored first, so the result is as if the final
  header \<open>b\<close> had been stored at once.
\<close>

lemma emits_patch:
  assumes f: "emits f (a @ body)"
    and len: "length a = length (b (of_nat (length (a @ body))))"
    and p: "\<And>n. emits (p n) (b n)"
  shows "emits (\<lambda>start. f start \<bind> (\<lambda>ctx. patch start ctx (p (s_length ctx - s_length start))))
    (b (of_nat (length (a @ body))) @ body)" (is "emits _ (?b @ body)")
  unfolding emits_def
proof (intro allI impI)
  fix start
  assume ok: "sctx_ok start"
  have fs: "f start = emit start (a @ body)"
    using f ok by (simp add: emits_def)
  show "f start \<bind> (\<lambda>ctx. patch start ctx (p (s_length ctx - s_length start))) =
      emit start (?b @ body)"
  proof (cases "emit start (a @ body)")
    case None
    then show ?thesis
      using fs len by (auto simp: emit_def store_bytes_def split: option.splits if_splits)
  next
    case (Some ctx)
    then have l: "s_length ctx - s_length start = of_nat (length (a @ body))"
      by (auto simp: emit_def split: option.splits)
    have okc: "sctx_ok (ctx\<lparr>s_length := s_length start\<rparr>)"
      using ok Some emit_sctx_ok [OF ok Some]
      by (auto simp: emit_def sctx_ok_def dest!: length_store_bytes split: option.splits)
    have "patch start ctx (p (s_length ctx - s_length start)) =
        emit (ctx\<lparr>s_length := s_length start\<rparr>) ?b \<bind> (\<lambda>q. Some (ctx\<lparr>s_data := s_data q\<rparr>))"
      using p okc by (simp add: patch_def emits_def l)
    also have "\<dots> = emit start (?b @ body)"
      using Some len by (auto simp: emit_def store_bytes_def split: option.splits if_splits)
    finally show ?thesis using fs Some by simp
  qed
qed

definition sized_enc :: "('a \<Rightarrow> byte list) \<Rightarrow> 'a list \<Rightarrow> byte list" where
  "sized_enc enc xs =
     le_bytes 4 (of_nat (8 + length (concat (map enc xs))) :: u32) @
     le_bytes 4 (of_nat (length xs) :: u32) @ concat (map enc xs)"

lemma length_sized_enc: "length (sized_enc enc xs) = 8 + length (concat (map enc xs))"
  by (simp add: sized_enc_def)

lemma emits_list_body:
  assumes "\<And>x. x \<in> set xs \<Longrightarrow> emits (\<lambda>ctx. ser ctx x) (enc x)"
  shows "emits (\<lambda>ctx. Serialization_serializeUInt ctx 0 \<bind> (\<lambda>ctx.
      Serialization_serializeUInt ctx n \<bind> serializeEach ser xs))
    (le_bytes 4 (0::u32) @ le_bytes 4 n @ concat (map enc xs))"
  by (intro emits_bind UInt.ser_emits emits_each assms TrueI)

lemma emits_sized:
  assumes "\<And>x. x \<in> set xs \<Longrightarrow> emits (\<lambda>ctx. ser ctx x) (enc x)"
  shows "emits (\<lambda>start. do {
      ctx \<leftarrow> Serialization_serializeUInt start 0;
      ctx \<leftarrow> Serialization_serializeUInt ctx (of_nat (length xs));
      ctx \<leftarrow> serializeEach ser xs ctx;
      patch start ctx (\<lambda>c. Serialization_serializeUInt c (s_length ctx - s_length start)) })
    (sized_enc enc xs)"
  using emits_patch [where b = "le_bytes 4" and p = "\<lambda>n c. Serialization_serializeUInt c n",
      OF emits_list_body [where n = "of_nat (length xs)", OF assms]] UInt.ser_emits
  by (simp add: sized_enc_def ac_simps)

lemma emits_serializeSizedList:
  assumes "\<And>x. x \<in> set xs \<Longrightarrow> emits (\<lambda>ctx. ser ctx x) (enc x)" and "length xs < 2 ^ 32"
  shows "emits (\<lambda>ctx. serializeSizedList ser ctx xs) (sized_enc enc xs)"
proof -
  have "take (unat (of_nat (length xs) :: u32)) xs = xs"
    using assms(2) by (simp add: unat_of_nat_small)
  then show ?thesis
    using emits_sized [of xs ser enc] assms(1) by (simp add: serializeSizedList_def)
qed

section \<open>Nested fields\<close>

lemma nested_in_bounds: "ctx_ok buf ctx \<Longrightarrow> Serialization_deserializeNestedField buf ctx \<noteq> Overrun"
  by (auto simp: Serialization_deserializeNestedField_def dbind_eq_Overrun UInt.in_bounds Let_def
      split: if_splits)

lemma nested_inv:
  assumes ok: "ctx_ok buf ctx"
    and n: "Serialization_deserializeNestedField buf ctx = Done (inner, ctx')"
  shows "ctx_ok buf inner" and "\<exists>n \<le> d_length ctx. ctx' = advance ctx n"
    and "d_pos inner > d_pos ctx" and "d_length inner < 2 ^ 32"
proof -
  from n obtain len c where u: "Serialization_deserializeUInt buf ctx = Done (len, c)"
    and le: "ucast (len - 4) \<le> d_length c"
    and inner: "inner = \<lparr>d_pos = d_pos c, d_length = ucast (len - 4)\<rparr>"
    and c': "ctx' = advance c (ucast (len - 4))"
    by (auto simp: Serialization_deserializeNestedField_def dbind_eq_Done Let_def not_less
        split: if_splits)
  have okc: "ctx_ok buf c" using UInt.dec_ok ok u by blast
  then show "ctx_ok buf inner"
    using le by (auto simp: ctx_ok_def inner word_le_nat_alt)
  obtain m where m: "m \<le> d_length ctx" "c = advance ctx m"
    using UInt.consumes ok u by blast
  then show "\<exists>n \<le> d_length ctx. ctx' = advance ctx n"
    using advance_trans [OF ok m(1)] le c' by blast
  show "d_length inner < 2 ^ 32"
    using unat_bound [of "len - 4"] by (simp add: inner word_less_nat_alt unat_ucast_up)
  have "c = advance ctx 4" and "4 \<le> length (view buf ctx)"
    using u ok by (auto simp: Serialization_deserializeUInt_def deserializeRaw_view split: if_splits)
  moreover have "unat (d_pos ctx) + 4 < 2 ^ 64"
    using ok calculation(2) length_view [OF ok] by (simp add: ctx_ok_def)
  ultimately show "d_pos inner > d_pos ctx"
    by (simp add: inner advance_def word_less_nat_alt unat_plus_le)
qed

lemma nested_reads:
  assumes ok: "ctx_ok buf ctx"
    and v: "view buf ctx = le_bytes 4 (of_nat (4 + length body) :: u32) @ body @ rest"
    and len: "4 + length body < 2 ^ 32"
  defines "inner \<equiv> \<lparr>d_pos = d_pos ctx + 4, d_length = of_nat (length body)\<rparr>"
  shows "Serialization_deserializeNestedField buf ctx =
      Done (inner, advance ctx (of_nat (4 + length body)))"
    and "ctx_ok buf inner" and "view buf inner = body"
proof -
  let ?c = "advance ctx 4"
  have u: "Serialization_deserializeUInt buf ctx = Done (of_nat (4 + length body), ?c)"
    using readsD [OF UInt.dec_reads ok v] by simp
  have sub: "(of_nat (4 + length body) :: u32) - 4 = of_nat (length body)"
    by simp
  have uc: "(ucast (of_nat (length body) :: u32) :: u64) = of_nat (length body)"
    using len by (intro word_unat_eq_iff [THEN iffD2]) (simp add: unat_ucast_up unat_of_nat_small)
  have c: "ctx_ok buf ?c" "view buf ?c = body @ rest"
    using advance_append [OF ok v] by simp_all
  then have le: "length body \<le> unat (d_length ?c)"
    using length_view [OF c(1)] by simp
  show "Serialization_deserializeNestedField buf ctx =
      Done (inner, advance ctx (of_nat (4 + length body)))"
    using le len u sub uc
    by (simp add: Serialization_deserializeNestedField_def inner_def Let_def word_less_nat_alt
        unat_of_nat_small advance_advance)
      (simp add: advance_def)
  show "ctx_ok buf inner"
    using c(1) le len by (simp add: ctx_ok_def inner_def unat_of_nat_small advance_def)
  have "view buf inner = take (length body) (view buf ?c)"
    using c(1) le len
    by (simp add: view_def inner_def unat_of_nat_small advance_def min.absorb1)
  with c(2) show "view buf inner = body" by simp
qed

section \<open>Reading lists of scalars\<close>

lemma decoder_each: "decoder dec \<Longrightarrow> decoder (deserializeEach dec n)"
proof (induction n)
  case 0
  then show ?case using decoder_return [of "[]"] by simp
next
  case (Suc n)
  have "decoder (\<lambda>buf ctx. dbind (dec buf ctx) (\<lambda>(x, ctx).
      dbind (deserializeEach dec n buf ctx) (\<lambda>(xs, ctx). Done (x # xs, ctx))))"
    using Suc by (intro decoder_bind decoder_return) auto
  then show ?case by simp
qed

lemma reads_each:
  "(\<And>x. x \<in> set xs \<Longrightarrow> reads dec (enc x) x) \<Longrightarrow>
   reads (deserializeEach dec (length xs)) (concat (map enc xs)) xs"
proof (induction xs)
  case Nil
  then show ?case using reads_return [of "[]"] by simp
next
  case (Cons x xs)
  have "reads (\<lambda>buf ctx. dbind (deserializeEach dec (length xs) buf ctx)
      (\<lambda>(xs, ctx). Done (x # xs, ctx))) (concat (map enc xs)) (x # xs)"
    using Cons by (intro reads_map) auto
  then show ?case
    using reads_bind [of 0 dec "enc x" x 0] Cons.prems by simp
qed

text \<open>
  A message first preprocesses a list while its fields are deserialized and reads the elements
  later; both steps together are the decoder of the list.
\<close>

definition viaRawList ::
    "(byte list \<Rightarrow> DeserializeCtx \<Rightarrow> (RawList \<times> DeserializeCtx) dres) \<Rightarrow>
     (byte list \<Rightarrow> RawList \<Rightarrow> 'a dres) \<Rightarrow>
     byte list \<Rightarrow> DeserializeCtx \<Rightarrow> ('a \<times> DeserializeCtx) dres" where
  "viaRawList pre des buf ctx =
     dbind (pre buf ctx) (\<lambda>(raw, ctx). dbind (des buf raw) (\<lambda>x. Done (x, ctx)))"

lemma sized_preprocess_inv:
  assumes ok: "ctx_ok buf ctx"
    and p: "deserializeSizedListPreprocess n buf ctx = Done (raw, ctx')"
  shows "ctx_ok buf \<lparr>d_pos = r_data raw, d_length = ucast (r_length raw)\<rparr>"
    and "\<exists>n \<le> d_length ctx. ctx' = advance ctx n"
    and "r_length raw = r_elemCount raw * n"
proof -
  from p obtain inner c i' where nf: "Serialization_deserializeNestedField buf ctx = Done (inner, ctx')"
    and u: "Serialization_deserializeUInt buf inner = Done (c, i')"
    and len: "d_length i' = ucast (c * n)"
    and raw: "raw = \<lparr>r_data = d_pos i', r_length = ucast (d_length i'), r_elemCount = c\<rparr>"
    by (auto simp: deserializeSizedListPreprocess_def dbind_eq_Done split: if_splits)
  have "ctx_ok buf i'"
    using UInt.dec_ok nested_inv(1) [OF ok nf] u by blast
  then show "ctx_ok buf \<lparr>d_pos = r_data raw, d_length = ucast (r_length raw)\<rparr>"
    by (simp add: raw len ctx_ok_def)
  show "\<exists>n \<le> d_length ctx. ctx' = advance ctx n"
    by (rule nested_inv(2) [OF ok nf])
  show "r_length raw = r_elemCount raw * n"
    by (simp add: raw len)
qed

lemma sized_preprocess_in_bounds:
  "ctx_ok buf ctx \<Longrightarrow> deserializeSizedListPreprocess n buf ctx \<noteq> Overrun"
  using nested_in_bounds nested_inv(1) UInt.in_bounds
  by (fastforce simp: deserializeSizedListPreprocess_def dbind_eq_Overrun split: if_splits)

lemma decoder_sized:
  assumes dec: "decoder dec"
  shows "decoder (viaRawList (deserializeSizedListPreprocess n) (deserializeRawList dec))"
proof
  fix buf ctx x ctx'
  assume ok: "ctx_ok buf ctx"
  have "deserializeRawList dec buf raw \<noteq> Overrun"
    if "deserializeSizedListPreprocess n buf ctx = Done (raw, c)" for raw c
    using decoder.in_bounds [OF decoder_each [OF dec]] sized_preprocess_inv(1) [OF ok that]
    by (auto simp: deserializeRawList_def dbind_eq_Overrun)
  then show "viaRawList (deserializeSizedListPreprocess n) (deserializeRawList dec) buf ctx \<noteq> Overrun"
    using sized_preprocess_in_bounds [OF ok] by (auto simp: viaRawList_def dbind_eq_Overrun)
  assume "viaRawList (deserializeSizedListPreprocess n) (deserializeRawList dec) buf ctx =
      Done (x, ctx')"
  then show "\<exists>n \<le> d_length ctx. ctx' = advance ctx n"
    using sized_preprocess_inv(2) [OF ok] by (auto simp: viaRawList_def dbind_eq_Done)
qed

lemma reads_sized:
  assumes dec: "\<And>x. x \<in> set xs \<Longrightarrow> reads dec (enc x) x"
    and elem: "\<And>x. length (enc x) = unat n"
    and len: "8 + length (concat (map enc xs)) < 2 ^ 32" and n: "length xs < 2 ^ 32"
  shows "reads (viaRawList (deserializeSizedListPreprocess n) (deserializeRawList dec))
    (sized_enc enc xs) xs"
  unfolding reads_def
proof (intro allI impI)
  fix buf rest and ctx :: DeserializeCtx
  let ?el = "concat (map enc xs)" and ?cnt = "of_nat (length xs) :: u32"
  let ?inner = "\<lparr>d_pos = d_pos ctx + 4, d_length = of_nat (length (le_bytes 4 ?cnt @ ?el))\<rparr>"
  assume ok: "ctx_ok buf ctx" and "view buf ctx = sized_enc enc xs @ rest"
  then have v: "view buf ctx =
      le_bytes 4 (of_nat (4 + length (le_bytes 4 ?cnt @ ?el)) :: u32) @ (le_bytes 4 ?cnt @ ?el) @ rest"
    by (simp add: sized_enc_def)
  note nf = nested_reads [OF ok v] and inner = nested_reads(2,3) [OF ok v]
  have 4: "4 + length (le_bytes 4 ?cnt @ ?el) < 2 ^ 32" using len by simp
  note okI = inner(1) [OF 4] and vI = inner(2) [OF 4]
  let ?i = "advance ?inner 4"
  have u: "Serialization_deserializeUInt buf ?inner = Done (?cnt, ?i)"
    using readsD [OF UInt.dec_reads okI vI] by simp
  have i: "ctx_ok buf ?i" "view buf ?i = ?el @ []"
    using advance_append [OF okI vI] by simp_all
  have sum: "length ?el = length xs * unat n"
    by (induction xs) (simp_all add: elem)
  then have "unat (?cnt * n) = length ?el"
    using len n by (simp add: unat_word_ariths unat_of_nat_small)
  then have dl: "d_length ?i = ucast (?cnt * n)"
    by (intro word_unat_eq_iff [THEN iffD2])
      (use length_view [OF i(1)] i(2) in \<open>simp add: unat_ucast_up\<close>)
  have same: "\<lparr>d_pos = d_pos ?i, d_length = ucast (ucast (d_length ?i) :: u32)\<rparr> = ?i"
    using dl by simp
  have "deserializeEach dec (length xs) buf ?i = Done (xs, advance ?i (of_nat (length ?el)))"
    using reads_each [OF dec] i unfolding reads_def by blast
  then have "deserializeRawList dec buf
      \<lparr>r_data = d_pos ?i, r_length = ucast (d_length ?i), r_elemCount = ?cnt\<rparr> = Done xs"
    using n same by (simp add: deserializeRawList_def unat_of_nat_small)
  then show "viaRawList (deserializeSizedListPreprocess n) (deserializeRawList dec) buf ctx =
      Done (xs, advance ctx (of_nat (length (sized_enc enc xs))))"
    using nf(1) [OF 4] u dl
    by (simp add: viaRawList_def deserializeSizedListPreprocess_def length_sized_enc)
qed

interpretation UInt16List: wire_type Serialization_serializeUInt16List "sized_enc (le_bytes 2)"
    "\<lambda>xs. 8 + 2 * length xs < 2 ^ 32"
    "viaRawList Serialization_deserializeUInt16ListPreprocess Serialization_deserializeUInt16List"
proof (unfold_locales, goal_cases)
  case (1 xs)
  then show ?case
    unfolding Serialization_serializeUInt16List_def
    by (intro emits_serializeSizedList UShort.ser_emits) auto
next
  case (2 xs)
  then show ?case
    unfolding Serialization_deserializeUInt16ListPreprocess_def
      Serialization_deserializeUInt16List_def
    by (intro reads_sized UShort.dec_reads) (auto simp: length_concat comp_def sum_list_triv)
qed (use decoder_sized [OF UShort.decoder_axioms, of 2] in
  \<open>auto simp: Serialization_deserializeUInt16ListPreprocess_def
     Serialization_deserializeUInt16List_def decoder_def\<close>)

interpretation Int64CpyList: wire_type Serialization_serializeInt64CpyList "sized_enc (le_bytes 8)"
    "\<lambda>xs. 8 + 8 * length xs < 2 ^ 32"
    "viaRawList Serialization_deserializeInt64CpyListPreprocess Serialization_deserializeInt64CpyList"
proof (unfold_locales, goal_cases)
  case (1 xs)
  then show ?case
    unfolding Serialization_serializeInt64CpyList_def Serialization_serializeInt64_def
    by (intro emits_serializeSizedList UInt64.ser_emits) auto
next
  case (2 xs)
  then show ?case
    unfolding Serialization_deserializeInt64CpyListPreprocess_def
      Serialization_deserializeInt64CpyList_def Serialization_deserializeInt64_def
    by (intro reads_sized UInt64.dec_reads) (auto simp: length_concat comp_def sum_list_triv)
qed (use decoder_sized [OF UInt64.decoder_axioms, of 8] in
  \<open>auto simp: Serialization_deserializeInt64CpyListPreprocess_def
     Serialization_deserializeInt64CpyList_def Serialization_deserializeInt64_def decoder_def\<close>)

section \<open>Strings\<close>

definition str_enc :: "byte list \<Rightarrow> byte list" where
  "str_enc s = le_bytes 4 (of_nat (length s) :: u32) @ s @ [0]"

text \<open>The characters a deserialized string points to.\<close>

definition strOf :: "byte list \<Rightarrow> u32 \<times> u64 \<Rightarrow> byte list" where
  "strOf buf s = take (unat (fst s)) (drop (unat (snd s)) buf)"

definition readStr :: "byte list \<Rightarrow> DeserializeCtx \<Rightarrow> (byte list \<times> DeserializeCtx) dres" where
  "readStr buf ctx =
     dbind (Serialization_deserializeStr buf ctx) (\<lambda>(s, ctx). Done (strOf buf s, ctx))"

lemma emits_str:
  assumes "length s < 2 ^ 32"
  shows "emits (\<lambda>ctx. Serialization_serializeStr ctx (of_nat (length s)) s) (str_enc s)"
  unfolding Serialization_serializeStr_def str_enc_def Serialization_serializeChar_def
  using assms by (intro emits_bind UInt.ser_emits emits_block emits_emit) (simp_all add: unat_of_nat_small)

text \<open>What both string readers find when the view starts with a length field and that many characters.\<close>

lemma str_view:
  assumes ok: "ctx_ok buf ctx" and v: "view buf ctx = le_bytes 4 (of_nat (length s) :: u32) @ s @ 0 # rest"
    and len: "length s + 1 < 2 ^ 32"
  shows "Serialization_deserializeUInt buf ctx = Done (of_nat (length s), advance ctx 4)"
    and "ucast ((of_nat (length s) :: u32) + 1) = (of_nat (length s + 1) :: u64)"
    and "of_nat (length s + 1) \<le> d_length (advance ctx 4)"
    and "read_byte buf (d_pos (advance ctx 4) + ucast (of_nat (length s) :: u32)) = Some 0"
    and "strOf buf (of_nat (length s), d_pos (advance ctx 4)) = s"
proof -
  show "Serialization_deserializeUInt buf ctx = Done (of_nat (length s), advance ctx 4)"
    using readsD [OF UInt.dec_reads ok v] by simp
  show "ucast ((of_nat (length s) :: u32) + 1) = (of_nat (length s + 1) :: u64)"
  proof -
    have "(of_nat (length s) :: u32) + 1 = of_nat (length s + 1)" by simp
    with len show ?thesis by (simp only:) (rule ucast_of_nat_up, simp_all)
  qed
  let ?c = "advance ctx 4"
  have c: "ctx_ok buf ?c" "view buf ?c = s @ 0 # rest"
    using advance_append [OF ok v] by simp_all
  then have le: "length s + 1 \<le> unat (d_length ?c)"
    using length_view [OF c(1)] by simp
  then show "of_nat (length s + 1) \<le> d_length ?c"
    using unat_of_nat_small [of "length s + 1", where 'a = 64] len
    unfolding word_le_nat_alt by simp
  have d: "take (unat (d_length ?c)) (drop (unat (d_pos ?c)) buf) = s @ 0 # rest"
    using c(2) by (simp add: view_def)
  have us: "unat (ucast (of_nat (length s) :: u32) :: u64) = length s"
    using len by (simp add: unat_ucast_up unat_of_nat_small)
  have lt: "unat (d_pos ?c) + length s < length buf" "length buf < 2 ^ 64"
    using c(1) le by (auto simp: ctx_ok_def)
  have p: "unat (d_pos ?c + ucast (of_nat (length s) :: u32)) = unat (d_pos ?c) + length s"
    using lt us by (subst unat_plus_le) simp_all
  have "buf ! (unat (d_pos ?c) + length s) = take (unat (d_length ?c)) (drop (unat (d_pos ?c)) buf) ! length s"
    using le lt by simp
  then show "read_byte buf (d_pos ?c + ucast (of_nat (length s) :: u32)) = Some 0"
    using lt(1) by (simp add: read_byte_def p d)
  have "take (length s) (drop (unat (d_pos ?c)) buf) = take (length s) (s @ 0 # rest)"
    using le by (simp add: d [symmetric] min.absorb1)
  then show "strOf buf (of_nat (length s), d_pos ?c) = s"
    using len by (simp add: strOf_def unat_of_nat_small)
qed

lemma reads_str: "length s + 1 < 2 ^ 32 \<Longrightarrow> reads readStr (str_enc s) s"
  unfolding reads_def
proof (intro allI impI)
  fix buf rest and ctx :: DeserializeCtx
  assume len: "length s + 1 < 2 ^ 32" and ok: "ctx_ok buf ctx" and "view buf ctx = str_enc s @ rest"
  then have v: "view buf ctx = le_bytes 4 (of_nat (length s) :: u32) @ s @ 0 # rest"
    by (simp add: str_enc_def)
  show "readStr buf ctx = Done (s, advance ctx (of_nat (length (str_enc s))))"
    using str_view [OF ok v len]
    by (simp add: readStr_def Serialization_deserializeStr_def str_enc_def advance_advance not_less)
qed

interpretation Str: codec "\<lambda>ctx s. Serialization_serializeStr ctx (of_nat (length s)) s" str_enc
    "\<lambda>s. length s + 1 < 2 ^ 32" readStr
  by unfold_locales (use emits_str reads_str in auto)

text \<open>
  The terminator is looked up only after the length check, so a string reader leaves the buffer
  only when the length field is \<open>0xFFFFFFFF\<close>: there \<^verbatim>\<open>*outStrLen + 1\<close> wraps to zero.
\<close>

lemma terminator_in_bounds:
  assumes ok: "ctx_ok buf c" and le: "\<not> d_length c < ucast (strLen + 1 :: u32)" and ne: "strLen \<noteq> - 1"
  shows "read_byte buf (d_pos c + ucast strLen) \<noteq> None"
proof -
  have "unat (strLen + 1) = unat strLen + 1"
    using ne by (rule unat_plus_one)
  then have le': "unat strLen + 1 \<le> unat (d_length c)"
    using le by (simp add: word_less_nat_alt unat_ucast_up not_less)
  then have "unat (d_pos c) + unat strLen < length buf" "length buf < 2 ^ 64"
    using ok by (auto simp: ctx_ok_def)
  then show ?thesis
    by (simp add: read_byte_def unat_plus_le unat_ucast_up)
qed

lemma ucast_minus_one: "(ucast (- 1 :: u32) :: u64) = 0xFFFFFFFF"
proof -
  have "(- 1 :: u32) = 0xFFFFFFFF" by simp
  then show ?thesis by (simp only:) simp
qed

lemma deserializeStr_overrun_iff:
  assumes ok: "ctx_ok buf ctx"
  shows "Serialization_deserializeStr buf ctx = Overrun \<longleftrightarrow>
    (\<exists>c. Serialization_deserializeUInt buf ctx = Done (- 1, c) \<and>
         length buf \<le> unat (d_pos c + 0xFFFFFFFF))" (is "?l \<longleftrightarrow> ?r")
proof
  assume ?l
  then obtain n c where u: "Serialization_deserializeUInt buf ctx = Done (n, c)"
    and le: "\<not> d_length c < ucast (n + 1)" and rb: "read_byte buf (d_pos c + ucast n) = None"
    using UInt.in_bounds [OF ok]
    by (auto simp: Serialization_deserializeStr_def dbind_eq_Overrun
        split: if_splits option.splits)
  then have "n = - 1"
    using terminator_in_bounds UInt.dec_ok [OF ok u] by blast
  with u rb show ?r
    by (auto simp: read_byte_def ucast_minus_one split: if_splits)
next
  assume ?r
  then show ?l
    by (auto simp: Serialization_deserializeStr_def read_byte_def ucast_minus_one)
qed

section \<open>Strings padded to four bytes\<close>

definition align4_pad :: "nat \<Rightarrow> nat" where
  "align4_pad n = (if n mod 4 = 0 then 0 else 4 - n mod 4)"

definition strAlign4_enc :: "byte list \<Rightarrow> byte list" where
  "strAlign4_enc s = str_enc s @ replicate (align4_pad (length s + 1)) 0"

definition readStrAlign4 :: "byte list \<Rightarrow> DeserializeCtx \<Rightarrow> (byte list \<times> DeserializeCtx) dres" where
  "readStrAlign4 buf ctx =
     dbind (Serialization_deserializeStrAlign4 buf ctx) (\<lambda>(s, ctx). Done (strOf buf s, ctx))"

lemma strAlign4_aligned: "4 dvd length (strAlign4_enc s)"
  unfolding strAlign4_enc_def align4_pad_def str_enc_def by (simp, presburger)

lemma align4_word:
  assumes "n < 2 ^ 32"
  shows "(of_nat n :: u32) mod 4 = 0 \<longleftrightarrow> n mod 4 = 0"
    and "n mod 4 \<noteq> 0 \<Longrightarrow> unat (4 - (of_nat n :: u32) mod 4) = align4_pad n"
proof -
  have m: "unat ((of_nat n :: u32) mod 4) = n mod 4"
    using assms by (simp add: unat_mod unat_of_nat_small)
  then show "(of_nat n :: u32) mod 4 = 0 \<longleftrightarrow> n mod 4 = 0"
    by (metis unat_eq_0)
  have "(of_nat n :: u32) mod 4 \<le> 4"
    using m by (simp add: word_le_nat_alt)
  then show "n mod 4 \<noteq> 0 \<Longrightarrow> unat (4 - (of_nat n :: u32) mod 4) = align4_pad n"
    using m by (simp add: unat_sub align4_pad_def)
qed

lemma emits_strAlign4:
  assumes len: "length s + 1 < 2 ^ 32"
  shows "emits (\<lambda>ctx. Serialization_serializeStrAlign4 ctx (of_nat (length s)) s) (strAlign4_enc s)"
proof -
  let ?n = "length s + 1"
  have e: "(of_nat (length s) :: u32) + 1 = of_nat ?n" by simp
  have "emits (\<lambda>ctx. if (of_nat ?n :: u32) mod 4 \<noteq> 0
      then Serialization_serializeBlock ctx (replicate 4 0) (4 - of_nat ?n mod 4) else Some ctx)
    (replicate (align4_pad ?n) 0)"
  proof (cases "?n mod 4 = 0")
    case True
    then show ?thesis using align4_word(1) [OF len] emits_return by (simp add: align4_pad_def)
  next
    case False
    have "align4_pad ?n \<le> 4" by (simp add: align4_pad_def)
    then have "emits (\<lambda>ctx. Serialization_serializeBlock ctx (replicate 4 0) (4 - of_nat ?n mod 4))
        (replicate (align4_pad ?n) 0)"
      using emits_block_take [of "4 - of_nat ?n mod 4" "replicate 4 0"]
        align4_word(2) [OF len False] by (simp add: min.absorb1)
    then show ?thesis using align4_word(1) [OF len] False by simp
  qed
  then have "emits (\<lambda>ctx. do {
      ctx \<leftarrow> Serialization_serializeUInt ctx (of_nat (length s));
      ctx \<leftarrow> Serialization_serializeBlock ctx s (of_nat (length s));
      ctx \<leftarrow> emit ctx [0];
      if (of_nat ?n :: u32) mod 4 \<noteq> 0
      then Serialization_serializeBlock ctx (replicate 4 0) (4 - of_nat ?n mod 4) else Some ctx })
    (le_bytes 4 (of_nat (length s) :: u32) @ s @ [0] @ replicate (align4_pad ?n) 0)"
    using len
    by (intro emits_bind UInt.ser_emits emits_block emits_emit) (simp_all add: unat_of_nat_small)
  then show ?thesis
    unfolding Serialization_serializeStrAlign4_def Serialization_serializeChar_def strAlign4_enc_def
      str_enc_def e by simp
qed

text \<open>
  The reader tests \<^verbatim>\<open>ctx->length < padding\<close> although it goes on to skip \<^verbatim>\<open>4 - padding\<close> bytes, so a
  string with two characters modulo four is read back only if two more bytes follow it.
\<close>

definition align4_slack :: "byte list \<Rightarrow> nat" where
  "align4_slack s = (if length s mod 4 = 2 then 2 else 0)"

lemma align4_slack_enough:
  assumes "align4_slack s \<le> r"
  shows "(length s + 1) mod 4 \<le> align4_pad (length s + 1) + r"
proof -
  have "length s mod 4 < 4" by simp
  then show ?thesis
    using assms by (auto simp: align4_slack_def align4_pad_def mod_Suc split: if_splits)
qed

lemma strAlign4_after:
  assumes ok: "ctx_ok buf ctx" and v: "view buf ctx = str_enc s @ rest" and len: "length s + 1 < 2 ^ 32"
  defines "c \<equiv> advance ctx (of_nat (length s + 5))"
  shows "ctx_ok buf c" and "unat (d_length c) = length rest"
    and "unat ((d_pos c - d_pos ctx) mod 4) = (length s + 1) mod 4"
    and "Serialization_deserializeStrAlign4 buf ctx =
      (let padding = (d_pos c - d_pos ctx) mod 4; s = (of_nat (length s), d_pos ctx + 4)
       in if padding \<noteq> 0 then if d_length c < padding then Refused else Done (s, advance c (4 - padding))
          else Done (s, c))"
proof -
  have l: "length (str_enc s) = length s + 5" by (simp add: str_enc_def)
  show okc: "ctx_ok buf c"
    using advance_append(1) [OF ok v] by (simp add: c_def l)
  have "view buf c = rest"
    using advance_append(2) [OF ok v] by (simp add: c_def l)
  then show "unat (d_length c) = length rest"
    using length_view [OF okc] by simp
  have "unat (of_nat (length s + 5) :: u64) = length s + 5"
    by (rule unat_of_nat_small) (use len in simp)
  then have "unat ((of_nat (length s + 5) :: u64) mod 4) = (length s + 5) mod 4"
    by (simp only: unat_mod) simp
  also have "(length s + 5) mod 4 = (length s + 1) mod 4" by presburger
  finally show "unat ((d_pos c - d_pos ctx) mod 4) = (length s + 1) mod 4"
    by (simp add: c_def advance_def)
  have v': "view buf ctx = le_bytes 4 (of_nat (length s) :: u32) @ s @ 0 # rest"
    using v by (simp add: str_enc_def)
  note sv = str_view [OF ok v' len]
  have c: "advance (advance ctx 4) (of_nat (length s + 1)) = c"
    by (simp add: c_def advance_advance algebra_simps)
  have p: "d_pos (advance ctx 4) = d_pos ctx + 4" by (simp add: advance_def)
  show "Serialization_deserializeStrAlign4 buf ctx =
      (let padding = (d_pos c - d_pos ctx) mod 4; s = (of_nat (length s), d_pos ctx + 4)
       in if padding \<noteq> 0 then if d_length c < padding then Refused else Done (s, advance c (4 - padding))
          else Done (s, c))"
    using sv(1,3,4)
    by (simp only: Serialization_deserializeStrAlign4_def Let_def dbind.simps prod.case sv(2) c p
        not_less [symmetric] if_False option.case simp_thms)
qed

lemma reads_strAlign4:
  assumes len: "length s + 1 < 2 ^ 32"
  shows "reads_before (align4_slack s) readStrAlign4 (strAlign4_enc s) s"
  unfolding reads_before_def
proof (intro allI impI)
  fix buf rest and ctx :: DeserializeCtx
  let ?pad = "align4_pad (length s + 1)"
  let ?c = "advance ctx (of_nat (length s + 5))" and ?p = "(d_pos (advance ctx (of_nat (length s + 5))) - d_pos ctx) mod 4"
  assume ok: "ctx_ok buf ctx" and v: "view buf ctx = strAlign4_enc s @ rest"
    and slack: "align4_slack s \<le> length rest"
  then have v': "view buf ctx = str_enc s @ replicate ?pad 0 @ rest"
    by (simp add: strAlign4_enc_def)
  note a = strAlign4_after [OF ok v' len]
  have str: "strOf buf (of_nat (length s), d_pos ctx + 4) = s"
    using str_view(5) [OF ok _ len] v' by (simp add: str_enc_def advance_def)
  have adv: "advance ctx (of_nat (length (strAlign4_enc s))) = advance ?c (of_nat ?pad)"
    by (simp add: strAlign4_enc_def str_enc_def advance_advance algebra_simps)
  show "readStrAlign4 buf ctx = Done (s, advance ctx (of_nat (length (strAlign4_enc s))))"
  proof (cases "(length s + 1) mod 4 = 0")
    case True
    then have "?p = 0" using a(3) by (metis unat_eq_0)
    then show ?thesis
      using True str adv by (simp add: readStrAlign4_def a(4) align4_pad_def)
  next
    case False
    then have ne: "?p \<noteq> 0" using a(3) by (metis unat_0)
    have un: "unat (4 - ?p) = ?pad"
      using a(3) False by (subst unat_sub) (simp_all add: word_le_nat_alt align4_pad_def)
    have "(length s + 1) mod 4 \<le> ?pad + length rest"
      using slack by (rule align4_slack_enough)
    then have "\<not> d_length ?c < ?p"
      using a(2,3) by (simp add: word_less_nat_alt)
    moreover have "4 - ?p = of_nat ?pad"
      using un by (metis word_unat_eq_iff unat_of_nat_small unat_bound)
    ultimately show ?thesis
      using ne str adv by (simp add: readStrAlign4_def a(4))
  qed
qed

section \<open>String lists stay inside their buffer\<close>

lemma strlen_le: "k < length bs \<Longrightarrow> bs ! k = 0 \<Longrightarrow> \<exists>n \<le> k. strlen_of bs = Some n"
proof (induction bs arbitrary: k)
  case (Cons b bs)
  show ?case
  proof (cases "b = 0")
    case False
    then obtain j where "k = Suc j" using Cons.prems by (cases k) auto
    with False show ?thesis using Cons.IH [of j] Cons.prems by auto
  qed auto
qed simp

lemma strlen_append: "0 \<notin> set s \<Longrightarrow> strlen_of (s @ 0 # r) = Some (length s)"
  by (induction s) auto

text \<open>The loop invariant: the remaining bytes are inside the buffer and end with a zero byte.\<close>

definition strs_ok :: "byte list \<Rightarrow> u64 \<Rightarrow> u32 \<Rightarrow> bool" where
  "strs_ok buf p l \<longleftrightarrow> length buf < 2 ^ 64 \<and> unat p + unat l \<le> length buf \<and>
     (l > 0 \<longrightarrow> buf ! (unat p + unat l - 1) = 0)"

lemma strs_ok_step:
  assumes ok: "strs_ok buf p l" and l: "l > 0"
  obtains n where "c_strlen buf p = Some n" and "Suc n \<le> unat l"
    and "unat (l - of_nat (n + 1)) = unat l - (n + 1)"
    and "unat (p + of_nat (n + 1)) = unat p + (n + 1)"
    and "strs_ok buf (p + of_nat (n + 1)) (l - of_nat (n + 1))"
proof -
  have l': "unat l > 0" using l by (simp add: word_less_nat_alt)
  let ?k = "unat l - 1"
  have b: "unat p + unat l \<le> length buf" "length buf < 2 ^ 64" "buf ! (unat p + unat l - 1) = 0"
    using ok l by (auto simp: strs_ok_def)
  then have "?k < length (drop (unat p) buf)" and "drop (unat p) buf ! ?k = 0"
    using l' by auto
  from strlen_le [OF this] obtain n where n: "n \<le> ?k" "c_strlen buf p = Some n"
    by (auto simp: c_strlen_def)
  then have sn: "n + 1 \<le> unat l" using l' by simp
  moreover have "unat l < 2 ^ 32" using unat_bound [of l] by simp
  ultimately have un: "unat (of_nat (n + 1) :: u32) = n + 1" "unat (of_nat (n + 1) :: u64) = n + 1"
    by (intro unat_of_nat_small, simp)+
  have ul: "unat (l - of_nat (n + 1)) = unat l - (n + 1)"
    using sn un(1) by (subst unat_sub) (simp_all only: word_le_nat_alt)
  have up: "unat (p + of_nat (n + 1)) = unat p + (n + 1)"
    using b sn un(2) by (subst unat_plus_le) simp_all
  have "strs_ok buf (p + of_nat (n + 1)) (l - of_nat (n + 1))"
    unfolding strs_ok_def ul up using b sn by (auto simp: word_less_nat_alt ul)
  with n ul up sn that show thesis by simp
qed

lemma strCpyLoop_safe: "strs_ok buf p l \<Longrightarrow> strCpyLoop n buf p l \<noteq> Overrun"
proof (induction n arbitrary: p l)
  case (Suc n)
  show ?case
  proof (cases "l > 0")
    case True
    obtain k where "c_strlen buf p = Some k"
      and "strs_ok buf (p + of_nat (k + 1)) (l - of_nat (k + 1))"
      using strs_ok_step [OF Suc.prems True] by metis
    then show ?thesis
      using Suc.IH True by (auto simp: dbind_eq_Overrun)
  qed simp
qed simp

lemma strCpy_preprocess:
  assumes ok: "ctx_ok buf ctx"
  shows "Serialization_deserializeStrCpyListPreprocess buf ctx \<noteq> Overrun"
    and "Serialization_deserializeStrCpyListPreprocess buf ctx = Done (raw, ctx') \<Longrightarrow>
      (r_elemCount raw \<noteq> 0 \<longrightarrow> strs_ok buf (r_data raw) (r_length raw)) \<and>
      (\<exists>n \<le> d_length ctx. ctx' = advance ctx n)"
proof -
  note nb = nested_in_bounds [OF ok]
  {
    fix inner c' n i
    assume nf: "Serialization_deserializeNestedField buf ctx = Done (inner, c')"
      and u: "Serialization_deserializeUInt buf inner = Done (n, i)"
    have okI: "ctx_ok buf inner" by (rule nested_inv(1) [OF ok nf])
    have i: "ctx_ok buf i" by (rule UInt.dec_ok [OF okI u])
    have i4: "i = advance inner 4" and i4': "4 \<le> unat (d_length inner)"
      using u okI length_view [OF okI]
      by (auto simp: Serialization_deserializeUInt_def deserializeRaw_view split: if_splits)
    have "d_length i < 2 ^ 32"
      using nested_inv(4) [OF ok nf] i4' by (simp add: i4 advance_def word_less_nat_alt unat_sub_if')
    then have len: "unat (ucast (d_length i) :: u32) = unat (d_length i)"
      by (simp add: word_less_nat_alt unsigned_ucast_eq take_bit_nat_eq_self_iff)
    have pos: "4 \<le> unat (d_pos i)"
      using okI i4' by (simp add: i4 advance_def ctx_ok_def unat_plus_le)
    have prev: "unat (d_pos i + (d_length i - 1)) = unat (d_pos i) + unat (d_length i) - 1"
    proof (cases "d_length i = 0")
      case True
      then show ?thesis using pos by (simp add: unat_sub_if')
    next
      case False
      then have "unat (d_length i - 1) = unat (d_length i) - 1" and "unat (d_length i) > 0"
        by (simp_all add: unat_minus_one unat_gt_0)
      then show ?thesis
        using i by (subst unat_plus_le) (auto simp: ctx_ok_def)
    qed
    have "read_byte buf (d_pos i + (d_length i - 1)) \<noteq> None"
      using i okI pos unfolding read_byte_def prev by (auto simp: ctx_ok_def)
    moreover have "strs_ok buf (d_pos i) (ucast (d_length i))"
      if "read_byte buf (d_pos i + (d_length i - 1)) = Some 0"
      using that i len unfolding read_byte_def prev
      by (auto simp: ctx_ok_def strs_ok_def split: if_splits)
    moreover have "\<exists>n \<le> d_length ctx. c' = advance ctx n"
      by (rule nested_inv(2) [OF ok nf])
    moreover note UInt.in_bounds [OF okI]
    ultimately have "read_byte buf (d_pos i + (d_length i - 1)) \<noteq> None"
      and "read_byte buf (d_pos i + (d_length i - 1)) = Some 0 \<Longrightarrow>
        strs_ok buf (d_pos i) (ucast (d_length i))"
      and "\<exists>n \<le> d_length ctx. c' = advance ctx n" by blast+
  }
  note * = this
  have "Serialization_deserializeUInt buf inner \<noteq> Overrun"
    if "Serialization_deserializeNestedField buf ctx = Done (inner, c')" for inner c'
    using nested_inv(1) [OF ok that] by (rule UInt.in_bounds)
  then show "Serialization_deserializeStrCpyListPreprocess buf ctx \<noteq> Overrun"
    using nb *(1) by (fastforce simp: Serialization_deserializeStrCpyListPreprocess_def
        dbind_eq_Overrun Let_def split: if_splits option.splits)
  show "(r_elemCount raw \<noteq> 0 \<longrightarrow> strs_ok buf (r_data raw) (r_length raw)) \<and>
      (\<exists>n \<le> d_length ctx. ctx' = advance ctx n)"
    if "Serialization_deserializeStrCpyListPreprocess buf ctx = Done (raw, ctx')"
    using that *(2,3) by (auto simp: Serialization_deserializeStrCpyListPreprocess_def
        dbind_eq_Done Let_def split: if_splits option.splits)
qed

lemma decoder_strCpyList:
  "decoder (viaRawList Serialization_deserializeStrCpyListPreprocess Serialization_deserializeStrCpyList)"
proof
  fix buf ctx x ctx'
  assume ok: "ctx_ok buf ctx"
  have "Serialization_deserializeStrCpyList buf raw \<noteq> Overrun"
    if "Serialization_deserializeStrCpyListPreprocess buf ctx = Done (raw, c)" for raw c
    using strCpyLoop_safe strCpy_preprocess(2) [OF ok that]
    by (cases "r_elemCount raw = 0")
      (auto simp: Serialization_deserializeStrCpyList_def dbind_eq_Overrun split: if_splits)
  then show "viaRawList Serialization_deserializeStrCpyListPreprocess
      Serialization_deserializeStrCpyList buf ctx \<noteq> Overrun"
    using strCpy_preprocess(1) [OF ok] by (auto simp: viaRawList_def dbind_eq_Overrun)
  assume "viaRawList Serialization_deserializeStrCpyListPreprocess
      Serialization_deserializeStrCpyList buf ctx = Done (x, ctx')"
  then show "\<exists>n \<le> d_length ctx. ctx' = advance ctx n"
    using strCpy_preprocess(2) [OF ok] by (auto simp: viaRawList_def dbind_eq_Done)
qed

definition cstr_enc :: "byte list \<Rightarrow> byte list" where
  "cstr_enc s = s @ [0]"

lemma emits_cstr: "length s + 1 < 2 ^ 32 \<Longrightarrow> emits (\<lambda>ctx. serializeCString ctx s) (cstr_enc s)"
proof -
  assume len: "length s + 1 < 2 ^ 32"
  have e: "(of_nat (length s) :: u32) + 1 = of_nat (length s + 1)" by simp
  show ?thesis
    unfolding serializeCString_def cstr_enc_def e
    by (rule emits_block) (simp only: unat_of_nat32 [OF len], simp)
qed

lemma strCpyLoop_reads:
  assumes "\<forall>s \<in> set xs. 0 \<notin> set s"
    and "take (unat l) (drop (unat p) buf) = concat (map cstr_enc xs)"
    and "unat p + unat l \<le> length buf" and "length buf < 2 ^ 64"
  shows "strCpyLoop (length xs) buf p l = Done (xs, length xs)"
  using assms
proof (induction xs arbitrary: p l)
  case (Cons s xs)
  let ?n = "length s"
  have v: "take (unat l) (drop (unat p) buf) = s @ 0 # concat (map cstr_enc xs)"
    using Cons.prems(2) by (simp add: cstr_enc_def [of s])
  have ul: "unat l = ?n + 1 + length (concat (map cstr_enc xs))"
    using arg_cong [OF v, of length] Cons.prems(3) by simp
  have d: "drop (unat p) buf = s @ 0 # (concat (map cstr_enc xs) @ drop (unat l) (drop (unat p) buf))"
    using append_take_drop_id [of "unat l" "drop (unat p) buf"] v by simp
  have sl: "c_strlen buf p = Some ?n"
    unfolding c_strlen_def by (subst d) (rule strlen_append, use Cons.prems in simp)
  have tk: "take ?n (drop (unat p) buf) = s" by (subst d) simp
  have "unat l < 2 ^ 32" using unat_bound [of l] by simp
  with ul have un: "unat (of_nat (?n + 1) :: u32) = ?n + 1" "unat (of_nat (?n + 1) :: u64) = ?n + 1"
    by (intro unat_of_nat_small, simp)+
  have ul': "unat (l - of_nat (?n + 1)) = length (concat (map cstr_enc xs))"
    using ul un(1) by (subst unat_sub) (simp_all only: word_le_nat_alt)
  have up': "unat (p + of_nat (?n + 1)) = unat p + (?n + 1)"
    using Cons.prems(3,4) ul un(2) by (subst unat_plus_le) simp_all
  have "take (unat (l - of_nat (?n + 1))) (drop (unat (p + of_nat (?n + 1))) buf) =
      concat (map cstr_enc xs)"
  proof -
    have "drop (unat p + (?n + 1)) buf = drop (?n + 1) (drop (unat p) buf)"
      by (simp add: add.commute)
    also have "\<dots> = concat (map cstr_enc xs) @ drop (unat l) (drop (unat p) buf)"
      by (subst d) simp
    finally show ?thesis by (simp only: ul' up') simp
  qed
  then have "strCpyLoop (length xs) buf (p + of_nat (?n + 1)) (l - of_nat (?n + 1)) =
      Done (xs, length xs)"
    using Cons.prems ul by (intro Cons.IH) (auto simp only: up' ul', simp_all)
  moreover have "l > 0" using ul by (simp add: word_less_nat_alt)
  ultimately show ?case using sl tk by simp
qed simp

lemma read_last:
  assumes ok: "ctx_ok buf c" and v: "view buf c \<noteq> []"
  shows "read_byte buf (d_pos c + (d_length c - 1)) = Some (last (view buf c))"
proof -
  let ?k = "length (view buf c) - 1"
  have pos: "unat (d_length c) > 0" using v length_view [OF ok] by (metis length_greater_0_conv)
  then have "d_length c \<noteq> 0" by (auto simp: unat_gt_0)
  then have k: "unat (d_length c - 1) = ?k"
    using length_view [OF ok] by (simp add: unat_minus_one)
  have "unat (d_pos c) + ?k < length buf" and "length buf < 2 ^ 64"
    using ok pos length_view [OF ok] by (auto simp: ctx_ok_def)
  moreover from this have "unat (d_pos c + (d_length c - 1)) = unat (d_pos c) + ?k"
    using k by (subst unat_plus_le) simp_all
  ultimately show ?thesis
    using view_nth [OF ok, of ?k] v by (simp add: read_byte_def last_conv_nth)
qed

lemma reads_strCpyList:
  assumes nz: "\<forall>s \<in> set xs. 0 \<notin> set s"
    and len: "8 + length (concat (map cstr_enc xs)) < 2 ^ 32" and n: "length xs < 2 ^ 32"
  shows "reads (viaRawList Serialization_deserializeStrCpyListPreprocess
    Serialization_deserializeStrCpyList) (sized_enc cstr_enc xs) xs"
  unfolding reads_def
proof (intro allI impI)
  fix buf rest and ctx :: DeserializeCtx
  let ?el = "concat (map cstr_enc xs)" and ?cnt = "of_nat (length xs) :: u32"
  let ?inner = "\<lparr>d_pos = d_pos ctx + 4, d_length = of_nat (length (le_bytes 4 ?cnt @ ?el))\<rparr>"
  assume ok: "ctx_ok buf ctx" and "view buf ctx = sized_enc cstr_enc xs @ rest"
  then have v: "view buf ctx =
      le_bytes 4 (of_nat (4 + length (le_bytes 4 ?cnt @ ?el)) :: u32) @ (le_bytes 4 ?cnt @ ?el) @ rest"
    by (simp add: sized_enc_def)
  have 4: "4 + length (le_bytes 4 ?cnt @ ?el) < 2 ^ 32" using len by simp
  note nf = nested_reads [OF ok v 4]
  let ?i = "advance ?inner 4"
  have u: "Serialization_deserializeUInt buf ?inner = Done (?cnt, ?i)"
    using readsD [OF UInt.dec_reads nf(2,3)] by simp
  have i: "ctx_ok buf ?i" "view buf ?i = ?el"
    using advance_append [OF nf(2,3)] by simp_all
  have dl: "unat (d_length ?i) = length ?el"
    using length_view [OF i(1)] i(2) by simp
  then have ul: "unat (ucast (d_length ?i) :: u32) = length ?el"
    using len by (simp add: unsigned_ucast_eq take_bit_nat_eq_self_iff)
  have "strCpyLoop (length xs) buf (d_pos ?i) (ucast (d_length ?i)) = Done (xs, length xs)"
    using nz i dl ul by (intro strCpyLoop_reads) (simp_all add: ctx_ok_def view_def)
  then have des: "Serialization_deserializeStrCpyList buf
      \<lparr>r_data = d_pos ?i, r_length = ucast (d_length ?i), r_elemCount = ?cnt\<rparr> = Done xs"
    using n by (simp add: Serialization_deserializeStrCpyList_def unat_of_nat_small)
  have last: "read_byte buf (d_pos ?i + (d_length ?i - 1)) = Some 0" if "xs \<noteq> []"
  proof -
    have "?el \<noteq> []" "last ?el = 0"
      using that by (induction xs rule: rev_induct) (simp_all add: cstr_enc_def)
    then show ?thesis using read_last [OF i(1)] i(2) by simp
  qed
  have "?cnt \<noteq> 0 \<longleftrightarrow> xs \<noteq> []"
    using unat_of_nat32 [OF n] by (metis length_0_conv unat_eq_0)
  moreover have "sized_enc cstr_enc xs = le_bytes 4 (of_nat (8 + length ?el) :: u32) @ le_bytes 4 ?cnt @ ?el"
    by (simp add: sized_enc_def)
  ultimately show "viaRawList Serialization_deserializeStrCpyListPreprocess
      Serialization_deserializeStrCpyList buf ctx =
      Done (xs, advance ctx (of_nat (length (sized_enc cstr_enc xs))))"
    using nf(1) u last des
    by (cases "xs = []") (simp_all add: viaRawList_def Let_def
        Serialization_deserializeStrCpyListPreprocess_def)
qed

interpretation StrCpyList: wire_type Serialization_serializeStrCpyList "sized_enc cstr_enc"
    "\<lambda>xs. (\<forall>s \<in> set xs. 0 \<notin> set s) \<and> 8 + length (concat (map cstr_enc xs)) < 2 ^ 32"
    "viaRawList Serialization_deserializeStrCpyListPreprocess Serialization_deserializeStrCpyList"
proof (intro wire_type.intro codec.intro codec_axioms.intro serializer.intro decoder_strCpyList)
  fix xs
  assume wf: "(\<forall>s \<in> set xs. 0 \<notin> set s) \<and> 8 + length (concat (map cstr_enc xs)) < 2 ^ 32"
  have elem: "length s < length (concat (map cstr_enc xs))" if "s \<in> set xs" for s
    using that by (induction xs) (auto simp: cstr_enc_def)
  have "length xs \<le> length (concat (map cstr_enc xs))"
    by (induction xs) (simp_all add: cstr_enc_def)
  then show "reads (viaRawList Serialization_deserializeStrCpyListPreprocess
      Serialization_deserializeStrCpyList) (sized_enc cstr_enc xs) xs"
    using wf by (intro reads_strCpyList) simp_all
  have "emits (\<lambda>ctx. serializeCString ctx s) (cstr_enc s)" if "s \<in> set xs" for s
    using elem [OF that] wf by (intro emits_cstr) simp
  then show "emits (\<lambda>ctx. Serialization_serializeStrCpyList ctx xs) (sized_enc cstr_enc xs)"
    unfolding Serialization_serializeStrCpyList_def by (rule emits_sized)
qed

section \<open>Properties\<close>

text \<open>A list of 16 bit ids that is counted with a null buffer, stored into a buffer of exactly the
  counted size and read back by preprocessing and deserializing is the original list; storing fills
  the whole buffer, with the length field patched afterwards, and reading consumes all of it.\<close>

theorem uint16List_roundtrip:
  assumes "8 + 2 * length xs < 2 ^ 32"
    and "Serialization_serializeUInt16List \<lparr>s_data = None, s_length = 0\<rparr> xs = Some c"
    and "length d = unat (s_length c)"
  shows "\<exists>buf. Serialization_serializeUInt16List \<lparr>s_data = Some d, s_length = 0\<rparr> xs =
        Some \<lparr>s_data = Some buf, s_length = s_length c\<rparr> \<and> length buf = length d
    \<and> viaRawList Serialization_deserializeUInt16ListPreprocess Serialization_deserializeUInt16List
        buf \<lparr>d_pos = 0, d_length = of_nat (length d)\<rparr>
      = Done (xs, \<lparr>d_pos = of_nat (length d), d_length = 0\<rparr>)"
  using assms
  by (intro UInt16List.two_pass_roundtrip)
    (simp_all add: length_sized_enc length_concat comp_def sum_list_triv)

theorem uint16List_roundtrip_witness:
  "\<exists>buf. Serialization_serializeUInt16List \<lparr>s_data = Some (replicate 14 0), s_length = 0\<rparr> [1, 513, 65535] =
        Some \<lparr>s_data = Some buf, s_length = 14\<rparr> \<and> length buf = 14
    \<and> viaRawList Serialization_deserializeUInt16ListPreprocess Serialization_deserializeUInt16List
        buf \<lparr>d_pos = 0, d_length = 14\<rparr> = Done ([1, 513, 65535], \<lparr>d_pos = 14, d_length = 0\<rparr>)"
  using uint16List_roundtrip [where xs = "[1, 513, 65535]" and d = "replicate 14 0"
      and c = "\<lparr>s_data = None, s_length = 14\<rparr>"]
  by (simp add: UInt16List.count_pass length_sized_enc)

text \<open>C16: The reader of string lists never leaves the received buffer, whatever bytes it is given: both
  steps together return a list or refuse, and what they consume lies within the context's length.
  Reading does not rely on the element count or the lengths the peer sent.\<close>

theorem strCpyList_safe:
  assumes "ctx_ok buf ctx"
  shows "viaRawList Serialization_deserializeStrCpyListPreprocess Serialization_deserializeStrCpyList
      buf ctx \<noteq> Overrun
    \<and> (\<forall>xs ctx'. viaRawList Serialization_deserializeStrCpyListPreprocess
        Serialization_deserializeStrCpyList buf ctx = Done (xs, ctx') \<longrightarrow> ctx_ok buf ctx')"
  using decoder.in_bounds [OF decoder_strCpyList assms] decoder.dec_ok [OF decoder_strCpyList assms]
  by blast+

theorem strCpyList_safe_witness:
  "let buf = [11, 0, 0, 0, 2, 0, 0, 0, 65, 0, 0] in
   viaRawList Serialization_deserializeStrCpyListPreprocess Serialization_deserializeStrCpyList
      buf \<lparr>d_pos = 0, d_length = 11\<rparr> \<noteq> Overrun
   \<and> viaRawList Serialization_deserializeStrCpyListPreprocess Serialization_deserializeStrCpyList
      buf \<lparr>d_pos = 0, d_length = 11\<rparr> = Done ([[65], []], \<lparr>d_pos = 11, d_length = 0\<rparr>)
   \<and> ctx_ok buf \<lparr>d_pos = 11, d_length = 0\<rparr>"
proof -
  let ?buf = "[11, 0, 0, 0, 2, 0, 0, 0, 65, 0, 0] :: byte list"
  have ok: "ctx_ok ?buf \<lparr>d_pos = 0, d_length = 11\<rparr>" by (simp add: ctx_ok_def)
  have "viaRawList Serialization_deserializeStrCpyListPreprocess Serialization_deserializeStrCpyList
      ?buf \<lparr>d_pos = 0, d_length = 11\<rparr> = Done ([[65], []], \<lparr>d_pos = 11, d_length = 0\<rparr>)"
    by code_simp
  with strCpyList_safe [OF ok] show ?thesis by (simp add: Let_def)
qed

text \<open>C23: A list of zero-free strings survives counting, storing and reading back.\<close>

theorem strCpyList_roundtrip:
  assumes "\<forall>s \<in> set xs. 0 \<notin> set s" and "8 + length (concat (map cstr_enc xs)) < 2 ^ 32"
    and "Serialization_serializeStrCpyList \<lparr>s_data = None, s_length = 0\<rparr> xs = Some c"
    and "length d = unat (s_length c)"
  shows "\<exists>buf. Serialization_serializeStrCpyList \<lparr>s_data = Some d, s_length = 0\<rparr> xs =
        Some \<lparr>s_data = Some buf, s_length = s_length c\<rparr> \<and> length buf = length d
    \<and> viaRawList Serialization_deserializeStrCpyListPreprocess Serialization_deserializeStrCpyList
        buf \<lparr>d_pos = 0, d_length = of_nat (length d)\<rparr>
      = Done (xs, \<lparr>d_pos = of_nat (length d), d_length = 0\<rparr>)"
  using assms by (intro StrCpyList.two_pass_roundtrip) (simp_all add: length_sized_enc)

theorem strCpyList_roundtrip_witness:
  "\<exists>buf. Serialization_serializeStrCpyList \<lparr>s_data = Some (replicate 13 0), s_length = 0\<rparr> [[65, 66], [67]] =
        Some \<lparr>s_data = Some buf, s_length = 13\<rparr> \<and> length buf = 13
    \<and> viaRawList Serialization_deserializeStrCpyListPreprocess Serialization_deserializeStrCpyList
        buf \<lparr>d_pos = 0, d_length = 13\<rparr> = Done ([[65, 66], [67]], \<lparr>d_pos = 13, d_length = 0\<rparr>)"
  using strCpyList_roundtrip [where xs = "[[65, 66], [67]]" and d = "replicate 13 0"
      and c = "\<lparr>s_data = None, s_length = 13\<rparr>"]
  by (simp add: StrCpyList.count_pass length_sized_enc cstr_enc_def)

text \<open>C35: Reading a string leaves the buffer in exactly one case: the length field holds
  \<open>0xFFFFFFFF\<close>, whose successor wraps to zero and passes the length check, and the buffer ends before
  the byte that many positions further on, which is then inspected for the terminator.\<close>

theorem deserializeStr_bounds:
  assumes "ctx_ok buf ctx"
  shows "Serialization_deserializeStr buf ctx = Overrun \<longleftrightarrow>
    (\<exists>c. Serialization_deserializeUInt buf ctx = Done (0xFFFFFFFF, c) \<and>
         length buf \<le> unat (d_pos c + 0xFFFFFFFF))"
proof -
  have "(- 1 :: u32) = 0xFFFFFFFF" by simp
  with deserializeStr_overrun_iff [OF assms] show ?thesis by (simp only:)
qed

theorem deserializeStr_bounds_witness:
  "Serialization_deserializeStr (replicate 4 255) \<lparr>d_pos = 0, d_length = 4\<rparr> = Overrun"
proof -
  let ?buf = "replicate 4 255 :: byte list" and ?ctx = "\<lparr>d_pos = 0, d_length = 4\<rparr>"
  have "Serialization_deserializeUInt ?buf ?ctx = Done (0xFFFFFFFF, \<lparr>d_pos = 4, d_length = 0\<rparr>)"
    by code_simp
  moreover have "ctx_ok ?buf ?ctx" by (simp add: ctx_ok_def)
  ultimately show ?thesis using deserializeStr_bounds [of ?buf ?ctx] by simp
qed

text \<open>C36: An aligned string at the very end of a message is read back unless its length is two modulo
  four: then the reader refuses its own serializer's output, because it compares the remaining
  length with the misalignment (three) instead of the padding to skip (one).\<close>

theorem strAlign4_at_end:
  assumes "length s + 8 < 2 ^ 32"
  shows "readStrAlign4 (strAlign4_enc s) \<lparr>d_pos = 0, d_length = of_nat (length (strAlign4_enc s))\<rparr> =
    (if length s mod 4 = 2 then Refused
     else Done (s, \<lparr>d_pos = of_nat (length (strAlign4_enc s)), d_length = 0\<rparr>))"
proof -
  let ?ctx = "\<lparr>d_pos = 0, d_length = of_nat (length (strAlign4_enc s))\<rparr> :: DeserializeCtx"
  let ?c = "advance ?ctx (of_nat (length s + 5))"
  have l: "length (strAlign4_enc s) = length s + 5 + align4_pad (length s + 1)"
    by (simp add: strAlign4_enc_def str_enc_def)
  have "align4_pad (length s + 1) \<le> 4" by (simp add: align4_pad_def)
  then have lt: "length (strAlign4_enc s) < 2 ^ 64" using l assms by simp
  have ok: "ctx_ok (strAlign4_enc s) ?ctx"
    and v: "view (strAlign4_enc s) ?ctx = str_enc s @ replicate (align4_pad (length s + 1)) 0"
    and v': "view (strAlign4_enc s) ?ctx = strAlign4_enc s @ []"
    using whole_buffer [OF lt] by (simp_all only: strAlign4_enc_def append_Nil2)
  have len: "length s + 1 < 2 ^ 32" using assms by simp
  show ?thesis
  proof (cases "length s mod 4 = 2")
    case True
    then have m: "(length s + 1) mod 4 = 3" by (simp add: mod_Suc)
    note a = strAlign4_after [OF ok v len]
    have "unat (d_length ?c) = 1" using a(2) m by (simp add: align4_pad_def)
    moreover have "unat ((d_pos ?c - d_pos ?ctx) mod 4) = 3" using a(3) m by simp
    ultimately have "d_length ?c < (d_pos ?c - d_pos ?ctx) mod 4" and "(d_pos ?c - d_pos ?ctx) mod 4 \<noteq> 0"
      by (simp add: word_less_nat_alt, metis unat_0 zero_neq_numeral)
    then have "Serialization_deserializeStrAlign4 (strAlign4_enc s) ?ctx = Refused"
      using a(4) by (simp only: Let_def if_True simp_thms)
    then show ?thesis using True by (simp add: readStrAlign4_def)
  next
    case False
    then have "readStrAlign4 (strAlign4_enc s) ?ctx =
        Done (s, advance ?ctx (of_nat (length (strAlign4_enc s))))"
      using reads_strAlign4 [OF len] ok v' by (simp add: readsD align4_slack_def)
    then show ?thesis using False by (simp add: advance_def)
  qed
qed

theorem strAlign4_at_end_witness:
  "readStrAlign4 (strAlign4_enc [65, 66]) \<lparr>d_pos = 0, d_length = 8\<rparr> = Refused
   \<and> readStrAlign4 (strAlign4_enc [65]) \<lparr>d_pos = 0, d_length = 8\<rparr> = Done ([65], \<lparr>d_pos = 8, d_length = 0\<rparr>)"
  using strAlign4_at_end [of "[65, 66]"] strAlign4_at_end [of "[65]"]
  by (simp add: strAlign4_enc_def str_enc_def align4_pad_def)


end
