(* ===== verification/SerdesLists.thy ===== *)
theory SerdesLists
  imports SerialLists
begin

text \<open>
  Lists of records on the wire: the network interface lists of \<^verbatim>\<open>Serialization.c\<close> and the functions
  generated by \<^verbatim>\<open>SERDES_DEFINE_LIST_SERIALIZERS\<close> of \<^verbatim>\<open>Serialization.h\<close>.
\<close>

section \<open>Network interface lists\<close>

text \<open>
  \<^verbatim>\<open>struct NicAddress\<close>; the interface name is the array of \<^verbatim>\<open>IFNAMSIZ\<close> = 16 bytes, and the address
  and the enum are stored as their little-endian memory image.
\<close>

record NicAddress =
  na_ipAddr :: u32
  na_nicType :: u32
  na_name :: "byte list"

definition SERIALIZATION_NICLISTELEM_SIZE :: u32 where
  "SERIALIZATION_NICLISTELEM_SIZE = 24"

definition serializeNicAddress :: "SerializeCtx \<Rightarrow> NicAddress \<Rightarrow> SerializeCtx option" where
  "serializeNicAddress ctx nic = do {
     ctx \<leftarrow> Serialization_serializeBlock ctx (le_bytes 4 (na_ipAddr nic)) 4;
     ctx \<leftarrow> Serialization_serializeBlock ctx (na_name nic) 16;
     ctx \<leftarrow> Serialization_serializeBlock ctx (le_bytes 4 (na_nicType nic)) 1;
     Serialization_serializeBlock ctx [0, 0, 0] 3 }"

definition Serialization_serializeNicList ::
    "SerializeCtx \<Rightarrow> NicAddress list \<Rightarrow> SerializeCtx option" where
  "Serialization_serializeNicList ctx nicList = do {
     let nicListSize = (of_nat (length nicList) :: u32);
     ctx \<leftarrow> Serialization_serializeUInt ctx nicListSize;
     serializeEach serializeNicAddress (take (unat nicListSize) nicList) ctx }"

definition Serialization_deserializeNicListPreprocess ::
    "byte list \<Rightarrow> DeserializeCtx \<Rightarrow> (RawList \<times> DeserializeCtx) dres" where
  "Serialization_deserializeNicListPreprocess buf ctx =
     dbind (Serialization_deserializeUInt buf ctx) (\<lambda>(elemCount, ctx).
       let len = elemCount * SERIALIZATION_NICLISTELEM_SIZE in
       if d_length ctx < ucast len then Refused
       else Done (\<lparr>r_data = d_pos ctx, r_length = len, r_elemCount = elemCount\<rparr>,
                  advance ctx (ucast len)))"

text \<open>One iteration reads 24 bytes at the current position without consulting any length.\<close>

definition deserializeNicAddress :: "byte list \<Rightarrow> u64 \<Rightarrow> NicAddress option" where
  "deserializeNicAddress buf p = do {
     ip \<leftarrow> read_bytes buf p 4;
     name \<leftarrow> read_bytes buf (p + 4) 16;
     t \<leftarrow> read_byte buf (p + 20);
     Some \<lparr>na_ipAddr = le_word ip, na_nicType = scast t, na_name = name[15 := 0]\<rparr> }"

fun nicLoop :: "nat \<Rightarrow> byte list \<Rightarrow> u64 \<Rightarrow> NicAddress list dres" where
  "nicLoop 0 buf p = Done []"
| "nicLoop (Suc n) buf p =
     (case deserializeNicAddress buf p of
        None \<Rightarrow> Overrun
      | Some nic \<Rightarrow> dbind (nicLoop n buf (p + 24)) (\<lambda>nics. Done (nic # nics)))"

definition Serialization_deserializeNicList :: "byte list \<Rightarrow> RawList \<Rightarrow> NicAddress list dres" where
  "Serialization_deserializeNicList buf inList =
     nicLoop (unat (r_elemCount inList)) buf (r_data inList)"

section \<open>Lists generated by the SERDES macros\<close>

definition SERDES_listSerialize ::
    "bool \<Rightarrow> (SerializeCtx \<Rightarrow> 'a \<Rightarrow> SerializeCtx option) \<Rightarrow> SerializeCtx \<Rightarrow> 'a list \<Rightarrow>
     SerializeCtx option" where
  "SERDES_listSerialize hasLength ser ctxAtStart list = do {
     ctx \<leftarrow> (if hasLength then Serialization_serializeUInt ctxAtStart 0 else Some ctxAtStart);
     ctx \<leftarrow> Serialization_serializeUInt ctx 0;
     ctx \<leftarrow> serializeEach ser list ctx;
     let items = (of_nat (length list) :: u32);
     patch ctxAtStart ctx (\<lambda>c. do {
       c \<leftarrow> (if hasLength
             then Serialization_serializeUInt c (s_length ctx - s_length ctxAtStart)
             else Some c);
       Serialization_serializeUInt c items }) }"

text \<open>
  The deserializing loop allocates one element per item; \<open>alloc i\<close> tells whether the \<open>i\<close>-th
  \<^verbatim>\<open>kmalloc\<close> succeeds. A failed allocation or element frees what was read and refuses.
\<close>

fun serdesLoop ::
    "(nat \<Rightarrow> bool) \<Rightarrow> (byte list \<Rightarrow> DeserializeCtx \<Rightarrow> ('a \<times> DeserializeCtx) dres) \<Rightarrow> nat \<Rightarrow> nat \<Rightarrow>
     byte list \<Rightarrow> DeserializeCtx \<Rightarrow> ('a list \<times> DeserializeCtx) dres" where
  "serdesLoop alloc dec 0 i buf ctx = Done ([], ctx)"
| "serdesLoop alloc dec (Suc items) i buf ctx =
     (if \<not> alloc i then Refused
      else dbind (dec buf ctx) (\<lambda>(entry, ctx).
             dbind (serdesLoop alloc dec items (Suc i) buf ctx) (\<lambda>(entries, ctx).
               Done (entry # entries, ctx))))"

definition SERDES_listDeserialize ::
    "bool \<Rightarrow> (nat \<Rightarrow> bool) \<Rightarrow> (byte list \<Rightarrow> DeserializeCtx \<Rightarrow> ('a \<times> DeserializeCtx) dres) \<Rightarrow>
     'a list \<Rightarrow> byte list \<Rightarrow> DeserializeCtx \<Rightarrow> ('a list \<times> DeserializeCtx) dres" where
  "SERDES_listDeserialize hasLength alloc dec list buf ctx =
     (if hasLength then
        dbind (Serialization_deserializeNestedField buf ctx) (\<lambda>(innerCtx, ctx).
          dbind (Serialization_deserializeUInt buf innerCtx) (\<lambda>(items, innerCtx).
            dbind (serdesLoop alloc dec (unat items) 0 buf innerCtx) (\<lambda>(desItems, innerCtx).
              Done (list @ desItems, ctx))))
      else
        dbind (Serialization_deserializeUInt buf ctx) (\<lambda>(items, ctx).
          dbind (serdesLoop alloc dec (unat items) 0 buf ctx) (\<lambda>(desItems, ctx).
            Done (list @ desItems, ctx))))"

section \<open>Interface lists: bounds\<close>

lemma deserializeNicAddress_None:
  assumes "length buf < 2 ^ 32" and "unat p < 2 ^ 32"
  shows "deserializeNicAddress buf p = None \<longleftrightarrow> length buf < unat p + 21"
proof -
  have "unat (p + 4) = unat p + 4" "unat (p + 20) = unat p + 20"
    using assms(2) by (simp_all add: unat_plus_le)
  then show ?thesis
    by (auto simp: deserializeNicAddress_def read_bytes_def read_byte_def bind_eq_None_conv)
qed

lemma nicLoop_Overrun:
  assumes "length buf < 2 ^ 32" and "unat p < 2 ^ 32"
  shows "nicLoop n buf p = Overrun \<longleftrightarrow> n \<noteq> 0 \<and> length buf < unat p + 24 * (n - 1) + 21"
  using assms(2)
proof (induction n arbitrary: p)
  case (Suc n)
  show ?case
  proof (cases "deserializeNicAddress buf p")
    case None
    then show ?thesis
      using deserializeNicAddress_None [OF assms(1) Suc.prems] by simp
  next
    case (Some nic)
    then have b: "unat p + 21 \<le> length buf"
      using deserializeNicAddress_None [OF assms(1) Suc.prems] by simp
    have p: "unat (p + 24) = unat p + 24"
      using Suc.prems by (simp add: unat_plus_le)
    show ?thesis
    proof (cases "unat p + 24 < 2 ^ 32")
      case True
      then show ?thesis
        using Suc.IH [of "p + 24"] Some p b by (cases n) (auto simp: dbind_eq_Overrun)
    next
      case False
      have "deserializeNicAddress buf (p + 24) = None"
        using False assms(1) p by (auto simp: deserializeNicAddress_def read_bytes_def)
      then have "nicLoop n buf (p + 24) = Overrun \<longleftrightarrow> n \<noteq> 0" by (cases n) auto
      then show ?thesis
        using Some b False assms(1) by (cases n) (auto simp: dbind_eq_Overrun)
    qed
  qed
qed simp

lemma nicListPreprocess_inv:
  assumes ok: "ctx_ok buf ctx"
    and p: "Serialization_deserializeNicListPreprocess buf ctx = Done (raw, ctx')"
  shows "4 \<le> unat (r_data raw)" and "unat (r_data raw) + unat (r_length raw) \<le> length buf"
    and "r_length raw = r_elemCount raw * 24" and "\<exists>n \<le> d_length ctx. ctx' = advance ctx n"
proof -
  from p obtain n c where u: "Serialization_deserializeUInt buf ctx = Done (n, c)"
    and le: "ucast (n * 24) \<le> d_length c"
    and raw: "raw = \<lparr>r_data = d_pos c, r_length = n * 24, r_elemCount = n\<rparr>"
    and c': "ctx' = advance c (ucast (n * 24))"
    by (auto simp: Serialization_deserializeNicListPreprocess_def dbind_eq_Done Let_def not_less
        SERIALIZATION_NICLISTELEM_SIZE_def split: if_splits)
  have okc: "ctx_ok buf c" by (rule UInt.dec_ok [OF ok u])
  have "c = advance ctx 4" and "4 \<le> unat (d_length ctx)"
    using u ok length_view [OF ok]
    by (auto simp: Serialization_deserializeUInt_def deserializeRaw_view split: if_splits)
  then show "4 \<le> unat (r_data raw)"
    using ok by (simp add: raw advance_def ctx_ok_def unat_plus_le)
  show "unat (r_data raw) + unat (r_length raw) \<le> length buf"
    using okc le by (simp add: raw ctx_ok_def word_le_nat_alt unat_ucast_up)
  show "r_length raw = r_elemCount raw * 24" by (simp add: raw)
  show "\<exists>n \<le> d_length ctx. ctx' = advance ctx n"
    using UInt.consumes [OF ok u] advance_trans [OF ok] le c' by blast
qed

text \<open>
  Reading the interfaces leaves the buffer exactly when the 32 bit product of the element count and
  the element size has wrapped around.
\<close>

lemma deserializeNicList_Overrun:
  assumes ok: "ctx_ok buf ctx" and buf: "length buf < 2 ^ 32"
    and p: "Serialization_deserializeNicListPreprocess buf ctx = Done (raw, ctx')"
  shows "Serialization_deserializeNicList buf raw = Overrun \<longleftrightarrow>
    2 ^ 32 \<le> unat (r_elemCount raw) * 24"
proof -
  let ?n = "unat (r_elemCount raw)"
  note inv = nicListPreprocess_inv [OF ok p]
  have q: "unat (r_data raw) < 2 ^ 32" using inv(2) buf by simp
  have len: "unat (r_length raw) = ?n * 24 mod 2 ^ 32"
    by (simp add: inv(3) unat_word_ariths)
  note eq = nicLoop_Overrun [OF buf q, of ?n, folded Serialization_deserializeNicList_def]
  show ?thesis
  proof (cases "?n * 24 < 2 ^ 32")
    case True
    then have "unat (r_data raw) + ?n * 24 \<le> length buf" using len inv(2) by simp
    then show ?thesis using eq True by auto
  next
    case False
    then have "?n \<noteq> 0" and "length buf < unat (r_data raw) + 24 * (?n - 1) + 21"
      using buf inv(1) by auto
    then show ?thesis using eq False by simp
  qed
qed

section \<open>Interface lists: round trip\<close>

definition nic_wf :: "NicAddress \<Rightarrow> bool" where
  "nic_wf nic \<longleftrightarrow> length (na_name nic) = 16 \<and> na_name nic ! 15 = 0 \<and> na_nicType nic < 128"

definition nic_enc :: "NicAddress \<Rightarrow> byte list" where
  "nic_enc nic = le_bytes 4 (na_ipAddr nic) @ na_name nic @ [ucast (na_nicType nic)] @ [0, 0, 0]"

definition nicList_enc :: "NicAddress list \<Rightarrow> byte list" where
  "nicList_enc nics = le_bytes 4 (of_nat (length nics) :: u32) @ concat (map nic_enc nics)"

lemma emits_nic:
  assumes "nic_wf nic"
  shows "emits (\<lambda>ctx. serializeNicAddress ctx nic) (nic_enc nic)"
proof -
  have "le_bytes 4 (na_nicType nic) = ucast (na_nicType nic) # le_bytes 3 (drop_bit 8 (na_nicType nic))"
    by (simp add: numeral_eq_Suc)
  then have "emits (\<lambda>ctx. Serialization_serializeBlock ctx (le_bytes 4 (na_nicType nic)) 1)
      [ucast (na_nicType nic)]"
    using emits_block_take [of 1 "le_bytes 4 (na_nicType nic)"] by simp
  then show ?thesis
    unfolding serializeNicAddress_def nic_enc_def
    using assms by (intro emits_bind emits_block) (simp_all add: nic_wf_def)
qed

lemma emits_nicList:
  assumes "\<forall>nic \<in> set nics. nic_wf nic" and "length nics < 2 ^ 32"
  shows "emits (\<lambda>ctx. Serialization_serializeNicList ctx nics) (nicList_enc nics)"
  unfolding Serialization_serializeNicList_def nicList_enc_def Let_def unat_of_nat32 [OF assms(2)]
  using assms(1) by (simp, intro emits_bind UInt.ser_emits emits_each emits_nic) simp_all

lemma length_nic_enc: "nic_wf nic \<Longrightarrow> length (nic_enc nic) = 24"
  by (simp add: nic_wf_def nic_enc_def)

lemma deserializeNicAddress_enc:
  assumes wf: "nic_wf nic" and v: "drop (unat p) buf = nic_enc nic @ rest" and buf: "length buf < 2 ^ 64"
  shows "deserializeNicAddress buf p = Some nic"
proof -
  have len: "length buf - unat p = 24 + length rest"
    using arg_cong [OF v, of length] length_nic_enc [OF wf] by simp
  then have b: "unat p + 24 \<le> length buf" by simp
  have p: "unat (p + 4) = unat p + 4" "unat (p + 20) = unat p + 20"
    using b buf by (simp_all add: unat_plus_le)
  have d: "drop (unat p + k) buf = drop k (nic_enc nic @ rest)" for k
    by (simp add: v [symmetric] add.commute)
  have "buf ! (unat p + 20) = (nic_enc nic @ rest) ! 20"
    using b by (simp add: v [symmetric])
  also have "\<dots> = ucast (na_nicType nic)"
    using wf by (simp add: nic_enc_def nth_append nic_wf_def)
  finally have t: "buf ! (unat p + 20) = ucast (na_nicType nic)" .
  have "(scast (ucast (na_nicType nic) :: byte) :: u32) = na_nicType nic"
  proof (rule bit_word_eqI)
    fix k
    assume "k < LENGTH(32)"
    have "take_bit 7 (na_nicType nic) = na_nicType nic"
      using wf by (intro word_unat_eq_iff [THEN iffD2])
        (simp add: nic_wf_def unsigned_take_bit_eq take_bit_nat_eq_self_iff word_less_nat_alt)
    then have b7: "bit (na_nicType nic) k \<Longrightarrow> k < 7" for k
      by (metis bit_take_bit_iff)
    then show "bit (scast (ucast (na_nicType nic) :: byte) :: u32) k = bit (na_nicType nic) k"
      using \<open>k < LENGTH(32)\<close>
      by (cases "k < 7") (auto simp: bit_simps min_def dest: b7)
  qed
  moreover have "(na_name nic)[15 := 0] = na_name nic"
    using wf by (metis nic_wf_def list_update_id)
  ultimately show ?thesis
    using wf b by (simp add: deserializeNicAddress_def read_bytes_def read_byte_def p t v d)
      (simp add: nic_enc_def nic_wf_def)
qed

lemma nicLoop_reads:
  assumes "\<forall>nic \<in> set nics. nic_wf nic"
    and "drop (unat p) buf = concat (map nic_enc nics) @ rest" and "length buf < 2 ^ 64"
  shows "nicLoop (length nics) buf p = Done nics"
  using assms
proof (induction nics arbitrary: p)
  case (Cons nic nics)
  have wf: "nic_wf nic" using Cons.prems(1) by simp
  have v: "drop (unat p) buf = nic_enc nic @ (concat (map nic_enc nics) @ rest)"
    using Cons.prems(2) by simp
  have "length buf - unat p \<ge> 24"
    using arg_cong [OF v, of length] length_nic_enc [OF wf] by simp
  then have p: "unat (p + 24) = unat p + 24"
    using Cons.prems(3) by (subst unat_plus_le) simp_all
  have "drop (unat p + 24) buf = drop 24 (drop (unat p) buf)"
    by (simp add: add.commute)
  then have "drop (unat (p + 24)) buf = concat (map nic_enc nics) @ rest"
    by (simp add: p v length_nic_enc [OF wf])
  then have "nicLoop (length nics) buf (p + 24) = Done nics"
    using Cons by simp
  then show ?case
    using deserializeNicAddress_enc [OF wf v Cons.prems(3)] by simp
qed simp

lemma length_nics:
  "\<forall>nic \<in> set nics. nic_wf nic \<Longrightarrow> length (concat (map nic_enc nics)) = 24 * length nics"
  by (induction nics) (simp_all add: length_nic_enc)

lemma reads_nicList:
  assumes wf: "\<forall>nic \<in> set nics. nic_wf nic" and len: "24 * length nics < 2 ^ 32"
  shows "reads (viaRawList Serialization_deserializeNicListPreprocess
    (Serialization_deserializeNicList)) (nicList_enc nics) nics"
  unfolding reads_def
proof (intro allI impI)
  fix buf rest and ctx :: DeserializeCtx
  let ?n = "of_nat (length nics) :: u32" and ?el = "concat (map nic_enc nics)"
  let ?c = "advance ctx 4"
  assume ok: "ctx_ok buf ctx" and "view buf ctx = nicList_enc nics @ rest"
  then have v: "view buf ctx = le_bytes 4 ?n @ ?el @ rest" by (simp add: nicList_enc_def)
  have u: "Serialization_deserializeUInt buf ctx = Done (?n, ?c)"
    using readsD [OF UInt.dec_reads ok v] by simp
  have c: "ctx_ok buf ?c" "view buf ?c = ?el @ rest"
    using advance_append [OF ok v] by simp_all
  have un: "unat ?n = length nics"
    using len by (intro unat_of_nat32) simp
  then have un24: "unat (?n * 24) = 24 * length nics"
    using len by (simp add: unat_word_ariths)
  then have uc: "(ucast (?n * 24) :: u64) = of_nat (24 * length nics)"
    by (simp only: ucast_as_of_nat)
  have un': "unat (ucast (?n * 24) :: u64) = 24 * length nics"
    using un24 by (subst unat_ucast_up) simp_all
  have "24 * length nics \<le> unat (d_length ?c)"
    using length_view [OF c(1)] c(2) length_nics [OF wf] by simp
  then have fits: "\<not> d_length ?c < ucast (?n * 24)"
    by (simp only: word_less_nat_alt un' not_less)
  have "drop (unat (d_pos ?c)) buf =
      view buf ?c @ drop (unat (d_length ?c)) (drop (unat (d_pos ?c)) buf)"
    by (simp only: view_def append_take_drop_id)
  then have "nicLoop (length nics) buf (d_pos ?c) = Done nics"
    using wf c ok by (intro nicLoop_reads) (auto simp: ctx_ok_def)
  then show "viaRawList Serialization_deserializeNicListPreprocess
      Serialization_deserializeNicList buf ctx =
      Done (nics, advance ctx (of_nat (length (nicList_enc nics))))"
    using u fits un uc
    by (simp add: viaRawList_def Serialization_deserializeNicListPreprocess_def Let_def
        Serialization_deserializeNicList_def SERIALIZATION_NICLISTELEM_SIZE_def
        nicList_enc_def length_nics [OF wf] advance_advance)
qed

interpretation NicList: codec Serialization_serializeNicList nicList_enc
    "\<lambda>nics. (\<forall>nic \<in> set nics. nic_wf nic) \<and> 24 * length nics < 2 ^ 32"
    "viaRawList Serialization_deserializeNicListPreprocess Serialization_deserializeNicList"
  by unfold_locales (use emits_nicList reads_nicList in auto)

section \<open>Generated lists\<close>

lemma decoder_serdesLoop: "decoder dec \<Longrightarrow> decoder (serdesLoop alloc dec n i)"
proof (induction n arbitrary: i)
  case 0
  then show ?case using decoder_return [of "[]"] by simp
next
  case (Suc n)
  have "decoder (\<lambda>buf ctx. dbind (dec buf ctx) (\<lambda>(x, ctx).
      dbind (serdesLoop alloc dec n (Suc i) buf ctx) (\<lambda>(xs, ctx). Done (x # xs, ctx))))"
    using Suc by (intro decoder_bind decoder_return) auto
  then show ?case by (cases "alloc i") auto
qed

lemma decoder_serdesList:
  assumes "decoder dec"
  shows "decoder (\<lambda>buf ctx. SERDES_listDeserialize hasLength alloc dec list buf ctx)"
proof (cases hasLength)
  case False
  have "decoder (\<lambda>buf ctx. dbind (Serialization_deserializeUInt buf ctx) (\<lambda>(items, ctx).
      dbind (serdesLoop alloc dec (unat items) 0 buf ctx) (\<lambda>(xs, ctx). Done (list @ xs, ctx))))"
    using assms by (intro decoder_bind decoder_serdesLoop decoder_return UInt.decoder_axioms)
  then show ?thesis using False by (simp add: SERDES_listDeserialize_def)
next
  case True
  show ?thesis
  proof
    fix buf ctx x ctx'
    assume ok: "ctx_ok buf ctx"
    have "dbind (Serialization_deserializeUInt buf inner) (\<lambda>(items, ctx).
        dbind (serdesLoop alloc dec (unat items) 0 buf ctx) (\<lambda>(xs, i). Done (list @ xs, c))) \<noteq> Overrun"
      if "Serialization_deserializeNestedField buf ctx = Done (inner, c)" for inner c
      using UInt.in_bounds [OF nested_inv(1) [OF ok that]] UInt.dec_ok [OF nested_inv(1) [OF ok that]]
        decoder.in_bounds [OF decoder_serdesLoop [OF assms]]
      by (auto simp: dbind_eq_Overrun)
    then show "SERDES_listDeserialize hasLength alloc dec list buf ctx \<noteq> Overrun"
      using True nested_in_bounds [OF ok]
      by (auto simp: SERDES_listDeserialize_def dbind_eq_Overrun)
    assume "SERDES_listDeserialize hasLength alloc dec list buf ctx = Done (x, ctx')"
    then show "\<exists>n \<le> d_length ctx. ctx' = advance ctx n"
      using True nested_inv(2) [OF ok]
      by (auto simp: SERDES_listDeserialize_def dbind_eq_Done)
  qed
qed

definition serdes_enc :: "bool \<Rightarrow> ('a \<Rightarrow> byte list) \<Rightarrow> 'a list \<Rightarrow> byte list" where
  "serdes_enc hasLength enc xs =
     (if hasLength then sized_enc enc xs
      else le_bytes 4 (of_nat (length xs) :: u32) @ concat (map enc xs))"

lemma emits_serdesList:
  assumes "\<And>x. x \<in> set xs \<Longrightarrow> emits (\<lambda>ctx. ser ctx x) (enc x)"
  shows "emits (\<lambda>ctx. SERDES_listSerialize hasLength ser ctx xs) (serdes_enc hasLength enc xs)"
proof (cases hasLength)
  case True
  have "emits (\<lambda>ctx. Serialization_serializeUInt ctx 0 \<bind> (\<lambda>ctx.
      Serialization_serializeUInt ctx 0 \<bind> serializeEach ser xs))
    ((le_bytes 4 (0::u32) @ le_bytes 4 (0::u32)) @ concat (map enc xs))"
    using emits_list_body [of xs ser enc 0] assms by simp
  from emits_patch [OF this, of "\<lambda>n. le_bytes 4 n @ le_bytes 4 (of_nat (length xs) :: u32)"
      "\<lambda>n c. Serialization_serializeUInt c n \<bind> (\<lambda>c. Serialization_serializeUInt c (of_nat (length xs)))"]
  show ?thesis
    using True emits_bind [OF UInt.ser_emits UInt.ser_emits]
    by (simp add: SERDES_listSerialize_def serdes_enc_def sized_enc_def ac_simps)
next
  case False
  have "emits (\<lambda>ctx. Serialization_serializeUInt ctx 0 \<bind> serializeEach ser xs)
    (le_bytes 4 (0::u32) @ concat (map enc xs))"
    using assms by (intro emits_bind UInt.ser_emits emits_each) auto
  from emits_patch [OF this, of "\<lambda>n. le_bytes 4 (of_nat (length xs) :: u32)"
      "\<lambda>n c. Serialization_serializeUInt c (of_nat (length xs))"]
  show ?thesis
    using False UInt.ser_emits by (simp add: SERDES_listSerialize_def serdes_enc_def)
qed

lemma reads_serdesLoop:
  "(\<And>x. x \<in> set xs \<Longrightarrow> reads dec (enc x) x) \<Longrightarrow> (\<And>k. k < length xs \<Longrightarrow> alloc (i + k)) \<Longrightarrow>
   reads (serdesLoop alloc dec (length xs) i) (concat (map enc xs)) xs"
proof (induction xs arbitrary: i)
  case Nil
  then show ?case using reads_return [of "[]"] by simp
next
  case (Cons x xs)
  have "alloc (Suc i + k)" if "k < length xs" for k
    using Cons.prems(2) [of "Suc k"] that by simp
  then have "reads (\<lambda>buf ctx. dbind (serdesLoop alloc dec (length xs) (Suc i) buf ctx)
      (\<lambda>(xs, ctx). Done (x # xs, ctx))) (concat (map enc xs)) (x # xs)"
    using Cons by (intro reads_map) auto
  moreover have "alloc i" using Cons.prems(2) [of 0] by simp
  ultimately show ?case
    using reads_bind [of 0 dec "enc x" x 0] Cons.prems(1) by simp
qed

lemma reads_serdesList:
  assumes dec: "\<And>x. x \<in> set xs \<Longrightarrow> reads dec (enc x) x"
    and alloc: "\<And>k. k < length xs \<Longrightarrow> alloc k"
    and n: "length xs < 2 ^ 32" and len: "8 + length (concat (map enc xs)) < 2 ^ 32"
  shows "reads (SERDES_listDeserialize hasLength alloc dec list) (serdes_enc hasLength enc xs)
    (list @ xs)"
proof -
  let ?n = "of_nat (length xs) :: u32" and ?el = "concat (map enc xs)"
  have body: "reads (\<lambda>buf ctx. dbind (Serialization_deserializeUInt buf ctx) (\<lambda>(items, ctx).
      dbind (serdesLoop alloc dec (unat items) 0 buf ctx) (\<lambda>(xs, ctx). Done (list @ xs, ctx))))
    (le_bytes 4 ?n @ ?el) (list @ xs)"
    by (rule reads_bind [OF UInt.dec_reads], rule TrueI, rule reads_map)
      (use reads_serdesLoop [OF dec] alloc unat_of_nat32 [OF n] in auto)
  show ?thesis
  proof (cases hasLength)
    case False
    have "SERDES_listDeserialize False alloc dec list = (\<lambda>buf ctx.
        dbind (Serialization_deserializeUInt buf ctx) (\<lambda>(items, ctx).
          dbind (serdesLoop alloc dec (unat items) 0 buf ctx) (\<lambda>(xs, ctx). Done (list @ xs, ctx))))"
      by (simp add: SERDES_listDeserialize_def fun_eq_iff)
    with body False show ?thesis by (simp add: serdes_enc_def)
  next
    case True
    show ?thesis
      unfolding reads_def
    proof (intro allI impI)
      fix buf rest and ctx :: DeserializeCtx
      let ?b = "le_bytes 4 ?n @ ?el"
      assume ok: "ctx_ok buf ctx" and "view buf ctx = serdes_enc hasLength enc xs @ rest"
      then have v: "view buf ctx = le_bytes 4 (of_nat (4 + length ?b) :: u32) @ ?b @ rest"
        using True by (simp add: serdes_enc_def sized_enc_def)
      have 4: "4 + length ?b < 2 ^ 32" using len by simp
      note nf = nested_reads [OF ok v 4]
      have "view buf \<lparr>d_pos = d_pos ctx + 4, d_length = of_nat (length ?b)\<rparr> = ?b @ []"
        using nf(3) by simp
      note in_body = readsD [OF body nf(2) this]
      then obtain items c ctx' ys where
          "Serialization_deserializeUInt buf \<lparr>d_pos = d_pos ctx + 4, d_length = of_nat (length ?b)\<rparr> =
             Done (items, c)"
        and "serdesLoop alloc dec (unat items) 0 buf c = Done (ys, ctx')" and "list @ ys = list @ xs"
        by (auto simp: dbind_eq_Done)
      then show "SERDES_listDeserialize hasLength alloc dec list buf ctx =
          Done (list @ xs, advance ctx (of_nat (length (serdes_enc hasLength enc xs))))"
        using True nf(1)
        by (simp add: SERDES_listDeserialize_def serdes_enc_def length_sized_enc)
    qed
  qed
qed

text \<open>
  An interface for the generated code: whatever element type with a wire format is put into a
  list, the list has a wire format, provided its elements can be allocated.
\<close>

lemma wire_type_serdesList:
  assumes "wire_type ser enc okv dec"
  shows "wire_type (SERDES_listSerialize hasLength ser) (serdes_enc hasLength enc)
    (\<lambda>xs. (\<forall>x \<in> set xs. okv x) \<and> length xs < 2 ^ 32 \<and> 8 + length (concat (map enc xs)) < 2 ^ 32)
    (SERDES_listDeserialize hasLength (\<lambda>_. True) dec [])"
proof (intro wire_type.intro codec.intro codec_axioms.intro serializer.intro)
  have cod: "codec ser enc okv dec" and dec: "decoder dec"
    using assms by (auto simp: wire_type_def)
  have ser: "serializer ser enc okv" using cod by (rule codec.axioms)
  show "decoder (SERDES_listDeserialize hasLength (\<lambda>_. True) dec [])"
    using decoder_serdesList [OF dec] by simp
  fix xs
  assume wf: "(\<forall>x \<in> set xs. okv x) \<and> length xs < 2 ^ 32 \<and> 8 + length (concat (map enc xs)) < 2 ^ 32"
  show "emits (\<lambda>ctx. SERDES_listSerialize hasLength ser ctx xs) (serdes_enc hasLength enc xs)"
    using wf by (intro emits_serdesList serializer.ser_emits [OF ser]) simp
  have "reads (SERDES_listDeserialize hasLength (\<lambda>_. True) dec []) (serdes_enc hasLength enc xs) ([] @ xs)"
    using wf by (intro reads_serdesList codec.dec_reads [OF cod]) auto
  then show "reads (SERDES_listDeserialize hasLength (\<lambda>_. True) dec []) (serdes_enc hasLength enc xs) xs"
    by simp
qed

section \<open>Properties\<close>

text \<open>C37: Reading a preprocessed interface list from a buffer below 4 GiB leaves the buffer exactly
  when the 32 bit product of element count and element size has wrapped around, which the
  preprocessing step accepts; without a wrap every access is in bounds.\<close>

theorem nicList_bounds:
  assumes "ctx_ok buf ctx" and "length buf < 2 ^ 32"
    and "Serialization_deserializeNicListPreprocess buf ctx = Done (raw, ctx')"
  shows "Serialization_deserializeNicList buf raw = Overrun \<longleftrightarrow> 2 ^ 32 \<le> unat (r_elemCount raw) * 24"
  by (rule deserializeNicList_Overrun [OF assms])

theorem nicList_bounds_witness:
  "\<exists>raw ctx'. Serialization_deserializeNicListPreprocess [0, 0, 0, 32] \<lparr>d_pos = 0, d_length = 4\<rparr> = Done (raw, ctx')
    \<and> Serialization_deserializeNicList [0, 0, 0, 32] raw = Overrun"
proof -
  let ?raw = "\<lparr>r_data = 4, r_length = 0, r_elemCount = 0x20000000\<rparr>"
  have "Serialization_deserializeNicListPreprocess [0, 0, 0, 32] \<lparr>d_pos = 0, d_length = 4\<rparr> =
      Done (?raw, \<lparr>d_pos = 4, d_length = 0\<rparr>)"
    by code_simp
  moreover from this have "Serialization_deserializeNicList [0, 0, 0, 32] ?raw = Overrun"
    by (subst nicList_bounds) (simp_all add: ctx_ok_def)
  ultimately show ?thesis by blast
qed

text \<open>C26: An interface list whose names are terminated within their 16 bytes and whose types fit in
  seven bits survives counting, storing and reading back.\<close>

theorem nicList_roundtrip:
  assumes "\<forall>nic \<in> set nics. nic_wf nic" and "24 * length nics + 4 < 2 ^ 32"
    and "Serialization_serializeNicList \<lparr>s_data = None, s_length = 0\<rparr> nics = Some c"
    and "length d = unat (s_length c)"
  shows "\<exists>buf. Serialization_serializeNicList \<lparr>s_data = Some d, s_length = 0\<rparr> nics =
        Some \<lparr>s_data = Some buf, s_length = s_length c\<rparr> \<and> length buf = length d
    \<and> viaRawList Serialization_deserializeNicListPreprocess Serialization_deserializeNicList
        buf \<lparr>d_pos = 0, d_length = of_nat (length d)\<rparr>
      = Done (nics, \<lparr>d_pos = of_nat (length d), d_length = 0\<rparr>)"
  using assms
  by (intro NicList.two_pass_roundtrip) (simp_all add: nicList_enc_def length_nics del: length_concat)

theorem nicList_roundtrip_witness:
  "let nic = \<lparr>na_ipAddr = 0x0100007F, na_nicType = 2, na_name = [105, 98, 48] @ replicate 13 0\<rparr> in
   \<exists>buf. Serialization_serializeNicList \<lparr>s_data = Some (replicate 28 0), s_length = 0\<rparr> [nic] =
        Some \<lparr>s_data = Some buf, s_length = 28\<rparr>
    \<and> viaRawList Serialization_deserializeNicListPreprocess Serialization_deserializeNicList
        buf \<lparr>d_pos = 0, d_length = 28\<rparr> = Done ([nic], \<lparr>d_pos = 28, d_length = 0\<rparr>)"
proof -
  let ?nic = "\<lparr>na_ipAddr = 0x0100007F, na_nicType = 2, na_name = [105, 98, 48] @ replicate 13 0\<rparr>"
  have wf: "\<forall>nic \<in> set [?nic]. nic_wf nic" by (simp add: nic_wf_def)
  have c: "Serialization_serializeNicList \<lparr>s_data = None, s_length = 0\<rparr> [?nic] =
      Some \<lparr>s_data = None, s_length = 28\<rparr>"
    by code_simp
  show ?thesis
    using nicList_roundtrip [OF wf _ c, of "replicate 28 0"] by (simp add: Let_def) blast
qed

end
