(* ===== verification/BitStore.thy ===== *)
theory BitStore
  imports SerdesLists
begin

text \<open>
  \<^verbatim>\<open>toolkit/BitStore\<close>: a vector of bits kept in one embedded 64 bit block and an array that is
  allocated only when more than one block is needed. The array is \<^const>\<open>None\<close> for a null pointer; an
  access outside it makes an operation return \<^const>\<open>None\<close>. \<^verbatim>\<open>os_kmalloc\<close> always succeeds
  (it retries with \<^verbatim>\<open>__GFP_NOFAIL\<close>); the contents of fresh memory are the argument \<open>mem\<close>.
\<close>

section \<open>Operations\<close>

record BitStore =
  numBits :: u32
  lowerBits :: u64
  higherBits :: "u64 list option"

definition BITSTORE_BLOCK_BIT_COUNT :: u32 where
  "BITSTORE_BLOCK_BIT_COUNT = 64"

definition BitStore_getBitBlockIndex :: "u32 \<Rightarrow> u32" where
  "BitStore_getBitBlockIndex bitIndex = bitIndex div BITSTORE_BLOCK_BIT_COUNT"

definition BitStore_getBitIndexInBitBlock :: "u32 \<Rightarrow> u32" where
  "BitStore_getBitIndexInBitBlock bitIndex = bitIndex mod BITSTORE_BLOCK_BIT_COUNT"

definition BitStore_calculateBitBlockCount :: "u32 \<Rightarrow> u32" where
  "BitStore_calculateBitBlockCount bitSize =
     (if bitSize \<le> BITSTORE_BLOCK_BIT_COUNT then 1
      else let retVal = bitSize div BITSTORE_BLOCK_BIT_COUNT in
        if bitSize mod BITSTORE_BLOCK_BIT_COUNT \<noteq> 0 then retVal + 1 else retVal)"

definition BitStore_getBit :: "BitStore \<Rightarrow> u32 \<Rightarrow> bool option" where
  "BitStore_getBit this bitIndex =
     (if bitIndex \<ge> numBits this then Some False
      else let index = BitStore_getBitBlockIndex bitIndex;
               indexInBitBlock = unat (BitStore_getBitIndexInBitBlock bitIndex)
        in if index = 0 then Some (bit (lowerBits this) indexInBitBlock)
           else (case higherBits this of
                   None \<Rightarrow> None
                 | Some hs \<Rightarrow>
                     if unat (index - 1) < length hs
                     then Some (bit (hs ! unat (index - 1)) indexInBitBlock) else None))"

text \<open>\<^verbatim>\<open>set_bit\<close> and \<^verbatim>\<open>clear_bit\<close> of the kernel on one block.\<close>

definition put_bit :: "bool \<Rightarrow> nat \<Rightarrow> u64 \<Rightarrow> u64" where
  "put_bit isSet i w = (if isSet then Bit_Operations.set_bit i w else unset_bit i w)"

definition BitStore_setBit :: "BitStore \<Rightarrow> u32 \<Rightarrow> bool \<Rightarrow> BitStore option" where
  "BitStore_setBit this bitIndex isSet =
     (let index = BitStore_getBitBlockIndex bitIndex;
          indexInBitBlock = unat (BitStore_getBitIndexInBitBlock bitIndex)
      in if bitIndex \<ge> numBits this then Some this
         else if index = 0
         then Some (this\<lparr>lowerBits := put_bit isSet indexInBitBlock (lowerBits this)\<rparr>)
         else (case higherBits this of
                 None \<Rightarrow> None
               | Some hs \<Rightarrow>
                   let j = unat (index - 1) in
                   if j < length hs
                   then Some (this\<lparr>higherBits := Some (hs[j := put_bit isSet indexInBitBlock (hs ! j)])\<rparr>)
                   else None))"

definition BitStore_setSize :: "(nat \<Rightarrow> u64) \<Rightarrow> BitStore \<Rightarrow> u32 \<Rightarrow> BitStore" where
  "BitStore_setSize mem this newSize =
     (let oldBitBlockCount = BitStore_calculateBitBlockCount (numBits this);
          newBitBlockCount = BitStore_calculateBitBlockCount newSize
      in if newBitBlockCount \<noteq> oldBitBlockCount
         then this\<lparr>higherBits :=
                if newBitBlockCount > 1
                then Some (map mem [0..<unat (newBitBlockCount - 1)]) else None,
              numBits := newBitBlockCount * BITSTORE_BLOCK_BIT_COUNT\<rparr>
         else this)"

definition BitStore_clearBits :: "BitStore \<Rightarrow> BitStore option" where
  "BitStore_clearBits this0 =
     (let this = this0\<lparr>lowerBits := 0\<rparr> in
      case higherBits this of
        None \<Rightarrow> Some this
      | Some hs \<Rightarrow>
          let n = unat (BitStore_calculateBitBlockCount (numBits this) - 1) in
          if n \<le> length hs
          then Some (this\<lparr>higherBits := Some (replicate n 0 @ drop n hs)\<rparr>) else None)"

definition BitStore_init :: "u64 \<Rightarrow> bool \<Rightarrow> BitStore" where
  "BitStore_init garbage setZero =
     \<lparr>numBits = BITSTORE_BLOCK_BIT_COUNT, lowerBits = if setZero then 0 else garbage,
      higherBits = None\<rparr>"

definition BitStore_initWithSizeAndReset :: "(nat \<Rightarrow> u64) \<Rightarrow> u64 \<Rightarrow> u32 \<Rightarrow> BitStore option" where
  "BitStore_initWithSizeAndReset mem garbage bitSize =
     BitStore_clearBits (BitStore_setSize mem (BitStore_init garbage False) bitSize)"

fun serializeBlocks :: "nat \<Rightarrow> u64 list \<Rightarrow> SerializeCtx \<Rightarrow> SerializeCtx option" where
  "serializeBlocks 0 hs ctx = Some ctx"
| "serializeBlocks (Suc n) [] ctx = None"
| "serializeBlocks (Suc n) (h # hs) ctx = Serialization_serializeUInt64 ctx h \<bind> serializeBlocks n hs"

definition BitStore_serialize :: "SerializeCtx \<Rightarrow> BitStore \<Rightarrow> SerializeCtx option" where
  "BitStore_serialize ctx this = do {
     let blockCount = BitStore_calculateBitBlockCount (numBits this);
     ctx \<leftarrow> Serialization_serializeUInt ctx (numBits this);
     ctx \<leftarrow> Serialization_serializeUInt ctx 0;
     ctx \<leftarrow> Serialization_serializeUInt64 ctx (lowerBits this);
     serializeBlocks (unat (blockCount - 1))
       (case higherBits this of None \<Rightarrow> [] | Some hs \<Rightarrow> hs) ctx }"

definition BitStore_deserializePreprocess ::
    "byte list \<Rightarrow> DeserializeCtx \<Rightarrow> (u64 \<times> DeserializeCtx) dres" where
  "BitStore_deserializePreprocess buf ctx =
     (let outBitStoreStart = d_pos ctx in
      dbind (Serialization_deserializeUInt buf ctx) (\<lambda>(tmpSize, ctx).
        dbind (Serialization_deserializeUInt buf ctx) (\<lambda>(padding, ctx).
          let blocksLen = ucast (8 * BitStore_calculateBitBlockCount tmpSize) in
          if blocksLen > d_length ctx then Refused
          else Done (outBitStoreStart, advance ctx blocksLen))))"

text \<open>
  \<^verbatim>\<open>BitStore_deserialize\<close> drops the results of the reads: a refused read leaves the context and the
  target variable as they were.
\<close>

definition keep_old ::
    "(byte list \<Rightarrow> DeserializeCtx \<Rightarrow> ('a \<times> DeserializeCtx) dres) \<Rightarrow> 'a \<Rightarrow>
     byte list \<Rightarrow> DeserializeCtx \<Rightarrow> ('a \<times> DeserializeCtx) dres" where
  "keep_old dec old buf ctx =
     (case dec buf ctx of Refused \<Rightarrow> Done (old, ctx) | r \<Rightarrow> r)"

fun deserializeBlocks ::
    "nat \<Rightarrow> u64 list \<Rightarrow> byte list \<Rightarrow> DeserializeCtx \<Rightarrow> (u64 list \<times> DeserializeCtx) dres" where
  "deserializeBlocks 0 hs buf ctx = Done (hs, ctx)"
| "deserializeBlocks (Suc n) [] buf ctx = Overrun"
| "deserializeBlocks (Suc n) (h # hs) buf ctx =
     dbind (keep_old Serialization_deserializeUInt64 h buf ctx) (\<lambda>(h, ctx).
       dbind (deserializeBlocks n hs buf ctx) (\<lambda>(hs, ctx). Done (h # hs, ctx)))"

definition BitStore_deserialize ::
    "(nat \<Rightarrow> u64) \<Rightarrow> BitStore \<Rightarrow> byte list \<Rightarrow> DeserializeCtx \<Rightarrow> (BitStore \<times> DeserializeCtx) dres" where
  "BitStore_deserialize mem this buf ctx =
     dbind (keep_old Serialization_deserializeUInt 0 buf ctx) (\<lambda>(bitCount, ctx).
       dbind (keep_old Serialization_deserializeUInt 0 buf ctx) (\<lambda>(padding, ctx).
         let this = BitStore_setSize mem this bitCount in
         dbind (keep_old Serialization_deserializeUInt64 (lowerBits this) buf ctx) (\<lambda>(lower, ctx).
           let this = this\<lparr>lowerBits := lower\<rparr>;
               blockCount = BitStore_calculateBitBlockCount (numBits this)
           in dbind (deserializeBlocks (unat (blockCount - 1))
                       (case higherBits this of None \<Rightarrow> [] | Some hs \<Rightarrow> hs) buf ctx) (\<lambda>(hs, ctx).
                Done (this\<lparr>higherBits := map_option (\<lambda>_. hs) (higherBits this)\<rparr>, ctx)))))"

text \<open>\<^verbatim>\<open>memcpy\<close> of the first \<open>n\<close> blocks; \<^const>\<open>None\<close> when either array is too short.\<close>

definition copy_blocks :: "nat \<Rightarrow> u64 list \<Rightarrow> u64 list option \<Rightarrow> u64 list option" where
  "copy_blocks n dst src =
     (let src = (case src of None \<Rightarrow> [] | Some hs \<Rightarrow> hs) in
      if n \<le> length dst \<and> n \<le> length src then Some (take n src @ drop n dst) else None)"

definition BitStore_copy :: "(nat \<Rightarrow> u64) \<Rightarrow> BitStore \<Rightarrow> BitStore \<Rightarrow> BitStore option" where
  "BitStore_copy mem this0 other =
     (let this = (BitStore_setSize mem this0 (numBits other))\<lparr>lowerBits := lowerBits other\<rparr> in
      case higherBits this of
        None \<Rightarrow> Some this
      | Some hs \<Rightarrow>
          let blockCount = BitStore_calculateBitBlockCount (numBits this) in
          map_option (\<lambda>hs'. this\<lparr>higherBits := Some hs'\<rparr>)
            (copy_blocks (unat (blockCount - 1)) hs (higherBits other)))"

definition BitStore_copyThreadSafe :: "BitStore \<Rightarrow> BitStore \<Rightarrow> BitStore option" where
  "BitStore_copyThreadSafe this0 other =
     (let this = this0\<lparr>lowerBits := lowerBits other\<rparr> in
      case higherBits this of
        None \<Rightarrow> Some this
      | Some hs \<Rightarrow> do {
          let thisBlockCount = BitStore_calculateBitBlockCount (numBits this);
          let otherBlockCount = BitStore_calculateBitBlockCount (numBits other);
          hs \<leftarrow> (if otherBlockCount > 1
                then copy_blocks (unat (min thisBlockCount otherBlockCount - 1)) hs (higherBits other)
                else Some hs);
          hs \<leftarrow> (if thisBlockCount > otherBlockCount
                then let from = unat (otherBlockCount - 1);
                         n = unat (thisBlockCount - otherBlockCount)
                     in if from + n \<le> length hs
                        then Some (take from hs @ replicate n 0 @ drop (from + n) hs) else None
                else Some hs);
          Some (this\<lparr>higherBits := Some hs\<rparr>) })"

section \<open>Well-formed stores\<close>

definition blocks :: "BitStore \<Rightarrow> u64 list" where
  "blocks bs = lowerBits bs # (case higherBits bs of None \<Rightarrow> [] | Some hs \<Rightarrow> hs)"

definition bs_ok :: "BitStore \<Rightarrow> bool" where
  "bs_ok bs \<longleftrightarrow> unat (numBits bs) = 64 * length (blocks bs) \<and> higherBits bs \<noteq> Some []"

lemma round_up_64: "(m + 63) div 64 = (if m mod 64 = 0 then m div 64 else m div 64 + 1)" for m :: nat
proof -
  have "(m + 63) div 64 = (64 * (m div 64) + (m mod 64 + 63)) div 64" by simp
  also have "\<dots> = m div 64 + (m mod 64 + 63) div 64" by (rule div_mult_self4) simp
  also have "(m mod 64 + 63) div 64 = (if m mod 64 = 0 then 0 else 1)"
    using mod_less_divisor [of 64 m] by (auto intro!: div_nat_eqI)
  finally show ?thesis by simp
qed

lemma blockCount_unat:
  "unat (BitStore_calculateBitBlockCount n) = max 1 ((unat n + 63) div 64)"
proof (cases "n \<le> 64")
  case True
  then have "unat n \<le> 64" by (simp add: word_le_nat_alt)
  then have "(unat n + 63) div 64 \<le> 1" by linarith
  then show ?thesis
    using True by (simp add: BitStore_calculateBitBlockCount_def BITSTORE_BLOCK_BIT_COUNT_def)
next
  case False
  have lt: "unat n < 2 ^ 32" using unat_bound [of n] by simp
  have d: "unat (n div 64) = unat n div 64" by (simp add: unat_div)
  have m: "n mod 64 = 0 \<longleftrightarrow> unat n mod 64 = 0"
    by (simp add: word_unat_eq_iff unat_mod)
  have s: "unat (n div 64 + 1) = unat n div 64 + 1"
    using d lt by (subst unat_plus_le) simp_all
  have gt: "unat n > 64" using False by (simp add: word_le_nat_alt)
  have "(unat n + 63) div 64 = (if unat n mod 64 = 0 then unat n div 64 else unat n div 64 + 1)"
    by (rule round_up_64)
  then show ?thesis
    using False d m s gt
    by (simp add: BitStore_calculateBitBlockCount_def BITSTORE_BLOCK_BIT_COUNT_def Let_def)
qed

lemma blockCount_ok: "bs_ok bs \<Longrightarrow> unat (BitStore_calculateBitBlockCount (numBits bs)) = length (blocks bs)"
  by (simp add: blockCount_unat bs_ok_def blocks_def)

lemma blockCount_pos: "BitStore_calculateBitBlockCount n \<ge> 1"
  by (simp add: word_le_nat_alt blockCount_unat)

lemma blockCount_minus: "unat (BitStore_calculateBitBlockCount n - 1) = unat (BitStore_calculateBitBlockCount n) - 1"
  using unat_sub [OF blockCount_pos, of n] by simp

lemma block_index:
  assumes "bs_ok bs" and "i < numBits bs"
  shows "unat (BitStore_getBitBlockIndex i) = unat i div 64"
    and "unat i div 64 < length (blocks bs)"
    and "unat (BitStore_getBitIndexInBitBlock i) = unat i mod 64"
    and "BitStore_getBitBlockIndex i = 0 \<longleftrightarrow> unat i div 64 = 0"
    and "BitStore_getBitBlockIndex i \<noteq> 0 \<Longrightarrow> unat (BitStore_getBitBlockIndex i - 1) = unat i div 64 - 1"
proof -
  show idx: "unat (BitStore_getBitBlockIndex i) = unat i div 64"
    and "unat (BitStore_getBitIndexInBitBlock i) = unat i mod 64"
    by (simp_all add: BitStore_getBitBlockIndex_def BitStore_getBitIndexInBitBlock_def
        BITSTORE_BLOCK_BIT_COUNT_def unat_div unat_mod)
  show "unat i div 64 < length (blocks bs)"
    using assms by (simp add: bs_ok_def word_less_nat_alt div_less_iff_less_mult mult.commute)
  show "BitStore_getBitBlockIndex i = 0 \<longleftrightarrow> unat i div 64 = 0"
    using idx by (metis unat_eq_0)
  show "BitStore_getBitBlockIndex i \<noteq> 0 \<Longrightarrow> unat (BitStore_getBitBlockIndex i - 1) = unat i div 64 - 1"
    using idx by (simp add: unat_minus_one)
qed

text \<open>On a well-formed store the two-level layout is invisible: bit \<open>i\<close> is bit \<open>i mod 64\<close> of block
  \<open>i div 64\<close>.\<close>

lemma getBit_blocks:
  assumes "bs_ok bs"
  shows "BitStore_getBit bs i =
    Some (i < numBits bs \<and> bit (blocks bs ! (unat i div 64)) (unat i mod 64))"
proof (cases "i < numBits bs")
  case True
  note bi = block_index [OF assms True]
  have nle: "\<not> numBits bs \<le> i" using True by simp
  show ?thesis
  proof (cases "unat i div 64 = 0")
    case True
    then show ?thesis
      using nle \<open>i < numBits bs\<close> bi by (simp add: BitStore_getBit_def blocks_def)
  next
    case False
    then obtain hs where "higherBits bs = Some hs"
      using bi(2) by (cases "higherBits bs") (auto simp: blocks_def)
    with False show ?thesis
      using nle \<open>i < numBits bs\<close> bi
      by (simp add: BitStore_getBit_def blocks_def Let_def nth_Cons')
  qed
qed (simp add: BitStore_getBit_def not_less)

lemma bit_put_bit:
  "bit (put_bit v i w) j \<longleftrightarrow> (if j = i \<and> i < 64 then v else bit w j)"
  by (auto simp: put_bit_def bit_simps dest: bit_imp_le_length)

lemma setBit_blocks:
  assumes "bs_ok bs" and "i < numBits bs"
  obtains bs' where "BitStore_setBit bs i v = Some bs'" and "bs_ok bs'" and "numBits bs' = numBits bs"
    and "blocks bs' = (blocks bs)[unat i div 64 := put_bit v (unat i mod 64) (blocks bs ! (unat i div 64))]"
proof -
  note bi = block_index [OF assms]
  have nle: "\<not> numBits bs \<le> i" using assms(2) by simp
  show thesis
  proof (cases "unat i div 64 = 0")
    case True
    then show thesis
      using assms bi nle
      by (intro that [of "bs\<lparr>lowerBits := put_bit v (unat i mod 64) (lowerBits bs)\<rparr>"])
        (simp_all add: BitStore_setBit_def bs_ok_def blocks_def)
  next
    case False
    then obtain hs where hs: "higherBits bs = Some hs"
      using bi(2) by (cases "higherBits bs") (auto simp: blocks_def)
    obtain k where k: "unat i div 64 = Suc k" using False by (cases "unat i div 64") auto
    then have "k < length hs" using bi(2) hs by (simp add: blocks_def)
    then show thesis
      using assms bi nle False hs k
      by (intro that [of "bs\<lparr>higherBits := Some (hs[k := put_bit v (unat i mod 64) (hs ! k)])\<rparr>"])
        (simp_all add: BitStore_setBit_def bs_ok_def blocks_def Let_def)
  qed
qed

lemma setSize_ok:
  assumes "bs_ok bs" and "n \<le> 0xFFFFFFC0"
  shows "bs_ok (BitStore_setSize mem bs n)" and "n \<le> numBits (BitStore_setSize mem bs n)"
    and "length (blocks (BitStore_setSize mem bs n)) = max 1 ((unat n + 63) div 64)"
    and "lowerBits (BitStore_setSize mem bs n) = lowerBits bs"
proof -
  let ?c = "BitStore_calculateBitBlockCount n" and ?r = "BitStore_setSize mem bs n"
  have n: "unat n \<le> 0xFFFFFFC0" using assms(2) by (simp add: word_le_nat_alt)
  have c: "unat ?c = max 1 ((unat n + 63) div 64)" by (rule blockCount_unat)
  have "(unat n + 63) div 64 \<le> (0xFFFFFFC0 + 63) div 64"
    using n by (intro div_le_mono) simp
  then have le: "unat ?c \<le> 0x3FFFFFF" using c by simp
  then have c64: "unat (?c * 64) = 64 * unat ?c" by (simp add: unat_word_ariths)
  show "lowerBits ?r = lowerBits bs"
    by (simp add: BitStore_setSize_def Let_def)
  have ok: "bs_ok ?r \<and> length (blocks ?r) = unat ?c"
  proof (cases "?c = BitStore_calculateBitBlockCount (numBits bs)")
    case True
    then show ?thesis
      using assms(1) blockCount_ok [OF assms(1)] by (simp add: BitStore_setSize_def)
  next
    case False
    have "?c > 1 \<longleftrightarrow> unat ?c > 1" by (simp add: word_less_nat_alt)
    moreover have "unat ?c \<ge> 1" using c by simp
    ultimately show ?thesis
      using False c64 blockCount_minus [of n]
      by (auto simp: BitStore_setSize_def Let_def bs_ok_def blocks_def
          BITSTORE_BLOCK_BIT_COUNT_def)
  qed
  then show "bs_ok ?r" and len: "length (blocks ?r) = max 1 ((unat n + 63) div 64)"
    using c by simp_all
  have "unat n \<le> 64 * ((unat n + 63) div 64)"
    using div_mult_mod_eq [of "unat n + 63" 64] mod_less_divisor [of 64 "unat n + 63"] by linarith
  then show "n \<le> numBits ?r"
    using ok len by (simp add: word_le_nat_alt bs_ok_def) linarith
qed

lemma clearBits_ok:
  assumes "bs_ok bs"
  obtains bs' where "BitStore_clearBits bs = Some bs'" and "bs_ok bs'" and "numBits bs' = numBits bs"
    and "blocks bs' = replicate (length (blocks bs)) 0"
proof (cases "higherBits bs")
  case None
  then show thesis
    using assms by (intro that [of "bs\<lparr>lowerBits := 0\<rparr>"])
      (simp_all add: BitStore_clearBits_def bs_ok_def blocks_def)
next
  case (Some hs)
  then have "unat (BitStore_calculateBitBlockCount (numBits bs) - 1) = length hs"
    using blockCount_minus [of "numBits bs"] blockCount_ok [OF assms] by (simp add: blocks_def)
  then show thesis
    using assms Some
    by (intro that [of "bs\<lparr>lowerBits := 0, higherBits := Some (replicate (length hs) 0)\<rparr>"])
      (simp_all add: BitStore_clearBits_def bs_ok_def blocks_def Let_def)
qed

text \<open>Two well-formed stores of the same size are equal when their blocks are.\<close>

lemma bs_eqI:
  "bs_ok a \<Longrightarrow> bs_ok b \<Longrightarrow> blocks a = blocks b \<Longrightarrow> a = (b :: BitStore)"
  by (cases a, cases b)
    (auto simp: bs_ok_def blocks_def word_unat_eq_iff split: option.splits)

lemma ok_size: "bs_ok bs \<Longrightarrow> numBits bs \<le> 0xFFFFFFC0"
  and ok_round: "bs_ok bs \<Longrightarrow> max 1 ((unat (numBits bs) + 63) div 64) = length (blocks bs)"
proof -
  assume ok: "bs_ok bs"
  then have e: "unat (numBits bs) = 64 * length (blocks bs)" by (simp add: bs_ok_def)
  with unat_bound [of "numBits bs"] have "length (blocks bs) \<le> 0x3FFFFFF" by simp
  with e show "numBits bs \<le> 0xFFFFFFC0" by (simp add: word_le_nat_alt)
  show "max 1 ((unat (numBits bs) + 63) div 64) = length (blocks bs)"
    using e by (simp add: blocks_def)
qed

lemma setSize_same:
  assumes "bs_ok this" and "bs_ok other"
  shows "bs_ok (BitStore_setSize mem this (numBits other))"
    and "length (blocks (BitStore_setSize mem this (numBits other))) = length (blocks other)"
    and "numBits (BitStore_setSize mem this (numBits other)) = numBits other"
proof -
  note s = setSize_ok [OF assms(1) ok_size [OF assms(2)], of mem]
  show ok: "bs_ok (BitStore_setSize mem this (numBits other))" by (rule s(1))
  show l: "length (blocks (BitStore_setSize mem this (numBits other))) = length (blocks other)"
    using s(3) ok_round [OF assms(2)] by simp
  show "numBits (BitStore_setSize mem this (numBits other)) = numBits other"
    using ok l assms(2) by (simp add: bs_ok_def word_unat_eq_iff)
qed

lemma copy_eq:
  assumes "bs_ok this" and "bs_ok other"
  shows "BitStore_copy mem this other = Some other"
proof -
  let ?t = "BitStore_setSize mem this (numBits other)"
  note s = setSize_same [OF assms, of mem]
  have cnt: "unat (BitStore_calculateBitBlockCount (numBits other) - 1) = length (blocks other) - 1"
    using blockCount_minus [of "numBits other"] blockCount_ok [OF assms(2)] by simp
  show ?thesis
  proof (cases "higherBits ?t")
    case None
    then have "?t\<lparr>lowerBits := lowerBits other\<rparr> = other"
      using s assms(2)
      by (intro bs_eqI) (auto simp: bs_ok_def blocks_def split: option.splits)
    moreover have "higherBits other = None"
      using None s(2) assms(2) by (auto simp: blocks_def bs_ok_def split: option.splits)
    ultimately show ?thesis by (simp add: BitStore_copy_def)
  next
    case (Some hs)
    then obtain os where os: "higherBits other = Some os" "length os = length hs"
      using s(1,2) assms(2) by (cases "higherBits other") (auto simp: blocks_def bs_ok_def)
    then have "?t\<lparr>lowerBits := lowerBits other, higherBits := Some os\<rparr> = other"
      using s assms(2) Some by (intro bs_eqI) (auto simp: bs_ok_def blocks_def)
    then show ?thesis
      using Some os cnt s(3) by (simp add: BitStore_copy_def copy_blocks_def Let_def blocks_def)
  qed
qed

lemma copyThreadSafe_blocks:
  assumes "bs_ok this" and "bs_ok other"
  obtains r where "BitStore_copyThreadSafe this other = Some r" and "bs_ok r"
    and "numBits r = numBits this"
    and "blocks r = take (length (blocks this)) (blocks other) @
      replicate (length (blocks this) - length (blocks other)) 0"
proof (cases "higherBits this")
  case None
  then show thesis
    using assms by (intro that [of "this\<lparr>lowerBits := lowerBits other\<rparr>"])
      (simp_all add: BitStore_copyThreadSafe_def bs_ok_def blocks_def)
next
  case (Some hs)
  let ?os = "case higherBits other of None \<Rightarrow> [] | Some os \<Rightarrow> os"
  let ?r = "this\<lparr>lowerBits := lowerBits other,
    higherBits := Some (take (length hs) ?os @ replicate (length hs - length ?os) 0)\<rparr>"
  let ?tc = "BitStore_calculateBitBlockCount (numBits this)"
    and ?oc = "BitStore_calculateBitBlockCount (numBits other)"
  have tc: "unat ?tc = Suc (length hs)" and oc: "unat ?oc = Suc (length ?os)"
    using blockCount_ok [OF assms(1)] blockCount_ok [OF assms(2)] Some by (simp_all add: blocks_def)
  have m: "unat (min ?tc ?oc - 1) = min (length hs) (length ?os)"
    using tc oc blockCount_minus [of "numBits this"] blockCount_minus [of "numBits other"]
    by (simp add: min_def word_le_nat_alt)
  have o1: "unat (?oc - 1) = length ?os" using oc blockCount_minus [of "numBits other"] by simp
  have d: "unat (?tc - ?oc) = length hs - length ?os" if "?tc > ?oc"
    using that tc oc by (subst unat_sub) (simp_all add: word_less_nat_alt word_le_nat_alt)
  have "BitStore_copyThreadSafe this other = Some ?r"
  proof (cases "?tc > ?oc")
    case True
    then have "length ?os < length hs" using tc oc by (simp add: word_less_nat_alt)
    then show ?thesis
      using True Some m o1 d [OF True] oc
      by (cases "?oc > 1")
        (auto simp: BitStore_copyThreadSafe_def copy_blocks_def Let_def word_less_nat_alt min_def)
  next
    case False
    then have "length hs \<le> length ?os" using tc oc by (simp add: word_less_nat_alt)
    moreover have "hs \<noteq> []" using assms(1) Some by (auto simp: bs_ok_def)
    ultimately show ?thesis
      using False Some m oc tc
      by (cases "?oc > 1")
        (auto simp: BitStore_copyThreadSafe_def copy_blocks_def Let_def word_less_nat_alt min_def)
  qed
  moreover have "bs_ok ?r"
    using assms(1) Some by (simp add: bs_ok_def blocks_def)
  ultimately show thesis
    using Some by (intro that [of ?r]) (simp_all add: blocks_def)
qed

section \<open>Wire format\<close>

definition bs_enc :: "BitStore \<Rightarrow> byte list" where
  "bs_enc bs = le_bytes 4 (numBits bs) @ le_bytes 4 (0 :: u32) @ concat (map (le_bytes 8) (blocks bs))"

lemma emits_blocks: "emits (serializeBlocks (length hs) hs) (concat (map (le_bytes 8) hs))"
proof (induction hs)
  case Nil
  have "serializeBlocks 0 [] = Some" by (simp add: fun_eq_iff)
  then show ?case by simp
next
  case (Cons h hs)
  have "serializeBlocks (Suc (length hs)) (h # hs) =
      (\<lambda>ctx. Serialization_serializeUInt64 ctx h \<bind> serializeBlocks (length hs) hs)"
    by (simp add: fun_eq_iff)
  then show ?case using emits_bind [OF UInt64.ser_emits Cons.IH] by simp
qed

lemma emits_bitStore:
  assumes "bs_ok bs"
  shows "emits (\<lambda>ctx. BitStore_serialize ctx bs) (bs_enc bs)"
proof -
  let ?hs = "case higherBits bs of None \<Rightarrow> [] | Some hs \<Rightarrow> hs"
  have "unat (BitStore_calculateBitBlockCount (numBits bs) - 1) = length ?hs"
    using blockCount_minus [of "numBits bs"] blockCount_ok [OF assms] by (simp add: blocks_def)
  then show ?thesis
    unfolding BitStore_serialize_def bs_enc_def blocks_def Let_def
    by (simp only: list.map concat.simps)
      (intro emits_bind UInt.ser_emits UInt64.ser_emits emits_blocks TrueI)
qed

lemma reads_keep_old: "reads dec bs x \<Longrightarrow> reads (keep_old dec old) bs x"
  unfolding reads_def keep_old_def by fastforce

lemma reads_blocks:
  "length hs = length xs \<Longrightarrow> reads (deserializeBlocks (length xs) hs) (concat (map (le_bytes 8) xs)) xs"
proof (induction xs arbitrary: hs)
  case Nil
  have "deserializeBlocks 0 [] = (\<lambda>buf ctx. Done ([], ctx))" by (simp add: fun_eq_iff)
  then show ?case using Nil reads_return by simp
next
  case (Cons x xs)
  then obtain h hs' where hs: "hs = h # hs'" "length hs' = length xs" by (cases hs) auto
  have "reads (\<lambda>buf ctx. dbind (deserializeBlocks (length xs) hs' buf ctx)
      (\<lambda>(hs, ctx). Done (x # hs, ctx))) (concat (map (le_bytes 8) xs)) (x # xs)"
    using Cons.IH [OF hs(2)] by (rule reads_map) simp
  from reads_bind [where g = "\<lambda>x buf ctx. dbind (deserializeBlocks (length xs) hs' buf ctx)
      (\<lambda>(hs, ctx). Done (x # hs, ctx))", OF reads_keep_old [OF UInt64.dec_reads] this]
  have "reads (\<lambda>buf ctx. dbind (keep_old Serialization_deserializeUInt64 h buf ctx) (\<lambda>(x, ctx).
      dbind (deserializeBlocks (length xs) hs' buf ctx) (\<lambda>(hs, ctx). Done (x # hs, ctx))))
      (le_bytes 8 x @ concat (map (le_bytes 8) xs)) (x # xs)"
    by simp
  then show ?case by (simp add: hs(1))
qed

lemma reads_bitStore:
  assumes "bs_ok this" and "bs_ok other"
  shows "reads (BitStore_deserialize mem this) (bs_enc other) other"
proof -
  let ?t = "BitStore_setSize mem this (numBits other)"
  note s = setSize_same [OF assms, of mem]
  let ?hs = "case higherBits ?t of None \<Rightarrow> [] | Some hs \<Rightarrow> hs"
    and ?os = "case higherBits other of None \<Rightarrow> [] | Some hs \<Rightarrow> hs"
  have cnt: "unat (BitStore_calculateBitBlockCount (numBits other) - 1) = length ?os"
    using blockCount_minus [of "numBits other"] blockCount_ok [OF assms(2)] by (simp add: blocks_def)
  have len: "length ?hs = length ?os" using s(2) by (simp add: blocks_def)
  have res: "?t\<lparr>lowerBits := lowerBits other, higherBits := map_option (\<lambda>_. ?os) (higherBits ?t)\<rparr> = other"
    using s assms(2)
    by (intro bs_eqI) (auto simp: bs_ok_def blocks_def split: option.splits)
  have "reads (\<lambda>buf ctx. dbind (deserializeBlocks (length ?os) ?hs buf ctx) (\<lambda>(hs, ctx).
      Done (?t\<lparr>lowerBits := lowerBits other, higherBits := map_option (\<lambda>_. hs) (higherBits ?t)\<rparr>, ctx)))
    (concat (map (le_bytes 8) ?os)) other"
    using reads_blocks [OF len] res by (rule reads_map)
  then have "reads (\<lambda>buf ctx. dbind (keep_old Serialization_deserializeUInt64 (lowerBits ?t) buf ctx)
      (\<lambda>(lower, ctx). let t = ?t\<lparr>lowerBits := lower\<rparr>;
               blockCount = BitStore_calculateBitBlockCount (numBits t)
           in dbind (deserializeBlocks (unat (blockCount - 1))
                       (case higherBits t of None \<Rightarrow> [] | Some hs \<Rightarrow> hs) buf ctx) (\<lambda>(hs, ctx).
                Done (t\<lparr>higherBits := map_option (\<lambda>_. hs) (higherBits t)\<rparr>, ctx))))
    (le_bytes 8 (lowerBits other) @ concat (map (le_bytes 8) ?os)) other"
    by (intro reads_bind [OF reads_keep_old [OF UInt64.dec_reads]])
      (simp_all add: Let_def s(3) cnt)
  then show ?thesis
    unfolding BitStore_deserialize_def [abs_def] bs_enc_def blocks_def Let_def list.map concat.simps
    by (intro reads_bind [OF reads_keep_old [OF UInt.dec_reads]]) simp_all
qed

lemma preprocess_bitStore:
  assumes ok: "ctx_ok buf ctx" and bs: "bs_ok bs" and v: "view buf ctx = bs_enc bs @ rest"
  shows "BitStore_deserializePreprocess buf ctx =
    Done (d_pos ctx, advance ctx (of_nat (length (bs_enc bs))))"
proof -
  let ?c = "BitStore_calculateBitBlockCount (numBits bs)"
  let ?body = "concat (map (le_bytes 8) (blocks bs))"
  have n: "unat ?c = length (blocks bs)" by (rule blockCount_ok [OF bs])
  have "64 * length (blocks bs) < 2 ^ 32"
    using bs unat_bound [of "numBits bs"] by (simp add: bs_ok_def)
  then have un: "unat (8 * ?c) = 8 * length (blocks bs)" using n by (simp add: unat_word_ariths)
  have l: "length ?body = 8 * length (blocks bs)" by (simp add: length_concat comp_def sum_list_triv)
  have v1: "view buf ctx = le_bytes 4 (numBits bs) @ le_bytes 4 (0 :: u32) @ ?body @ rest"
    using v by (simp add: bs_enc_def)
  let ?c1 = "advance ctx 4" and ?c2 = "advance (advance ctx 4) 4"
  have ok1: "ctx_ok buf ?c1" and v2: "view buf ?c1 = le_bytes 4 (0 :: u32) @ ?body @ rest"
    using advance_append [OF ok v1] by simp_all
  have ok2: "ctx_ok buf ?c2" and v3: "view buf ?c2 = ?body @ rest"
    using advance_append [OF ok1 v2] by simp_all
  have u: "Serialization_deserializeUInt buf ctx = Done (numBits bs, ?c1)"
    "Serialization_deserializeUInt buf ?c1 = Done (0, ?c2)"
    using readsD [OF UInt.dec_reads ok v1] readsD [OF UInt.dec_reads ok1 v2] by simp_all
  have "8 * length (blocks bs) \<le> unat (d_length ?c2)"
    using length_view [OF ok2] v3 l by simp
  moreover have ul: "(ucast (8 * ?c) :: u64) = of_nat (8 * length (blocks bs))"
    using un by (simp only: ucast_as_of_nat)
  moreover have "unat (ucast (8 * ?c) :: u64) = 8 * length (blocks bs)"
    using un by (subst unat_ucast_up) simp_all
  ultimately have "\<not> ucast (8 * ?c) > d_length ?c2" by (simp only: word_less_nat_alt not_less)
  then show ?thesis
    using u ul l
    by (simp add: BitStore_deserializePreprocess_def Let_def bs_enc_def advance_advance)
qed

lemma bitStore_codec:
  "bs_ok this \<Longrightarrow> codec BitStore_serialize bs_enc bs_ok (BitStore_deserialize mem this)"
  by (intro codec.intro codec_axioms.intro serializer.intro emits_bitStore reads_bitStore)

lemma length_bs_enc: "bs_ok bs \<Longrightarrow> length (bs_enc bs) < 2 ^ 32"
  using unat_bound [of "numBits bs"]
  by (simp add: bs_enc_def bs_ok_def length_concat comp_def sum_list_triv)

section \<open>Properties\<close>

text \<open>C19: Setting or clearing a bit inside the store changes exactly that bit, whichever block it lives
  in, and keeps the store well-formed.\<close>

theorem setBit_getBit:
  assumes ok: "bs_ok bs" and i: "i < numBits bs"
  shows "\<exists>bs'. BitStore_setBit bs i v = Some bs' \<and> bs_ok bs' \<and>
    (\<forall>j. BitStore_getBit bs' j = (if j = i then Some v else BitStore_getBit bs j))"
proof -
  obtain bs' where bs': "BitStore_setBit bs i v = Some bs'" "bs_ok bs'" "numBits bs' = numBits bs"
    "blocks bs' = (blocks bs)[unat i div 64 := put_bit v (unat i mod 64) (blocks bs ! (unat i div 64))]"
    using setBit_blocks [OF ok i] by metis
  have "BitStore_getBit bs' j = (if j = i then Some v else BitStore_getBit bs j)" for j
  proof (cases "j < numBits bs")
    case True
    have jl: "unat j div 64 < length (blocks bs)" "unat i div 64 < length (blocks bs)"
      using block_index(2) [OF ok] True i by blast+
    have "j = i \<longleftrightarrow> unat j div 64 = unat i div 64 \<and> unat j mod 64 = unat i mod 64"
      by (metis div_mult_mod_eq word_unat_eq_iff)
    then show ?thesis
      using jl i by (auto simp: getBit_blocks [OF bs'(2)] getBit_blocks [OF ok] bs'(3,4) nth_list_update
          bit_put_bit)
  next
    case False
    then show ?thesis using i by (auto simp: getBit_blocks [OF bs'(2)] getBit_blocks [OF ok] bs'(3))
  qed
  with bs' show ?thesis by blast
qed

theorem setBit_getBit_witness:
  "let bs = \<lparr>numBits = 128, lowerBits = 0, higherBits = Some [0]\<rparr> in
   \<exists>bs'. BitStore_setBit bs 70 True = Some bs' \<and> bs_ok bs' \<and>
     BitStore_getBit bs' 70 = Some True \<and> BitStore_getBit bs' 6 = BitStore_getBit bs 6"
proof -
  let ?bs = "\<lparr>numBits = 128, lowerBits = 0, higherBits = Some [0]\<rparr> :: BitStore"
  have "bs_ok ?bs" and "70 < numBits ?bs" by (simp_all add: bs_ok_def blocks_def)
  from setBit_getBit [OF this, of True] obtain bs' where b: "BitStore_setBit ?bs 70 True = Some bs'"
      "bs_ok bs'" "\<forall>j. BitStore_getBit bs' j = (if j = 70 then Some True else BitStore_getBit ?bs j)"
    by blast
  have "BitStore_getBit bs' 70 = Some True" "BitStore_getBit bs' 6 = BitStore_getBit ?bs 6"
    using b(3) by simp_all
  with b show ?thesis by (simp add: Let_def)
qed

text \<open>C32: A store initialised for a number of bits has room for them and starts with every bit clear;
  from \<open>2^32 - 63\<close> bits on, the capacity wraps to zero, so every later \<^verbatim>\<open>setBit\<close> is
  dropped as out of bounds.\<close>

theorem initWithSize:
  "\<exists>bs. BitStore_initWithSizeAndReset mem garbage n = Some bs \<and>
     (\<forall>j. BitStore_getBit bs j = Some False) \<and>
     (if n \<le> 0xFFFFFFC0 then bs_ok bs \<and> n \<le> numBits bs
      else numBits bs = 0 \<and> (\<forall>i v. BitStore_setBit bs i v = Some bs))"
proof (cases "n \<le> 0xFFFFFFC0")
  case True
  have i: "bs_ok (BitStore_init garbage False)"
    by (simp add: bs_ok_def BitStore_init_def blocks_def BITSTORE_BLOCK_BIT_COUNT_def)
  note s = setSize_ok [OF i True, of mem]
  obtain bs where c: "BitStore_initWithSizeAndReset mem garbage n = Some bs" "bs_ok bs"
      "numBits bs = numBits (BitStore_setSize mem (BitStore_init garbage False) n)"
      "blocks bs = replicate (length (blocks (BitStore_setSize mem (BitStore_init garbage False) n))) 0"
    using clearBits_ok [OF s(1)] by (metis BitStore_initWithSizeAndReset_def)
  have "BitStore_getBit bs j = Some False" for j
  proof (cases "j < numBits bs")
    case True
    then have "unat j div 64 < length (blocks bs)" by (rule block_index(2) [OF c(2)])
    then show ?thesis using c(4) by (simp add: getBit_blocks [OF c(2)])
  qed (simp add: getBit_blocks [OF c(2)])
  with c s(2) True show ?thesis by auto
next
  case False
  let ?n = "BitStore_calculateBitBlockCount n"
  have gt: "unat n > 0xFFFFFFC0" "unat n < 2 ^ 32"
    using False unat_bound [of n] by (simp_all add: word_le_nat_alt)
  then have "(unat n + 63) div 64 = 0x4000000" by (intro div_nat_eqI) simp_all
  then have "unat ?n = 0x4000000" using blockCount_unat [of n] by simp
  then have n: "?n = 0x4000000" by (simp add: word_unat_eq_iff)
  have z: "BitStore_calculateBitBlockCount 4294967296 = 1"
    by (simp add: BitStore_calculateBitBlockCount_def BITSTORE_BLOCK_BIT_COUNT_def)
  have "BitStore_initWithSizeAndReset mem garbage n =
      Some \<lparr>numBits = 0, lowerBits = 0, higherBits = Some (map mem [0..<0x3FFFFFF])\<rparr>"
    by (simp add: BitStore_initWithSizeAndReset_def BitStore_setSize_def BitStore_init_def n
        BITSTORE_BLOCK_BIT_COUNT_def BitStore_calculateBitBlockCount_def [of 64]
        BitStore_clearBits_def z Let_def del: upt_Suc)
  then show ?thesis
    using False by (simp add: BitStore_getBit_def BitStore_setBit_def del: upt_Suc)
qed

text \<open>Copying a store yields the other store, whatever size the target had and whatever its fresh
  memory contained.\<close>

theorem bitStore_copy:
  assumes "bs_ok this" and "bs_ok other"
  shows "BitStore_copy mem this other = Some other"
  by (rule copy_eq [OF assms])

theorem bitStore_copy_witness:
  "BitStore_copy (\<lambda>_. 7) \<lparr>numBits = 64, lowerBits = 5, higherBits = None\<rparr>
     \<lparr>numBits = 128, lowerBits = 1, higherBits = Some [3]\<rparr> =
   Some \<lparr>numBits = 128, lowerBits = 1, higherBits = Some [3]\<rparr>"
  by (rule bitStore_copy) (simp_all add: bs_ok_def blocks_def)

text \<open>The copy without reallocation keeps the target's capacity: a bit within it is the source's bit
  where the source has one and clear otherwise.\<close>

theorem bitStore_copyThreadSafe:
  assumes "bs_ok this" and "bs_ok other"
  shows "\<exists>r. BitStore_copyThreadSafe this other = Some r \<and> bs_ok r \<and> numBits r = numBits this \<and>
    (\<forall>j < numBits this. BitStore_getBit r j = BitStore_getBit other j)"
proof -
  obtain r where r: "BitStore_copyThreadSafe this other = Some r" "bs_ok r" "numBits r = numBits this"
    "blocks r = take (length (blocks this)) (blocks other) @
      replicate (length (blocks this) - length (blocks other)) 0"
    using copyThreadSafe_blocks [OF assms] by metis
  have "BitStore_getBit r j = BitStore_getBit other j" if j: "j < numBits this" for j
  proof -
    have jt: "unat j div 64 < length (blocks this)" by (rule block_index(2) [OF assms(1) j])
    show ?thesis
    proof (cases "j < numBits other")
      case True
      have "unat j div 64 < length (blocks other)" by (rule block_index(2) [OF assms(2) True])
      then show ?thesis
        using jt j True by (simp add: getBit_blocks r assms(2) nth_append)
    next
      case False
      then have "unat (numBits other) \<le> unat j" by (simp add: word_less_nat_alt not_less)
      then have "length (blocks other) \<le> unat j div 64"
        using assms(2) by (simp add: bs_ok_def less_eq_div_iff_mult_less_eq mult.commute)
      then show ?thesis
        using jt j False by (simp add: getBit_blocks r assms(2) nth_append)
    qed
  qed
  with r show ?thesis by blast
qed

theorem bitStore_copyThreadSafe_witness:
  "\<exists>r. BitStore_copyThreadSafe \<lparr>numBits = 192, lowerBits = 5, higherBits = Some [9, 9]\<rparr>
     \<lparr>numBits = 128, lowerBits = 1, higherBits = Some [3]\<rparr> = Some r \<and>
     BitStore_getBit r 65 = Some True \<and> BitStore_getBit r 131 = Some False"
proof -
  let ?t = "\<lparr>numBits = 192, lowerBits = 5, higherBits = Some [9, 9]\<rparr> :: BitStore"
    and ?o = "\<lparr>numBits = 128, lowerBits = 1, higherBits = Some [3]\<rparr> :: BitStore"
  have "bs_ok ?t" "bs_ok ?o" by (simp_all add: bs_ok_def blocks_def)
  from bitStore_copyThreadSafe [OF this]
  obtain r where "BitStore_copyThreadSafe ?t ?o = Some r"
    and "\<forall>j < numBits ?t. BitStore_getBit r j = BitStore_getBit ?o j" by blast
  moreover have "BitStore_getBit ?o 65 = Some True" "BitStore_getBit ?o 131 = Some False"
    by code_simp+
  ultimately show ?thesis by (intro exI [of _ r]) simp
qed

text \<open>C22: A store that is counted, stored and deserialized into any other well-formed store is
  recovered, and preprocessing the same bytes skips exactly what deserializing consumes.\<close>

theorem bitStore_roundtrip:
  assumes "bs_ok bs" and "bs_ok this"
    and "BitStore_serialize \<lparr>s_data = None, s_length = 0\<rparr> bs = Some c" and "length d = unat (s_length c)"
  shows "\<exists>buf. BitStore_serialize \<lparr>s_data = Some d, s_length = 0\<rparr> bs =
        Some \<lparr>s_data = Some buf, s_length = s_length c\<rparr> \<and>
      BitStore_deserialize mem this buf \<lparr>d_pos = 0, d_length = of_nat (length d)\<rparr> =
        Done (bs, \<lparr>d_pos = of_nat (length d), d_length = 0\<rparr>) \<and>
      BitStore_deserializePreprocess buf \<lparr>d_pos = 0, d_length = of_nat (length d)\<rparr> =
        Done (0, \<lparr>d_pos = of_nat (length d), d_length = 0\<rparr>)"
proof -
  have cod: "codec BitStore_serialize bs_enc bs_ok (BitStore_deserialize mem this)"
    by (rule bitStore_codec [OF assms(2)])
  have ser: "serializer BitStore_serialize bs_enc bs_ok" using cod by (rule codec.axioms)
  have lt: "length (bs_enc bs) < 2 ^ 32" by (rule length_bs_enc [OF assms(1)])
  have c: "s_length c = of_nat (length (bs_enc bs))"
    using assms(3) serializer.count_pass [OF ser assms(1), of 0] by auto
  then have len: "length d = length (bs_enc bs)" using assms(4) unat_of_nat32 [OF lt] by simp
  have st: "BitStore_serialize \<lparr>s_data = Some d, s_length = 0\<rparr> bs =
      Some \<lparr>s_data = Some (bs_enc bs), s_length = s_length c\<rparr>"
    using serializer.store_pass [OF ser assms(1), of 0 d] len lt c by simp
  have lt64: "length (bs_enc bs) < 2 ^ 64" using lt by simp
  note w = whole_buffer [OF lt64]
  have v: "view (bs_enc bs) \<lparr>d_pos = 0, d_length = of_nat (length (bs_enc bs))\<rparr> = bs_enc bs @ []"
    using w(2) by simp
  show ?thesis
    using st readsD [OF reads_bitStore [OF assms(2,1), of mem] w(1) v]
      preprocess_bitStore [OF w(1) assms(1) v]
    by (intro exI [of _ "bs_enc bs"]) (simp add: len advance_def)
qed

theorem bitStore_roundtrip_witness:
  "\<exists>buf. BitStore_serialize \<lparr>s_data = Some (replicate 24 0), s_length = 0\<rparr>
        \<lparr>numBits = 128, lowerBits = 1, higherBits = Some [3]\<rparr> =
        Some \<lparr>s_data = Some buf, s_length = 24\<rparr> \<and>
      BitStore_deserialize (\<lambda>_. 0) (BitStore_init 0 True) buf \<lparr>d_pos = 0, d_length = 24\<rparr> =
        Done (\<lparr>numBits = 128, lowerBits = 1, higherBits = Some [3]\<rparr>, \<lparr>d_pos = 24, d_length = 0\<rparr>)"
proof -
  let ?bs = "\<lparr>numBits = 128, lowerBits = 1, higherBits = Some [3]\<rparr> :: BitStore"
  have ok: "bs_ok ?bs" "bs_ok (BitStore_init 0 True)"
    by (simp_all add: bs_ok_def blocks_def BitStore_init_def BITSTORE_BLOCK_BIT_COUNT_def)
  have "BitStore_serialize \<lparr>s_data = None, s_length = 0\<rparr> ?bs = Some \<lparr>s_data = None, s_length = 24\<rparr>"
    by code_simp
  from bitStore_roundtrip [OF ok this, of "replicate 24 0" "\<lambda>_. 0"] show ?thesis by auto
qed

end
