(* ===== verification/Strings.thy ===== *)
theory Strings
  imports SerialLists
begin

text \<open>
  \<^verbatim>\<open>common/toolkit/StringTk\<close>: splitting and trimming of configuration strings. A C string is the memory from its
  first character on, \<open>mem\<close>: the characters, the terminating zero and whatever follows. A read outside
  that memory, an allocation whose size wraps, and a loop that does not end are all \<^const>\<open>None\<close>. Numeric
  conversion and formatting call kernel functions and are left out.
\<close>

section \<open>Reading C strings\<close>

definition readAt :: "byte list \<Rightarrow> int \<Rightarrow> byte option" where
  "readAt mem i = (if 0 \<le> i \<and> nat i < length mem then Some (mem ! nat i) else None)"

text \<open>\<^verbatim>\<open>strchr\<close>: the offset of the first occurrence, or \<open>Some None\<close> if the string ends before one.\<close>

fun c_strchr :: "byte list \<Rightarrow> byte \<Rightarrow> nat option option" where
  "c_strchr [] c = None"
| "c_strchr (b # bs) c =
     (if b = c then Some (Some 0) else if b = 0 then Some None else map_option (map_option Suc) (c_strchr bs c))"

definition cstr :: "byte list \<Rightarrow> byte list" where
  "cstr mem = takeWhile (\<lambda>c. c \<noteq> 0) mem"

definition StringTk_hasLength :: "byte list \<Rightarrow> bool option" where
  "StringTk_hasLength s = map_option (\<lambda>c. c \<noteq> 0) (readAt s 0)"

text \<open>The characters before the terminator that is added; \<^verbatim>\<open>numChars+1\<close> is an \<^verbatim>\<open>unsigned\<close> and may wrap.\<close>

definition StringTk_subStr :: "byte list \<Rightarrow> u32 \<Rightarrow> byte list option" where
  "StringTk_subStr start numChars =
     (if numChars + 1 = 0 \<or> length start < unat numChars then None
      else Some (take (unat numChars) start))"

section \<open>Splitting\<close>

partial_function (option) explodeLoop ::
    "byte list \<Rightarrow> byte \<Rightarrow> int \<Rightarrow> int \<Rightarrow> byte list list \<Rightarrow> byte list list option" where
  "explodeLoop s delimiter sLen lastPos outList = do {
     findRes \<leftarrow> c_strchr (drop (nat (lastPos + 1)) s) delimiter;
     (case findRes of
        None \<Rightarrow>
          (let restLen = sLen - (lastPos + 1) in
           if restLen \<noteq> 0 then do {
             newElem \<leftarrow> StringTk_subStr (drop (nat (lastPos + 1)) s) (word_of_int restLen);
             Some (outList @ [cstr newElem]) }
           else Some outList)
      | Some offset \<Rightarrow>
          (let currentPos = lastPos + 1 + int offset; newElemLen = currentPos - lastPos - 1 in do {
             outList \<leftarrow>
               (if newElemLen \<noteq> 0 then do {
                  newElem \<leftarrow> StringTk_subStr (drop (nat (lastPos + 1)) s) (word_of_int newElemLen);
                  Some (outList @ [cstr newElem]) }
                else Some outList);
             explodeLoop s delimiter sLen currentPos outList })) }"

definition StringTk_explode :: "byte list \<Rightarrow> byte \<Rightarrow> byte list list \<Rightarrow> byte list list option" where
  "StringTk_explode s delimiter outList = do {
     n \<leftarrow> strlen_of s;
     first \<leftarrow> readAt s 0;
     explodeLoop s delimiter (int n) (if n \<noteq> 0 \<and> first = delimiter then 0 else -1) outList }"

section \<open>Trimming\<close>

definition isBlank :: "byte \<Rightarrow> bool" where
  "isBlank c \<longleftrightarrow> c = 32 \<or> c = 10 \<or> c = 13 \<or> c = 9"

partial_function (option) trimLeft :: "byte list \<Rightarrow> int \<Rightarrow> int \<Rightarrow> int option" where
  "trimLeft s sLen firstLeft =
     (if firstLeft < sLen then do {
        c \<leftarrow> readAt s firstLeft;
        if isBlank c then trimLeft s sLen (firstLeft + 1) else Some firstLeft }
      else Some firstLeft)"

partial_function (option) trimRight :: "byte list \<Rightarrow> int \<Rightarrow> int option" where
  "trimRight s lastRight = do {
     c \<leftarrow> readAt s lastRight;
     if isBlank c then trimRight s (lastRight - 1) else Some lastRight }"

text \<open>The length is an \<^verbatim>\<open>int\<close>.\<close>

definition StringTk_trimCopy :: "byte list \<Rightarrow> byte list option" where
  "StringTk_trimCopy s = do {
     n \<leftarrow> strlen_of s;
     let sLen = sint (of_nat n :: u32);
     firstLeft \<leftarrow> trimLeft s sLen 0;
     if firstLeft = sLen then Some []
     else do {
       lastRight \<leftarrow> trimRight s (sLen - 1);
       StringTk_subStr (drop (nat firstLeft) s) (word_of_int (lastRight - firstLeft + 1)) } }"

section \<open>What the loops compute\<close>

text \<open>The pieces between delimiters, empty ones included.\<close>

fun pieces :: "'a \<Rightarrow> 'a list \<Rightarrow> 'a list list" where
  "pieces d [] = [[]]"
| "pieces d (x # xs) =
     (if x = d then [] # pieces d xs
      else (case pieces d xs of p # ps \<Rightarrow> (x # p) # ps | [] \<Rightarrow> [[x]]))"

lemma pieces_nonempty [simp]: "pieces d xs \<noteq> []"
  by (induction xs) (auto split: list.split)

lemma pieces_none: "d \<notin> set xs \<Longrightarrow> pieces d xs = [xs]"
  by (induction xs) auto

lemma pieces_split: "d \<notin> set xs \<Longrightarrow> pieces d (xs @ d # ys) = xs # pieces d ys"
  by (induction xs) auto

lemma strlen_of_cstr: "0 \<notin> set s \<Longrightarrow> strlen_of (s @ 0 # junk) = Some (length s)"
  by (induction s) auto

lemma c_strchr_found: "0 \<notin> set xs \<Longrightarrow> d \<notin> set xs \<Longrightarrow> c_strchr (xs @ d # ys) d = Some (Some (length xs))"
  by (induction xs) auto

lemma c_strchr_end: "0 \<notin> set xs \<Longrightarrow> d \<notin> set xs \<Longrightarrow> d \<noteq> 0 \<Longrightarrow> c_strchr (xs @ 0 # ys) d = Some None"
  by (induction xs) auto

lemma subStr_prefix:
  assumes "length xs < 2 ^ 32 - 1"
  shows "StringTk_subStr (xs @ ys) (word_of_int (int (length xs))) = Some xs"
proof -
  have u: "unat (of_nat (length xs) :: u32) = length xs" using assms by (simp add: unat_of_nat32)
  have "unat (of_nat (Suc (length xs)) :: u32) = Suc (length xs)" by (rule unat_of_nat32) (use assms in simp)
  then have "(of_nat (Suc (length xs)) :: u32) \<noteq> 0" by (metis nat.distinct(1) unat_0)
  then have "(of_nat (length xs) :: u32) + 1 \<noteq> 0" by (simp add: add.commute)
  then show ?thesis using u by (simp add: StringTk_subStr_def)
qed

lemma cstr_id: "0 \<notin> set xs \<Longrightarrow> cstr xs = xs"
  unfolding cstr_def by (rule takeWhile_eq_all_conv [THEN iffD2]) auto

lemma explodeLoop_pieces:
  assumes d: "d \<noteq> 0" and nz: "0 \<notin> set s" and len: "length s < 2 ^ 32 - 1"
  shows "s = pre @ rest \<Longrightarrow>
    explodeLoop (s @ 0 # junk) d (int (length s)) (int (length pre) - 1) out
      = Some (out @ filter (\<lambda>p. p \<noteq> []) (pieces d rest))"
proof (induction rest arbitrary: pre out rule: length_induct)
  case (1 rest)
  have mem: "drop (nat (int (length pre) - 1 + 1)) (s @ 0 # junk) = rest @ 0 # junk" using "1.prems" by simp
  have nz': "0 \<notin> set rest" using nz "1.prems" by simp
  show ?case
  proof (cases "d \<in> set rest")
    case False
    have "length rest < 2 ^ 32 - 1" using len "1.prems" by simp
    note sub = subStr_prefix [OF this, of "0 # junk"]
    have l: "int (length s) - (int (length pre) - 1 + 1) = int (length rest)" using "1.prems" by simp
    show ?thesis
      by (subst explodeLoop.simps)
        (use False in \<open>simp only: mem c_strchr_end [OF nz' False d] l Let_def sub; simp add: cstr_id [OF nz'] pieces_none\<close>)
  next
    case True
    then obtain xs ys where xs: "rest = xs @ d # ys" "d \<notin> set xs" by (meson split_list_first)
    have nx: "0 \<notin> set xs" using nz' xs by simp
    have lx: "length xs < 2 ^ 32 - 1" using len "1.prems" xs by simp
    have l: "int (length pre) - 1 + 1 + int (length xs) - (int (length pre) - 1) - 1 = int (length xs)" by simp
    have p: "int (length pre) - 1 + 1 + int (length xs) = int (length (pre @ xs @ [d])) - 1" by simp
    have IH: "explodeLoop (s @ 0 # junk) d (int (length s)) (int (length (pre @ xs @ [d])) - 1) out'
        = Some (out' @ filter (\<lambda>p. p \<noteq> []) (pieces d ys))" for out'
      by (rule "1.IH" [rule_format]) (simp_all add: xs(1) "1.prems")
    have m: "rest @ 0 # junk = xs @ d # (ys @ 0 # junk)" using xs by simp
    show ?thesis
      unfolding xs(1) pieces_split [OF xs(2)]
      by (subst explodeLoop.simps)
        (simp only: mem m c_strchr_found [OF nx xs(2)] Let_def l subStr_prefix [OF lx] bind.bind_lunit option.case;
          use IH [of "out @ [xs]"] IH [of out] in \<open>auto simp: cstr_id [OF nx]\<close>)
  qed
qed

text \<open>C30: Splitting a string ends for every string and every delimiter other than the terminator, without a read
  outside the string, and appends to the list exactly the non-empty pieces between delimiters, in order; the
  special treatment of a delimiter at the first position changes nothing.\<close>

theorem explode_terminates:
  assumes "d \<noteq> 0" "0 \<notin> set s" "length s < 2 ^ 32 - 1"
  shows "StringTk_explode (s @ 0 # junk) d out = Some (out @ filter (\<lambda>p. p \<noteq> []) (pieces d s))"
proof (cases s)
  case Nil
  then show ?thesis
    using explodeLoop_pieces [OF assms, of "[]" s junk out] by (simp add: StringTk_explode_def readAt_def)
next
  case (Cons x xs)
  have start: "StringTk_explode (s @ 0 # junk) d out =
      explodeLoop (s @ 0 # junk) d (int (length s)) (if x = d then 0 else -1) out"
    using Cons strlen_of_cstr [OF assms(2), of junk] by (simp add: StringTk_explode_def readAt_def)
  show ?thesis
    using explodeLoop_pieces [OF assms, of "[x]" xs junk out] explodeLoop_pieces [OF assms, of "[]" s junk out]
    unfolding start by (cases "x = d") (simp_all add: Cons)
qed

theorem explode_terminates_witness:
  "StringTk_explode [44, 97, 44, 44, 98, 99, 0, 7] 44 [[120]] = Some [[120], [97], [98, 99]]"
  using explode_terminates [of 44 "[44, 97, 44, 44, 98, 99]" "[7]" "[[120]]"] by simp

lemma trimLeft_blanks:
  assumes "\<forall>c \<in> set xs. isBlank c" "ys = [] \<or> \<not> isBlank (hd ys)"
  shows "trimLeft (pre @ xs @ ys @ 0 # junk) (int (length (pre @ xs @ ys))) (int (length pre)) = Some (int (length (pre @ xs)))"
  using assms(1)
proof (induction xs arbitrary: pre)
  case Nil
  then show ?case
    using assms(2) by (subst trimLeft.simps) (cases ys; simp add: readAt_def nth_append)
next
  case (Cons x xs)
  have "trimLeft ((pre @ [x]) @ xs @ ys @ 0 # junk) (int (length ((pre @ [x]) @ xs @ ys))) (int (length (pre @ [x])))
      = Some (int (length ((pre @ [x]) @ xs)))"
    by (rule Cons.IH) (use Cons.prems in simp)
  then show ?case
    using Cons.prems by (subst trimLeft.simps) (simp add: readAt_def nth_append add.commute)
qed

lemma trimRight_blanks:
  assumes "\<not> isBlank y"
  shows "\<forall>c \<in> set zs. isBlank c \<Longrightarrow>
    trimRight (pre @ y # zs @ tl0) (int (length pre + length zs)) = Some (int (length pre))"
proof (induction zs arbitrary: tl0 rule: rev_induct)
  case Nil
  then show ?case using assms by (subst trimRight.simps) (simp add: readAt_def nth_append)
next
  case (snoc z zs)
  have "trimRight (pre @ y # zs @ (z # tl0)) (int (length pre + length zs)) = Some (int (length pre))"
    using snoc by simp
  moreover have "readAt (pre @ y # zs @ z # tl0) (int (length pre + length zs) + 1) = Some z"
    by (simp add: readAt_def nth_append nat_add_distrib)
  ultimately show ?case
    using snoc.prems by (subst trimRight.simps) (simp add: add.commute add.left_commute)
qed

definition trimmed :: "byte list \<Rightarrow> byte list" where
  "trimmed s = rev (dropWhile isBlank (rev (dropWhile isBlank s)))"

lemma trim_cases:
  obtains (blank) "\<forall>c \<in> set s. isBlank c" "trimmed s = []"
  | (core) xs y ys zs where "s = xs @ rev ys @ y # zs" "\<forall>c \<in> set xs. isBlank c" "\<forall>c \<in> set zs. isBlank c"
      "\<not> isBlank y" "\<not> isBlank (hd (rev ys @ [y]))" "trimmed s = rev ys @ [y]"
proof (cases "\<forall>c \<in> set s. isBlank c")
  case True
  then have e: "dropWhile isBlank s = []" by (simp add: dropWhile_eq_Nil_conv)
  have "trimmed s = []" unfolding trimmed_def e by simp
  with True show ?thesis by (rule blank)
next
  case False
  let ?m = "dropWhile isBlank s" and ?r = "rev (dropWhile isBlank s)"
  have m: "?m \<noteq> []" "\<not> isBlank (hd ?m)" using False by (auto simp: dropWhile_eq_Nil_conv hd_dropWhile)
  then have "\<not> (\<forall>c \<in> set ?r. isBlank c)" by (metis hd_in_set set_rev)
  then have r: "dropWhile isBlank ?r \<noteq> []" by (simp add: dropWhile_eq_Nil_conv)
  then obtain y ys where y: "dropWhile isBlank ?r = y # ys" by (cases "dropWhile isBlank ?r") auto
  have "takeWhile isBlank ?r @ y # ys = ?r" unfolding y [symmetric] by (rule takeWhile_dropWhile_id)
  then have "rev (takeWhile isBlank ?r @ y # ys) = rev ?r" by (rule arg_cong)
  then have mm: "rev ys @ y # rev (takeWhile isBlank ?r) = ?m" by simp
  have s: "s = takeWhile isBlank s @ rev ys @ y # rev (takeWhile isBlank ?r)"
    unfolding mm by (rule takeWhile_dropWhile_id [symmetric])
  show ?thesis
  proof (rule core [OF s])
    show "\<forall>c \<in> set (takeWhile isBlank s). isBlank c" "\<forall>c \<in> set (rev (takeWhile isBlank ?r)). isBlank c"
      by (auto dest: set_takeWhileD)
    show "\<not> isBlank y" using hd_dropWhile [OF r] y by simp
    show "\<not> isBlank (hd (rev ys @ [y]))" using m(2) arg_cong [OF mm, of hd] by (cases "rev ys") simp_all
    show "trimmed s = rev ys @ [y]" by (simp add: trimmed_def y)
  qed
qed

text \<open>C33: Trimming ends for every string of less than two gigabytes: the unguarded loop from the right meets a
  non-blank character before it leaves the string, and the result is the string without its leading and
  trailing blanks.\<close>

theorem trimCopy_terminates:
  assumes nz: "0 \<notin> set s" and len: "length s < 2 ^ 31"
  shows "StringTk_trimCopy (s @ 0 # junk) = Some (trimmed s)"
proof -
  have sl: "sint (of_nat (length s) :: u32) = int (length s)"
    using len by (simp add: signed_of_nat signed_take_bit_int_eq_self)
  show ?thesis
  proof (cases rule: trim_cases [of s])
    case blank
    show ?thesis
      using trimLeft_blanks [OF blank(1), of "[]" "[]" junk] blank(2)
      by (simp add: StringTk_trimCopy_def strlen_of_cstr [OF nz] sl Let_def)
  next
    case (core xs y ys zs)
    let ?mid = "rev ys @ [y]"
    have left: "trimLeft (s @ 0 # junk) (int (length s)) 0 = Some (int (length xs))"
      using trimLeft_blanks [OF core(2), of "rev ys @ y # zs" "[]" junk] core(1,5)
      by (cases "rev ys") (simp_all add: core(1))
    have right: "trimRight (s @ 0 # junk) (int (length s) - 1) = Some (int (length xs + length ys))"
      using trimRight_blanks [OF core(4,3), of "xs @ rev ys" "0 # junk"] by (simp add: core(1) algebra_simps)
    have "length ?mid < 2 ^ 32 - 1" using len core(1) by simp
    from subStr_prefix [OF this, of "zs @ 0 # junk"]
    have sub: "StringTk_subStr (drop (nat (int (length xs))) (s @ 0 # junk))
        (word_of_int (int (length xs + length ys) - int (length xs) + 1)) = Some ?mid"
      by (simp add: core(1) add.commute)
    have "int (length xs) \<noteq> int (length s)" using core(1) by simp
    then show ?thesis
      unfolding StringTk_trimCopy_def strlen_of_cstr [OF nz] Option.bind.bind_lunit Let_def sl left right sub core(6)
      by simp
  qed
qed

theorem trimCopy_terminates_witness: "StringTk_trimCopy [32, 97, 32, 98, 9, 10, 0] = Some [97, 32, 98]"
  using trimCopy_terminates [of "[32, 97, 32, 98, 9, 10]" "[]"] by (simp add: trimmed_def isBlank_def)

end
