(* ===== verification/NodeTypes.thy ===== *)
theory NodeTypes
  imports SerdesLists
begin

text \<open>
  The small records of \<^verbatim>\<open>common/Types.h\<close>, \<^verbatim>\<open>common/nodes/NumNodeID\<close> and
  \<^verbatim>\<open>common/storage/StoragePoolId\<close>, with the serializers the SERDES macros generate for them: a
  serializer stores the fields in order, a deserializer stops at the first field it cannot read.
  Enum fields hold whatever byte was received, so enums are bytes with named values.
\<close>

section \<open>Records and their serializers\<close>

record NumNodeID =
  nn_value :: u32

definition NumNodeID_isZero :: "NumNodeID \<Rightarrow> bool" where
  "NumNodeID_isZero this \<longleftrightarrow> nn_value this = 0"

definition NumNodeID_compare :: "NumNodeID \<Rightarrow> NumNodeID \<Rightarrow> bool" where
  "NumNodeID_compare this other \<longleftrightarrow> nn_value this = nn_value other"

definition NumNodeID_serialize :: "SerializeCtx \<Rightarrow> NumNodeID \<Rightarrow> SerializeCtx option" where
  "NumNodeID_serialize ctx this = Serialization_serializeUInt ctx (nn_value this)"

definition NumNodeID_deserialize ::
    "byte list \<Rightarrow> DeserializeCtx \<Rightarrow> (NumNodeID \<times> DeserializeCtx) dres" where
  "NumNodeID_deserialize buf ctx =
     dbind (Serialization_deserializeUInt buf ctx) (\<lambda>(v, ctx). Done (\<lparr>nn_value = v\<rparr>, ctx))"

record StoragePoolId =
  sp_value :: u16

definition StoragePoolId_compare :: "StoragePoolId \<Rightarrow> StoragePoolId \<Rightarrow> bool" where
  "StoragePoolId_compare this other \<longleftrightarrow> sp_value this = sp_value other"

definition StoragePoolId_serialize :: "SerializeCtx \<Rightarrow> StoragePoolId \<Rightarrow> SerializeCtx option" where
  "StoragePoolId_serialize ctx this = Serialization_serializeUShort ctx (sp_value this)"

definition StoragePoolId_deserialize ::
    "byte list \<Rightarrow> DeserializeCtx \<Rightarrow> (StoragePoolId \<times> DeserializeCtx) dres" where
  "StoragePoolId_deserialize buf ctx =
     dbind (Serialization_deserializeUShort buf ctx) (\<lambda>(v, ctx). Done (\<lparr>sp_value = v\<rparr>, ctx))"

type_synonym TargetReachabilityState = byte

definition TargetReachabilityState_ONLINE :: TargetReachabilityState where
  "TargetReachabilityState_ONLINE = 0"

definition TargetReachabilityState_POFFLINE :: TargetReachabilityState where
  "TargetReachabilityState_POFFLINE = 1"

definition TargetReachabilityState_OFFLINE :: TargetReachabilityState where
  "TargetReachabilityState_OFFLINE = 2"

definition TargetReachabilityState_serialize ::
    "SerializeCtx \<Rightarrow> TargetReachabilityState \<Rightarrow> SerializeCtx option" where
  "TargetReachabilityState_serialize = Serialization_serializeUInt8"

definition TargetReachabilityState_deserialize ::
    "byte list \<Rightarrow> DeserializeCtx \<Rightarrow> (TargetReachabilityState \<times> DeserializeCtx) dres" where
  "TargetReachabilityState_deserialize = Serialization_deserializeUInt8"

type_synonym TargetConsistencyState = byte

definition TargetConsistencyState_GOOD :: TargetConsistencyState where
  "TargetConsistencyState_GOOD = 0"

definition TargetConsistencyState_NEEDS_RESYNC :: TargetConsistencyState where
  "TargetConsistencyState_NEEDS_RESYNC = 1"

definition TargetConsistencyState_BAD :: TargetConsistencyState where
  "TargetConsistencyState_BAD = 2"

definition TargetConsistencyState_serialize ::
    "SerializeCtx \<Rightarrow> TargetConsistencyState \<Rightarrow> SerializeCtx option" where
  "TargetConsistencyState_serialize = Serialization_serializeUInt8"

definition TargetConsistencyState_deserialize ::
    "byte list \<Rightarrow> DeserializeCtx \<Rightarrow> (TargetConsistencyState \<times> DeserializeCtx) dres" where
  "TargetConsistencyState_deserialize = Serialization_deserializeUInt8"

record CombinedTargetState =
  reachabilityState :: TargetReachabilityState
  consistencyState :: TargetConsistencyState

record TargetStateInfo =
  si_targetID :: u16
  si_state :: CombinedTargetState

record TargetMapping =
  tm_targetID :: u16
  tm_nodeID :: NumNodeID

definition TargetMapping_serialize :: "SerializeCtx \<Rightarrow> TargetMapping \<Rightarrow> SerializeCtx option" where
  "TargetMapping_serialize ctx value = do {
     ctx \<leftarrow> Serialization_serializeUShort ctx (tm_targetID value);
     NumNodeID_serialize ctx (tm_nodeID value) }"

definition TargetMapping_deserialize ::
    "byte list \<Rightarrow> DeserializeCtx \<Rightarrow> (TargetMapping \<times> DeserializeCtx) dres" where
  "TargetMapping_deserialize buf ctx =
     dbind (Serialization_deserializeUShort buf ctx) (\<lambda>(t, ctx).
       dbind (NumNodeID_deserialize buf ctx) (\<lambda>(n, ctx).
         Done (\<lparr>tm_targetID = t, tm_nodeID = n\<rparr>, ctx)))"

record TargetPoolMapping =
  tp_targetID :: u16
  tp_poolID :: StoragePoolId

definition TargetPoolMapping_serialize ::
    "SerializeCtx \<Rightarrow> TargetPoolMapping \<Rightarrow> SerializeCtx option" where
  "TargetPoolMapping_serialize ctx value = do {
     ctx \<leftarrow> Serialization_serializeUShort ctx (tp_targetID value);
     StoragePoolId_serialize ctx (tp_poolID value) }"

definition TargetPoolMapping_deserialize ::
    "byte list \<Rightarrow> DeserializeCtx \<Rightarrow> (TargetPoolMapping \<times> DeserializeCtx) dres" where
  "TargetPoolMapping_deserialize buf ctx =
     dbind (Serialization_deserializeUShort buf ctx) (\<lambda>(t, ctx).
       dbind (StoragePoolId_deserialize buf ctx) (\<lambda>(p, ctx).
         Done (\<lparr>tp_targetID = t, tp_poolID = p\<rparr>, ctx)))"

record BuddyGroupMapping =
  bg_groupID :: u16
  bg_primaryTargetID :: u16
  bg_secondaryTargetID :: u16

definition BuddyGroupMapping_serialize ::
    "SerializeCtx \<Rightarrow> BuddyGroupMapping \<Rightarrow> SerializeCtx option" where
  "BuddyGroupMapping_serialize ctx value = do {
     ctx \<leftarrow> Serialization_serializeUShort ctx (bg_groupID value);
     ctx \<leftarrow> Serialization_serializeUShort ctx (bg_primaryTargetID value);
     Serialization_serializeUShort ctx (bg_secondaryTargetID value) }"

definition BuddyGroupMapping_deserialize ::
    "byte list \<Rightarrow> DeserializeCtx \<Rightarrow> (BuddyGroupMapping \<times> DeserializeCtx) dres" where
  "BuddyGroupMapping_deserialize buf ctx =
     dbind (Serialization_deserializeUShort buf ctx) (\<lambda>(g, ctx).
       dbind (Serialization_deserializeUShort buf ctx) (\<lambda>(p, ctx).
         dbind (Serialization_deserializeUShort buf ctx) (\<lambda>(s, ctx).
           Done (\<lparr>bg_groupID = g, bg_primaryTargetID = p, bg_secondaryTargetID = s\<rparr>, ctx))))"

record TargetStateMapping =
  ts_targetID :: u16
  ts_reachabilityState :: TargetReachabilityState
  ts_consistencyState :: TargetConsistencyState

definition TargetStateMapping_serialize ::
    "SerializeCtx \<Rightarrow> TargetStateMapping \<Rightarrow> SerializeCtx option" where
  "TargetStateMapping_serialize ctx value = do {
     ctx \<leftarrow> Serialization_serializeUShort ctx (ts_targetID value);
     ctx \<leftarrow> TargetReachabilityState_serialize ctx (ts_reachabilityState value);
     TargetConsistencyState_serialize ctx (ts_consistencyState value) }"

definition TargetStateMapping_deserialize ::
    "byte list \<Rightarrow> DeserializeCtx \<Rightarrow> (TargetStateMapping \<times> DeserializeCtx) dres" where
  "TargetStateMapping_deserialize buf ctx =
     dbind (Serialization_deserializeUShort buf ctx) (\<lambda>(t, ctx).
       dbind (TargetReachabilityState_deserialize buf ctx) (\<lambda>(r, ctx).
         dbind (TargetConsistencyState_deserialize buf ctx) (\<lambda>(c, ctx).
           Done (\<lparr>ts_targetID = t, ts_reachabilityState = r, ts_consistencyState = c\<rparr>, ctx))))"

text \<open>The list functions; all four lists have no total length field.\<close>

definition TargetMappingList_serialize ::
    "SerializeCtx \<Rightarrow> TargetMapping list \<Rightarrow> SerializeCtx option" where
  "TargetMappingList_serialize = SERDES_listSerialize False TargetMapping_serialize"

definition TargetMappingList_deserialize ::
    "(nat \<Rightarrow> bool) \<Rightarrow> TargetMapping list \<Rightarrow> byte list \<Rightarrow> DeserializeCtx \<Rightarrow>
     (TargetMapping list \<times> DeserializeCtx) dres" where
  "TargetMappingList_deserialize alloc = SERDES_listDeserialize False alloc TargetMapping_deserialize"

definition TargetPoolMappingList_serialize ::
    "SerializeCtx \<Rightarrow> TargetPoolMapping list \<Rightarrow> SerializeCtx option" where
  "TargetPoolMappingList_serialize = SERDES_listSerialize False TargetPoolMapping_serialize"

definition TargetPoolMappingList_deserialize ::
    "(nat \<Rightarrow> bool) \<Rightarrow> TargetPoolMapping list \<Rightarrow> byte list \<Rightarrow> DeserializeCtx \<Rightarrow>
     (TargetPoolMapping list \<times> DeserializeCtx) dres" where
  "TargetPoolMappingList_deserialize alloc =
     SERDES_listDeserialize False alloc TargetPoolMapping_deserialize"

definition BuddyGroupMappingList_serialize ::
    "SerializeCtx \<Rightarrow> BuddyGroupMapping list \<Rightarrow> SerializeCtx option" where
  "BuddyGroupMappingList_serialize = SERDES_listSerialize False BuddyGroupMapping_serialize"

definition BuddyGroupMappingList_deserialize ::
    "(nat \<Rightarrow> bool) \<Rightarrow> BuddyGroupMapping list \<Rightarrow> byte list \<Rightarrow> DeserializeCtx \<Rightarrow>
     (BuddyGroupMapping list \<times> DeserializeCtx) dres" where
  "BuddyGroupMappingList_deserialize alloc =
     SERDES_listDeserialize False alloc BuddyGroupMapping_deserialize"

definition TargetStateMappingList_serialize ::
    "SerializeCtx \<Rightarrow> TargetStateMapping list \<Rightarrow> SerializeCtx option" where
  "TargetStateMappingList_serialize = SERDES_listSerialize False TargetStateMapping_serialize"

definition TargetStateMappingList_deserialize ::
    "(nat \<Rightarrow> bool) \<Rightarrow> TargetStateMapping list \<Rightarrow> byte list \<Rightarrow> DeserializeCtx \<Rightarrow>
     (TargetStateMapping list \<times> DeserializeCtx) dres" where
  "TargetStateMappingList_deserialize alloc =
     SERDES_listDeserialize False alloc TargetStateMapping_deserialize"

section \<open>Wire formats\<close>

interpretation NumNodeID: wire_type NumNodeID_serialize "\<lambda>n. le_bytes 4 (nn_value n)" "\<lambda>_. True"
    NumNodeID_deserialize
proof (intro wire_type.intro codec.intro codec_axioms.intro serializer.intro)
  show "emits (\<lambda>ctx. NumNodeID_serialize ctx x) (le_bytes 4 (nn_value x))" for x
    unfolding NumNodeID_serialize_def by (rule UInt.ser_emits) simp
  show "reads NumNodeID_deserialize (le_bytes 4 (nn_value x)) x" for x
    unfolding NumNodeID_deserialize_def [abs_def] by (rule reads_map [OF UInt.dec_reads]) simp_all
  show "decoder NumNodeID_deserialize"
    unfolding NumNodeID_deserialize_def [abs_def] by (rule decoder_bind) auto
qed

interpretation StoragePoolId: wire_type StoragePoolId_serialize "\<lambda>p. le_bytes 2 (sp_value p)"
    "\<lambda>_. True" StoragePoolId_deserialize
proof (intro wire_type.intro codec.intro codec_axioms.intro serializer.intro)
  show "emits (\<lambda>ctx. StoragePoolId_serialize ctx x) (le_bytes 2 (sp_value x))" for x
    unfolding StoragePoolId_serialize_def by (rule UShort.ser_emits) simp
  show "reads StoragePoolId_deserialize (le_bytes 2 (sp_value x)) x" for x
    unfolding StoragePoolId_deserialize_def [abs_def] by (rule reads_map [OF UShort.dec_reads]) simp_all
  show "decoder StoragePoolId_deserialize"
    unfolding StoragePoolId_deserialize_def [abs_def] by (rule decoder_bind) auto
qed

definition tm_enc :: "TargetMapping \<Rightarrow> byte list" where
  "tm_enc m = le_bytes 2 (tm_targetID m) @ le_bytes 4 (nn_value (tm_nodeID m))"

definition tp_enc :: "TargetPoolMapping \<Rightarrow> byte list" where
  "tp_enc m = le_bytes 2 (tp_targetID m) @ le_bytes 2 (sp_value (tp_poolID m))"

definition bg_enc :: "BuddyGroupMapping \<Rightarrow> byte list" where
  "bg_enc m = le_bytes 2 (bg_groupID m) @ le_bytes 2 (bg_primaryTargetID m) @
     le_bytes 2 (bg_secondaryTargetID m)"

definition ts_enc :: "TargetStateMapping \<Rightarrow> byte list" where
  "ts_enc m = le_bytes 2 (ts_targetID m) @ [ts_reachabilityState m] @ [ts_consistencyState m]"

lemmas node_decoders [intro!] = NumNodeID.decoder_axioms StoragePoolId.decoder_axioms

interpretation TargetMapping: wire_type TargetMapping_serialize tm_enc "\<lambda>_. True"
    TargetMapping_deserialize
proof (intro wire_type.intro codec.intro codec_axioms.intro serializer.intro)
  fix x
  show "emits (\<lambda>ctx. TargetMapping_serialize ctx x) (tm_enc x)"
    unfolding TargetMapping_serialize_def tm_enc_def
    by (intro emits_bind UShort.ser_emits NumNodeID.ser_emits TrueI)
  show "reads TargetMapping_deserialize (tm_enc x) x"
    unfolding TargetMapping_deserialize_def [abs_def] tm_enc_def
    by (intro reads_bind [OF UShort.dec_reads] reads_map [OF NumNodeID.dec_reads]) simp_all
  show "decoder TargetMapping_deserialize"
    unfolding TargetMapping_deserialize_def [abs_def] by (intro decoder_bind) auto
qed

interpretation TargetPoolMapping: wire_type TargetPoolMapping_serialize tp_enc "\<lambda>_. True"
    TargetPoolMapping_deserialize
proof (intro wire_type.intro codec.intro codec_axioms.intro serializer.intro)
  fix x
  show "emits (\<lambda>ctx. TargetPoolMapping_serialize ctx x) (tp_enc x)"
    unfolding TargetPoolMapping_serialize_def tp_enc_def
    by (intro emits_bind UShort.ser_emits StoragePoolId.ser_emits TrueI)
  show "reads TargetPoolMapping_deserialize (tp_enc x) x"
    unfolding TargetPoolMapping_deserialize_def [abs_def] tp_enc_def
    by (intro reads_bind [OF UShort.dec_reads] reads_map [OF StoragePoolId.dec_reads]) simp_all
  show "decoder TargetPoolMapping_deserialize"
    unfolding TargetPoolMapping_deserialize_def [abs_def] by (intro decoder_bind) auto
qed

interpretation BuddyGroupMapping: wire_type BuddyGroupMapping_serialize bg_enc "\<lambda>_. True"
    BuddyGroupMapping_deserialize
proof (intro wire_type.intro codec.intro codec_axioms.intro serializer.intro)
  fix x
  show "emits (\<lambda>ctx. BuddyGroupMapping_serialize ctx x) (bg_enc x)"
    unfolding BuddyGroupMapping_serialize_def bg_enc_def
    by (intro emits_bind UShort.ser_emits TrueI)
  show "reads BuddyGroupMapping_deserialize (bg_enc x) x"
    unfolding BuddyGroupMapping_deserialize_def [abs_def] bg_enc_def
    by (intro reads_bind [OF UShort.dec_reads] reads_map [OF UShort.dec_reads]) simp_all
  show "decoder BuddyGroupMapping_deserialize"
    unfolding BuddyGroupMapping_deserialize_def [abs_def] by (intro decoder_bind) auto
qed

interpretation TargetStateMapping: wire_type TargetStateMapping_serialize ts_enc "\<lambda>_. True"
    TargetStateMapping_deserialize
proof (intro wire_type.intro codec.intro codec_axioms.intro serializer.intro)
  fix x
  show "emits (\<lambda>ctx. TargetStateMapping_serialize ctx x) (ts_enc x)"
    unfolding TargetStateMapping_serialize_def ts_enc_def TargetReachabilityState_serialize_def
      TargetConsistencyState_serialize_def
    by (intro emits_bind UShort.ser_emits UInt8.ser_emits TrueI)
  show "reads TargetStateMapping_deserialize (ts_enc x) x"
    unfolding TargetStateMapping_deserialize_def [abs_def] ts_enc_def
      TargetReachabilityState_deserialize_def TargetConsistencyState_deserialize_def
    by (intro reads_bind [OF UShort.dec_reads] reads_bind [OF UInt8.dec_reads]
        reads_map [OF UInt8.dec_reads]) simp_all
  show "decoder TargetStateMapping_deserialize"
    unfolding TargetStateMapping_deserialize_def [abs_def] TargetReachabilityState_deserialize_def
      TargetConsistencyState_deserialize_def by (intro decoder_bind) auto
qed

text \<open>The list formats follow from the element formats.\<close>

lemmas serdes_wire_types =
  wire_type_serdesList [OF TargetMapping.wire_type_axioms, of False]
  wire_type_serdesList [OF TargetPoolMapping.wire_type_axioms, of False]
  wire_type_serdesList [OF BuddyGroupMapping.wire_type_axioms, of False]
  wire_type_serdesList [OF TargetStateMapping.wire_type_axioms, of False]

interpretation TargetMappingList: wire_type TargetMappingList_serialize "serdes_enc False tm_enc"
    "\<lambda>xs. 8 + 6 * length xs < 2 ^ 32" "TargetMappingList_deserialize (\<lambda>_. True) []"
proof -
  have "(\<lambda>xs :: TargetMapping list. 8 + 6 * length xs < 2 ^ 32) =
      (\<lambda>xs. (\<forall>x \<in> set xs. True) \<and> length xs < 2 ^ 32 \<and> 8 + length (concat (map tm_enc xs)) < 2 ^ 32)"
    by (auto simp: fun_eq_iff length_concat comp_def tm_enc_def sum_list_triv)
  then show "wire_type TargetMappingList_serialize (serdes_enc False tm_enc)
      (\<lambda>xs. 8 + 6 * length xs < 2 ^ 32) (TargetMappingList_deserialize (\<lambda>_. True) [])"
    using serdes_wire_types(1)
    by (simp add: TargetMappingList_serialize_def TargetMappingList_deserialize_def)
qed

interpretation TargetStateMappingList: wire_type TargetStateMappingList_serialize
    "serdes_enc False ts_enc" "\<lambda>xs. 8 + 4 * length xs < 2 ^ 32"
    "TargetStateMappingList_deserialize (\<lambda>_. True) []"
proof -
  have "(\<lambda>xs :: TargetStateMapping list. 8 + 4 * length xs < 2 ^ 32) =
      (\<lambda>xs. (\<forall>x \<in> set xs. True) \<and> length xs < 2 ^ 32 \<and> 8 + length (concat (map ts_enc xs)) < 2 ^ 32)"
    by (auto simp: fun_eq_iff length_concat comp_def ts_enc_def sum_list_triv)
  then show "wire_type TargetStateMappingList_serialize (serdes_enc False ts_enc)
      (\<lambda>xs. 8 + 4 * length xs < 2 ^ 32) (TargetStateMappingList_deserialize (\<lambda>_. True) [])"
    using serdes_wire_types(4)
    by (simp add: TargetStateMappingList_serialize_def TargetStateMappingList_deserialize_def)
qed

section \<open>Properties\<close>

text \<open>A list of target mappings that is counted, stored and read back is appended unchanged, when
  its elements can be allocated.\<close>

theorem targetMappingList_roundtrip:
  assumes "8 + 6 * length xs < 2 ^ 32"
    and "TargetMappingList_serialize \<lparr>s_data = None, s_length = 0\<rparr> xs = Some c"
    and "length d = unat (s_length c)"
  shows "\<exists>buf. TargetMappingList_serialize \<lparr>s_data = Some d, s_length = 0\<rparr> xs =
        Some \<lparr>s_data = Some buf, s_length = s_length c\<rparr> \<and> length buf = length d
    \<and> TargetMappingList_deserialize (\<lambda>_. True) [] buf \<lparr>d_pos = 0, d_length = of_nat (length d)\<rparr>
      = Done (xs, \<lparr>d_pos = of_nat (length d), d_length = 0\<rparr>)"
  using assms
  by (intro TargetMappingList.two_pass_roundtrip)
    (simp_all add: serdes_enc_def length_concat comp_def tm_enc_def sum_list_triv)

theorem targetMappingList_roundtrip_witness:
  "let xs = [\<lparr>tm_targetID = 7, tm_nodeID = \<lparr>nn_value = 9\<rparr>\<rparr>] in
   \<exists>buf. TargetMappingList_serialize \<lparr>s_data = Some (replicate 10 0), s_length = 0\<rparr> xs =
        Some \<lparr>s_data = Some buf, s_length = 10\<rparr>
    \<and> TargetMappingList_deserialize (\<lambda>_. True) [] buf \<lparr>d_pos = 0, d_length = 10\<rparr>
      = Done (xs, \<lparr>d_pos = 10, d_length = 0\<rparr>)"
proof -
  let ?xs = "[\<lparr>tm_targetID = 7, tm_nodeID = \<lparr>nn_value = 9\<rparr>\<rparr>]"
  have "TargetMappingList_serialize \<lparr>s_data = None, s_length = 0\<rparr> ?xs =
      Some \<lparr>s_data = None, s_length = 10\<rparr>" by code_simp
  from targetMappingList_roundtrip [OF _ this, of "replicate 10 0"] show ?thesis
    by (auto simp: Let_def)
qed

text \<open>C31: Reading any of the mapping lists from arbitrary bytes, with allocations failing at will, stays
  inside the buffer.\<close>

theorem mapping_lists_safe:
  assumes "ctx_ok buf ctx"
  shows "TargetMappingList_deserialize alloc ms buf ctx \<noteq> Overrun
    \<and> TargetPoolMappingList_deserialize alloc ps buf ctx \<noteq> Overrun
    \<and> BuddyGroupMappingList_deserialize alloc gs buf ctx \<noteq> Overrun
    \<and> TargetStateMappingList_deserialize alloc ss buf ctx \<noteq> Overrun"
  using assms decoder.in_bounds [OF decoder_serdesList [OF TargetMapping.decoder_axioms]]
    decoder.in_bounds [OF decoder_serdesList [OF TargetPoolMapping.decoder_axioms]]
    decoder.in_bounds [OF decoder_serdesList [OF BuddyGroupMapping.decoder_axioms]]
    decoder.in_bounds [OF decoder_serdesList [OF TargetStateMapping.decoder_axioms]]
  by (simp add: TargetMappingList_deserialize_def TargetPoolMappingList_deserialize_def
      BuddyGroupMappingList_deserialize_def TargetStateMappingList_deserialize_def)

theorem mapping_lists_safe_witness:
  "TargetMappingList_deserialize (\<lambda>_. True) [] [255, 255, 255, 255, 1, 0] \<lparr>d_pos = 0, d_length = 6\<rparr> \<noteq> Overrun"
  using mapping_lists_safe [of "[255, 255, 255, 255, 1, 0]" "\<lparr>d_pos = 0, d_length = 6\<rparr>"]
  by (simp add: ctx_ok_def)

end
