(* ===== verification/StorageTypes.thy ===== *)
theory StorageTypes
  imports NodeTypes
begin

text \<open>
  \<^verbatim>\<open>common/storage/EntryInfo\<close>, \<^verbatim>\<open>PathInfo\<close>, \<^verbatim>\<open>StatData\<close> and \<^verbatim>\<open>FileEvent\<close>: what requests and responses say
  about files. Strings are the characters before the terminator. A pointer into a receive buffer
  is represented by the characters it points to; the buffer is not modified while a message is
  read.
\<close>

section \<open>Strings of received messages\<close>

text \<open>
  The length field and the C string at the pointer, which may end before the length says: only the
  byte after the last character is checked.
\<close>

definition cstrOf :: "byte list \<Rightarrow> u32 \<times> u64 \<Rightarrow> byte list" where
  "cstrOf buf s = takeWhile (\<lambda>c. c \<noteq> 0) (strOf buf s)"

definition recvStr :: "byte list \<Rightarrow> DeserializeCtx \<Rightarrow> ((u32 \<times> byte list) \<times> DeserializeCtx) dres" where
  "recvStr buf ctx =
     dbind (Serialization_deserializeStr buf ctx) (\<lambda>(s, ctx). Done ((fst s, cstrOf buf s), ctx))"

definition recvStrAlign4 :: "byte list \<Rightarrow> DeserializeCtx \<Rightarrow> ((u32 \<times> byte list) \<times> DeserializeCtx) dres" where
  "recvStrAlign4 buf ctx =
     dbind (Serialization_deserializeStrAlign4 buf ctx) (\<lambda>(s, ctx). Done ((fst s, cstrOf buf s), ctx))"

section \<open>EntryInfo\<close>

abbreviation (input) "ENTRYINFO_FEATURE_BUDDYMIRRORED \<equiv> (2 :: u32)"
abbreviation (input) "MIN_ENTRY_ID_LEN \<equiv> (1 :: u32)"
abbreviation (input) "DirEntryType_DIRECTORY \<equiv> (1 :: u32)"

text \<open>The union of a node and a group is one 32 bit number.\<close>

record NodeOrGroup =
  ng_value :: u32
  ng_isGroup :: bool

definition NodeOrGroup_fromNode :: "NumNodeID \<Rightarrow> NodeOrGroup" where
  "NodeOrGroup_fromNode node = \<lparr>ng_value = nn_value node, ng_isGroup = False\<rparr>"

definition NodeOrGroup_fromGroup :: "u32 \<Rightarrow> NodeOrGroup" where
  "NodeOrGroup_fromGroup groupID = \<lparr>ng_value = groupID, ng_isGroup = True\<rparr>"

definition NodeOrGroup_valid :: "NodeOrGroup \<Rightarrow> bool" where
  "NodeOrGroup_valid owner \<longleftrightarrow> ng_value owner \<noteq> 0"

record EntryInfo =
  ei_owner :: NodeOrGroup
  ei_parentEntryID :: "byte list"
  ei_entryID :: "byte list"
  ei_fileName :: "byte list"
  ei_entryType :: u32
  ei_featureFlags :: u32

definition EntryInfo_init ::
    "NodeOrGroup \<Rightarrow> byte list \<Rightarrow> byte list \<Rightarrow> byte list \<Rightarrow> u32 \<Rightarrow> u32 \<Rightarrow> EntryInfo" where
  "EntryInfo_init owner parentEntryID entryID fileName entryType featureFlags =
     \<lparr>ei_owner = owner, ei_parentEntryID = parentEntryID, ei_entryID = entryID, ei_fileName = fileName,
      ei_entryType = entryType,
      ei_featureFlags = featureFlags OR (if ng_isGroup owner then ENTRYINFO_FEATURE_BUDDYMIRRORED else 0)\<rparr>"

definition EntryInfo_update :: "EntryInfo \<Rightarrow> EntryInfo \<Rightarrow> EntryInfo" where
  "EntryInfo_update this newEntryInfo =
     (let this = this\<lparr>ei_parentEntryID := ei_parentEntryID newEntryInfo,
                      ei_fileName := ei_fileName newEntryInfo,
                      ei_featureFlags := ei_featureFlags newEntryInfo\<rparr>
      in if ei_entryType this \<noteq> DirEntryType_DIRECTORY
         then this\<lparr>ei_owner := ei_owner newEntryInfo\<rparr> else this)"

definition EntryInfo_updateParentEntryID :: "EntryInfo \<Rightarrow> byte list \<Rightarrow> EntryInfo" where
  "EntryInfo_updateParentEntryID this newParentID = this\<lparr>ei_parentEntryID := newParentID\<rparr>"

definition EntryInfo_updateSetParentEntryID :: "EntryInfo \<Rightarrow> byte list \<Rightarrow> EntryInfo" where
  "EntryInfo_updateSetParentEntryID this newParentID = this\<lparr>ei_parentEntryID := newParentID\<rparr>"

definition EntryInfo_updateFileName :: "EntryInfo \<Rightarrow> byte list \<Rightarrow> EntryInfo" where
  "EntryInfo_updateFileName this newFileName = this\<lparr>ei_fileName := newFileName\<rparr>"

definition EntryInfo_getIsBuddyMirrored :: "EntryInfo \<Rightarrow> bool" where
  "EntryInfo_getIsBuddyMirrored this \<longleftrightarrow> ei_featureFlags this AND ENTRYINFO_FEATURE_BUDDYMIRRORED \<noteq> 0"

definition EntryInfo_getOwner :: "EntryInfo \<Rightarrow> u32" where
  "EntryInfo_getOwner this = ng_value (ei_owner this)"

definition EntryInfo_serialize :: "SerializeCtx \<Rightarrow> EntryInfo \<Rightarrow> SerializeCtx option" where
  "EntryInfo_serialize ctx this = do {
     ctx \<leftarrow> Serialization_serializeUInt ctx (ei_entryType this);
     ctx \<leftarrow> Serialization_serializeInt ctx (ei_featureFlags this);
     ctx \<leftarrow> Serialization_serializeStrAlign4 ctx (of_nat (length (ei_parentEntryID this))) (ei_parentEntryID this);
     ctx \<leftarrow> Serialization_serializeStrAlign4 ctx (of_nat (length (ei_entryID this))) (ei_entryID this);
     ctx \<leftarrow> Serialization_serializeStrAlign4 ctx (of_nat (length (ei_fileName this))) (ei_fileName this);
     ctx \<leftarrow> NumNodeID_serialize ctx \<lparr>nn_value = ng_value (ei_owner this)\<rparr>;
     Serialization_serializeUShort ctx 0 }"

definition EntryInfo_deserialize ::
    "byte list \<Rightarrow> DeserializeCtx \<Rightarrow> (EntryInfo \<times> DeserializeCtx) dres" where
  "EntryInfo_deserialize buf ctx =
     dbind (Serialization_deserializeUInt buf ctx) (\<lambda>(entryType, ctx).
     dbind (Serialization_deserializeInt buf ctx) (\<lambda>(featureFlags, ctx).
     dbind (recvStrAlign4 buf ctx) (\<lambda>((parentEntryIDLen, parentEntryID), ctx).
     dbind (recvStrAlign4 buf ctx) (\<lambda>((entryIDLen, entryID), ctx).
     dbind (recvStrAlign4 buf ctx) (\<lambda>((_, fileName), ctx).
     dbind (NumNodeID_deserialize buf ctx) (\<lambda>(node, ctx).
     dbind (Serialization_deserializeUShort buf ctx) (\<lambda>(_, ctx).
     if parentEntryIDLen < MIN_ENTRY_ID_LEN \<and> parentEntryIDLen > 0 then Refused
     else if entryIDLen < MIN_ENTRY_ID_LEN then Refused
     else Done (\<lparr>ei_owner = \<lparr>ng_value = nn_value node,
                             ng_isGroup = (featureFlags AND ENTRYINFO_FEATURE_BUDDYMIRRORED \<noteq> 0)\<rparr>,
                 ei_parentEntryID = parentEntryID, ei_entryID = entryID, ei_fileName = fileName,
                 ei_entryType = entryType, ei_featureFlags = featureFlags\<rparr>, ctx))))))))"

section \<open>PathInfo\<close>

abbreviation (input) "PATHINFO_FEATURE_ORIG \<equiv> (1 :: u32)"

text \<open>\<^const>\<open>None\<close> is the null pointer.\<close>

record PathInfo =
  pi_flags :: u32
  pi_origParentUID :: u32
  pi_origParentEntryID :: "byte list option"

definition PathInfo_init :: "u32 \<Rightarrow> byte list option \<Rightarrow> u32 \<Rightarrow> PathInfo" where
  "PathInfo_init origParentUID origParentEntryID flags =
     \<lparr>pi_flags = flags, pi_origParentUID = origParentUID, pi_origParentEntryID = origParentEntryID\<rparr>"

definition PathInfo_dup :: "PathInfo \<Rightarrow> PathInfo" where
  "PathInfo_dup inPathInfo =
     PathInfo_init (pi_origParentUID inPathInfo)
       (if pi_flags inPathInfo AND PATHINFO_FEATURE_ORIG \<noteq> 0 then pi_origParentEntryID inPathInfo else None)
       (pi_flags inPathInfo)"

definition PathInfo_update :: "PathInfo \<Rightarrow> PathInfo \<Rightarrow> PathInfo" where
  "PathInfo_update this newPathInfo =
     (let needUpdate =
        (if pi_flags this \<noteq> pi_flags newPathInfo then True
         else if pi_origParentUID this \<noteq> pi_origParentUID newPathInfo then True
         else case (pi_origParentEntryID this, pi_origParentEntryID newPathInfo) of
                (Some a, Some b) \<Rightarrow> a \<noteq> b
              | _ \<Rightarrow> False)
      in if needUpdate then PathInfo_dup newPathInfo else this)"

definition PathInfo_serialize :: "SerializeCtx \<Rightarrow> PathInfo \<Rightarrow> SerializeCtx option" where
  "PathInfo_serialize ctx this = do {
     ctx \<leftarrow> Serialization_serializeUInt ctx (pi_flags this);
     if pi_flags this AND PATHINFO_FEATURE_ORIG \<noteq> 0 then do {
       ctx \<leftarrow> Serialization_serializeUInt ctx (pi_origParentUID this);
       origParentEntryID \<leftarrow> pi_origParentEntryID this;
       Serialization_serializeStrAlign4 ctx (of_nat (length origParentEntryID)) origParentEntryID }
     else Some ctx }"

definition PathInfo_deserialize ::
    "byte list \<Rightarrow> DeserializeCtx \<Rightarrow> (PathInfo \<times> DeserializeCtx) dres" where
  "PathInfo_deserialize buf ctx =
     dbind (Serialization_deserializeUInt buf ctx) (\<lambda>(flags, ctx).
     if flags AND PATHINFO_FEATURE_ORIG \<noteq> 0 then
       dbind (Serialization_deserializeUInt buf ctx) (\<lambda>(origParentUID, ctx).
       dbind (recvStrAlign4 buf ctx) (\<lambda>((_, origParentEntryID), ctx).
       Done (PathInfo_init origParentUID (Some origParentEntryID) flags, ctx)))
     else Done (PathInfo_init 0 None flags, ctx))"

section \<open>StatData\<close>

record SettableFileAttribs =
  fa_mode :: u32
  fa_userID :: u32
  fa_groupID :: u32
  fa_modificationTimeSecs :: u64
  fa_lastAccessTimeSecs :: u64

record StatData =
  st_flags :: u32
  st_fileSize :: u64
  st_numBlocks :: u64
  st_creationTimeSecs :: u64
  st_attribChangeTimeSecs :: u64
  st_nlink :: u32
  st_settableFileAttribs :: SettableFileAttribs
  st_contentsVersion :: u32

definition StatData_deserialize ::
    "byte list \<Rightarrow> DeserializeCtx \<Rightarrow> (StatData \<times> DeserializeCtx) dres" where
  "StatData_deserialize buf ctx =
     dbind (Serialization_deserializeUInt buf ctx) (\<lambda>(flags, ctx).
     dbind (Serialization_deserializeInt buf ctx) (\<lambda>(mode, ctx).
     dbind (Serialization_deserializeUInt64 buf ctx) (\<lambda>(numBlocks, ctx).
     dbind (Serialization_deserializeInt64 buf ctx) (\<lambda>(creationTime, ctx).
     dbind (Serialization_deserializeInt64 buf ctx) (\<lambda>(aTime, ctx).
     dbind (Serialization_deserializeInt64 buf ctx) (\<lambda>(mTime, ctx).
     dbind (Serialization_deserializeInt64 buf ctx) (\<lambda>(cTime, ctx).
     dbind (Serialization_deserializeInt64 buf ctx) (\<lambda>(fileSize, ctx).
     dbind (Serialization_deserializeUInt buf ctx) (\<lambda>(nlink, ctx).
     dbind (Serialization_deserializeUInt buf ctx) (\<lambda>(contentsVersion, ctx).
     dbind (Serialization_deserializeUInt buf ctx) (\<lambda>(uid, ctx).
     dbind (Serialization_deserializeUInt buf ctx) (\<lambda>(gid, ctx).
     Done (\<lparr>st_flags = flags, st_fileSize = fileSize, st_numBlocks = numBlocks,
            st_creationTimeSecs = creationTime, st_attribChangeTimeSecs = cTime, st_nlink = nlink,
            st_settableFileAttribs = \<lparr>fa_mode = mode, fa_userID = uid, fa_groupID = gid,
              fa_modificationTimeSecs = mTime, fa_lastAccessTimeSecs = aTime\<rparr>,
            st_contentsVersion = contentsVersion\<rparr>, ctx)))))))))))))"

record fhgfs_stat =
  os_mode :: u32
  os_size :: u64
  os_blocks :: u64
  os_uid :: u32
  os_gid :: u32
  os_nlink :: u32
  os_atime :: "u64 \<times> u64"
  os_mtime :: "u64 \<times> u64"
  os_ctime :: "u64 \<times> u64"

definition StatData_getOsStat :: "StatData \<Rightarrow> fhgfs_stat" where
  "StatData_getOsStat this =
     (let fa = st_settableFileAttribs this in
      \<lparr>os_mode = fa_mode fa, os_size = st_fileSize this, os_blocks = st_numBlocks this,
       os_uid = fa_userID fa, os_gid = fa_groupID fa, os_nlink = st_nlink this,
       os_atime = (fa_lastAccessTimeSecs fa, 0), os_mtime = (fa_modificationTimeSecs fa, 0),
       os_ctime = (st_attribChangeTimeSecs this, 0)\<rparr>)"

section \<open>FileEvent\<close>

record FileEvent =
  fe_eventType :: u32
  fe_path :: "byte list option"
  fe_target :: "byte list option"

definition FileEvent_serialize :: "SerializeCtx \<Rightarrow> FileEvent \<Rightarrow> SerializeCtx option" where
  "FileEvent_serialize ctx event = do {
     ctx \<leftarrow> Serialization_serializeUInt ctx (fe_eventType event);
     ctx \<leftarrow> (case fe_path event of
              Some path \<Rightarrow> Serialization_serializeStr ctx (of_nat (length path)) path
            | None \<Rightarrow> Serialization_serializeStr ctx 0 []);
     ctx \<leftarrow> Serialization_serializeBool ctx (fe_target event \<noteq> None);
     (case fe_target event of
        Some target \<Rightarrow> Serialization_serializeStr ctx (of_nat (length target)) target
      | None \<Rightarrow> Some ctx) }"

section \<open>Wire formats\<close>

definition str_ok :: "byte list \<Rightarrow> bool" where
  "str_ok s \<longleftrightarrow> length s + 1 < 2 ^ 32 \<and> 0 \<notin> set s"

lemma cstrOf_eq: "strOf buf s = cs \<Longrightarrow> 0 \<notin> set cs \<Longrightarrow> cstrOf buf s = cs"
  unfolding cstrOf_def by (auto simp: takeWhile_eq_all_conv)

lemma reads_recvStr:
  assumes "str_ok s"
  shows "reads recvStr (str_enc s) (of_nat (length s), s)"
  unfolding reads_def
proof (intro allI impI)
  fix buf rest and ctx :: DeserializeCtx
  have len: "length s + 1 < 2 ^ 32" and nz: "0 \<notin> set s" using assms by (simp_all add: str_ok_def)
  assume ok: "ctx_ok buf ctx" and "view buf ctx = str_enc s @ rest"
  then have v: "view buf ctx = le_bytes 4 (of_nat (length s) :: u32) @ s @ 0 # rest"
    by (simp add: str_enc_def)
  note sv = str_view [OF ok v len]
  show "recvStr buf ctx = Done ((of_nat (length s), s), advance ctx (of_nat (length (str_enc s))))"
    using sv(1-4) cstrOf_eq [OF sv(5) nz]
    by (simp add: recvStr_def Serialization_deserializeStr_def str_enc_def advance_advance not_less)
qed

lemma reads_recvStrAlign4:
  assumes "str_ok s"
  shows "reads_before (align4_slack s) recvStrAlign4 (strAlign4_enc s) (of_nat (length s), s)"
  unfolding reads_before_def
proof (intro allI impI)
  fix buf rest and ctx :: DeserializeCtx
  have len: "length s + 1 < 2 ^ 32" and nz: "0 \<notin> set s" using assms by (simp_all add: str_ok_def)
  assume ok: "ctx_ok buf ctx" and v: "view buf ctx = strAlign4_enc s @ rest" and sl: "align4_slack s \<le> length rest"
  have "readStrAlign4 buf ctx = Done (s, advance ctx (of_nat (length (strAlign4_enc s))))"
    using reads_strAlign4 [OF len] ok v sl unfolding reads_before_def by blast
  then obtain r where r: "Serialization_deserializeStrAlign4 buf ctx =
      Done (r, advance ctx (of_nat (length (strAlign4_enc s))))" and s: "strOf buf r = s"
    by (auto simp: readStrAlign4_def dbind_eq_Done)
  have v': "view buf ctx = str_enc s @ replicate (align4_pad (length s + 1)) 0 @ rest"
    using v by (simp add: strAlign4_enc_def)
  have "fst r = of_nat (length s)"
    using r unfolding strAlign4_after(4) [OF ok v' len] by (auto simp: Let_def split: if_splits)
  then show "recvStrAlign4 buf ctx =
      Done ((of_nat (length s), s), advance ctx (of_nat (length (strAlign4_enc s))))"
    using cstrOf_eq [OF s nz] by (simp add: recvStrAlign4_def r)
qed

lemma reads_bind2:
  assumes "reads_before k f a (x, x')" and "reads_before m (g x x') b y" and "k \<le> length b + m"
  shows "reads_before m (\<lambda>buf ctx. dbind (f buf ctx) (\<lambda>((x, x'), ctx). g x x' buf ctx)) (a @ b) y"
  using reads_bind [OF assms(1), of m "\<lambda>(x, x'). g x x'" b y] assms(2,3)
  by (simp add: split_def)

text \<open>A last field after which the whole record is checked.\<close>

lemma reads_last:
  assumes "reads_before k f a x" and "\<And>buf ctx. g x buf ctx = Done (y, ctx)"
  shows "reads_before k (\<lambda>buf ctx. dbind (f buf ctx) (\<lambda>(x, ctx). g x buf ctx)) a y"
  using assms by (fastforce simp: reads_before_def)

lemma align4_slack_le: "align4_slack s \<le> 2"
  by (simp add: align4_slack_def)

lemma strAlign4_enc_ge: "2 \<le> length (strAlign4_enc s)"
  by (simp add: strAlign4_enc_def str_enc_def)

lemma emits_strs:
  assumes "str_ok s"
  shows "emits (\<lambda>ctx. Serialization_serializeStr ctx (of_nat (length s)) s) (str_enc s)"
    and "emits (\<lambda>ctx. Serialization_serializeStrAlign4 ctx (of_nat (length s)) s) (strAlign4_enc s)"
  using assms by (auto simp: str_ok_def intro!: emits_str emits_strAlign4)

definition ei_enc :: "EntryInfo \<Rightarrow> byte list" where
  "ei_enc e = le_bytes 4 (ei_entryType e) @ le_bytes 4 (ei_featureFlags e) @
     strAlign4_enc (ei_parentEntryID e) @ strAlign4_enc (ei_entryID e) @ strAlign4_enc (ei_fileName e) @
     le_bytes 4 (ng_value (ei_owner e)) @ le_bytes 2 (0 :: u16)"

text \<open>Entries the client works with: an owner that agrees with the mirroring flag and an entry ID.\<close>

definition ei_ok :: "EntryInfo \<Rightarrow> bool" where
  "ei_ok e \<longleftrightarrow> str_ok (ei_parentEntryID e) \<and> str_ok (ei_entryID e) \<and> str_ok (ei_fileName e) \<and>
     ei_entryID e \<noteq> [] \<and> ng_isGroup (ei_owner e) = EntryInfo_getIsBuddyMirrored e"

lemma emits_entryInfo: "ei_ok e \<Longrightarrow> emits (\<lambda>ctx. EntryInfo_serialize ctx e) (ei_enc e)"
proof -
  assume "ei_ok e"
  moreover have "emits (\<lambda>ctx. NumNodeID_serialize ctx \<lparr>nn_value = v\<rparr>) (le_bytes 4 v)" for v
    using NumNodeID.ser_emits [of "\<lparr>nn_value = v\<rparr>"] by simp
  ultimately show ?thesis
    unfolding EntryInfo_serialize_def ei_enc_def Serialization_serializeInt_def
    by (intro emits_bind UInt.ser_emits UShort.ser_emits emits_strs) (simp_all add: ei_ok_def)
qed

lemma length_word_pos: "str_ok s \<Longrightarrow> s \<noteq> [] \<Longrightarrow> (of_nat (length s) :: u32) \<noteq> 0"
  unfolding word_unat_eq_iff str_ok_def by (simp add: unat_of_nat32)

lemma reads_entryInfo:
  assumes ok: "ei_ok e"
  shows "reads EntryInfo_deserialize (ei_enc e) e"
proof -
  have strs: "str_ok (ei_parentEntryID e)" "str_ok (ei_entryID e)" "str_ok (ei_fileName e)"
    using ok by (simp_all add: ei_ok_def)
  have nodeid: "reads NumNodeID_deserialize (le_bytes 4 (ng_value (ei_owner e))) \<lparr>nn_value = ng_value (ei_owner e)\<rparr>"
    using NumNodeID.dec_reads [of "\<lparr>nn_value = ng_value (ei_owner e)\<rparr>"] by simp
  have nz: "(of_nat (length (ei_entryID e)) :: u32) \<noteq> 0"
    using ok strs(2) length_word_pos by (simp add: ei_ok_def)
  have small: "\<not> ((n :: u32) < 1 \<and> n > 0)" for n by (auto simp: word_less_nat_alt)
  have e: "e = \<lparr>ei_owner = \<lparr>ng_value = ng_value (ei_owner e),
      ng_isGroup = (ei_featureFlags e AND ENTRYINFO_FEATURE_BUDDYMIRRORED \<noteq> 0)\<rparr>,
      ei_parentEntryID = ei_parentEntryID e, ei_entryID = ei_entryID e, ei_fileName = ei_fileName e,
      ei_entryType = ei_entryType e, ei_featureFlags = ei_featureFlags e\<rparr>"
    using ok by (simp add: ei_ok_def EntryInfo_getIsBuddyMirrored_def)
  have slack: "align4_slack s \<le> length (strAlign4_enc t @ bs) + k" "align4_slack s \<le> length (le_bytes 4 v @ bs) + k"
    for s t k bs and v :: u32
    using align4_slack_le [of s] strAlign4_enc_ge [of t] by simp_all
  show ?thesis
    unfolding EntryInfo_deserialize_def [abs_def] ei_enc_def Serialization_deserializeInt_def
    by (intro reads_bind [OF UInt.dec_reads] reads_bind2 [OF reads_recvStrAlign4] reads_bind [OF nodeid]
        reads_last [OF UShort.dec_reads] slack strs) (simp_all add: nz small e [symmetric])
qed

lemma length_entryInfo: "length (ei_enc e) = 14 + length (strAlign4_enc (ei_parentEntryID e)) +
    length (strAlign4_enc (ei_entryID e)) + length (strAlign4_enc (ei_fileName e))"
  by (simp add: ei_enc_def)

interpretation EntryInfo: codec EntryInfo_serialize ei_enc ei_ok EntryInfo_deserialize
  by (intro codec.intro serializer.intro codec_axioms.intro emits_entryInfo reads_entryInfo)

definition pi_ok :: "PathInfo \<Rightarrow> bool" where
  "pi_ok p \<longleftrightarrow> (if pi_flags p AND PATHINFO_FEATURE_ORIG \<noteq> 0
     then \<exists>s. pi_origParentEntryID p = Some s \<and> str_ok s
     else pi_origParentEntryID p = None \<and> pi_origParentUID p = 0)"

definition pi_enc :: "PathInfo \<Rightarrow> byte list" where
  "pi_enc p = le_bytes 4 (pi_flags p) @
     (case pi_origParentEntryID p of None \<Rightarrow> [] | Some s \<Rightarrow> le_bytes 4 (pi_origParentUID p) @ strAlign4_enc s)"

lemma emits_pathInfo:
  assumes "pi_ok p"
  shows "emits (\<lambda>ctx. PathInfo_serialize ctx p) (pi_enc p)"
proof (cases "pi_flags p AND PATHINFO_FEATURE_ORIG \<noteq> 0")
  case True
  then obtain s where s: "pi_origParentEntryID p = Some s" "str_ok s" using assms by (auto simp: pi_ok_def)
  show ?thesis
    unfolding PathInfo_serialize_def pi_enc_def s option.case using True s(2)
    by (simp only: if_True bind.bind_lunit not_False_eq_True) (intro emits_bind UInt.ser_emits emits_strs TrueI)
next
  case False
  then have "pi_origParentEntryID p = None" using assms by (simp add: pi_ok_def)
  then show ?thesis
    unfolding PathInfo_serialize_def pi_enc_def using False
    by (simp only: if_False option.case not_False_eq_True) (intro emits_bind UInt.ser_emits emits_return TrueI)
qed

lemma reads_pathInfo:
  assumes "pi_ok p"
  shows "reads_before 2 PathInfo_deserialize (pi_enc p) p"
proof (cases "pi_flags p AND PATHINFO_FEATURE_ORIG \<noteq> 0")
  case True
  then obtain s where s: "pi_origParentEntryID p = Some s" "str_ok s" using assms by (auto simp: pi_ok_def)
  have str: "reads_before 2 recvStrAlign4 (strAlign4_enc s) (of_nat (length s), s)"
    by (rule reads_before_mono [OF reads_recvStrAlign4 [OF s(2)] align4_slack_le])
  have "reads_before 2 (\<lambda>buf ctx. dbind (recvStrAlign4 buf ctx) (\<lambda>((_, t), ctx).
      Done (PathInfo_init (pi_origParentUID p) (Some t) (pi_flags p), ctx))) (strAlign4_enc s @ []) p"
    by (intro reads_bind2 [OF str]) (simp_all add: s PathInfo_init_def reads_before_def)
  then have *: "reads_before 2 (\<lambda>buf ctx. dbind (Serialization_deserializeUInt buf ctx) (\<lambda>(u, ctx).
      dbind (recvStrAlign4 buf ctx) (\<lambda>((_, t), ctx). Done (PathInfo_init u (Some t) (pi_flags p), ctx))))
      (le_bytes 4 (pi_origParentUID p) @ strAlign4_enc s) p"
    by (intro reads_bind [OF UInt.dec_reads]) simp_all
  show ?thesis
    unfolding PathInfo_deserialize_def [abs_def] pi_enc_def s option.case
    by (intro reads_bind [OF UInt.dec_reads]) (use True * in simp_all)
next
  case False
  then have p: "pi_origParentEntryID p = None" "pi_origParentUID p = 0" using assms by (simp_all add: pi_ok_def)
  show ?thesis
    unfolding PathInfo_deserialize_def [abs_def] pi_enc_def p option.case
    by (intro reads_bind [OF UInt.dec_reads]) (use False p in \<open>simp_all add: PathInfo_init_def reads_before_def\<close>)
qed

interpretation PathInfo: serializer PathInfo_serialize pi_enc pi_ok
  by (intro serializer.intro emits_pathInfo)

lemma decoder_statData: "decoder StatData_deserialize"
  unfolding StatData_deserialize_def [abs_def] Serialization_deserializeInt_def Serialization_deserializeInt64_def
  by (intro decoder_bind decoder_return decoder_scalars)

definition fe_enc :: "FileEvent \<Rightarrow> byte list" where
  "fe_enc e = le_bytes 4 (fe_eventType e) @ str_enc (case fe_path e of Some p \<Rightarrow> p | None \<Rightarrow> []) @
     [if fe_target e \<noteq> None then 1 else 0] @ (case fe_target e of Some t \<Rightarrow> str_enc t | None \<Rightarrow> [])"

definition fe_ok :: "FileEvent \<Rightarrow> bool" where
  "fe_ok e \<longleftrightarrow> pred_option str_ok (fe_path e) \<and> pred_option str_ok (fe_target e)"

interpretation FileEvent: serializer FileEvent_serialize fe_enc fe_ok
proof
  fix e assume ok: "fe_ok e"
  have "emits (\<lambda>ctx. case fe_path e of Some path \<Rightarrow> Serialization_serializeStr ctx (of_nat (length path)) path
      | None \<Rightarrow> Serialization_serializeStr ctx 0 []) (str_enc (case fe_path e of Some p \<Rightarrow> p | None \<Rightarrow> []))"
    using ok emits_strs(1) [of "[]"] by (auto simp: fe_ok_def str_ok_def intro: emits_strs split: option.split)
  moreover have "emits (\<lambda>ctx. case fe_target e of
      Some target \<Rightarrow> Serialization_serializeStr ctx (of_nat (length target)) target
      | None \<Rightarrow> Some ctx) (case fe_target e of Some t \<Rightarrow> str_enc t | None \<Rightarrow> [])"
    using ok by (auto simp: fe_ok_def intro: emits_strs split: option.split)
  ultimately show "emits (\<lambda>ctx. FileEvent_serialize ctx e) (fe_enc e)"
    unfolding FileEvent_serialize_def fe_enc_def
    by (intro emits_bind UInt.ser_emits Bool.ser_emits TrueI)
qed

section \<open>Properties\<close>

text \<open>C34: What the client knows about an entry survives counting, storing and reading back: an entry whose mirroring flag agrees with its owner is recovered field by field, owner kind included, and the whole encoding is consumed although the aligned strings in it are read with the wrong padding test.\<close>

theorem entryInfo_roundtrip:
  assumes "ei_ok e" and "length (ei_enc e) < 2 ^ 32"
    and "EntryInfo_serialize \<lparr>s_data = None, s_length = 0\<rparr> e = Some c" and "length d = unat (s_length c)"
  shows "\<exists>buf. EntryInfo_serialize \<lparr>s_data = Some d, s_length = 0\<rparr> e = Some \<lparr>s_data = Some buf, s_length = s_length c\<rparr>
    \<and> length buf = length d
    \<and> EntryInfo_deserialize buf \<lparr>d_pos = 0, d_length = of_nat (length d)\<rparr>
        = Done (e, \<lparr>d_pos = of_nat (length d), d_length = 0\<rparr>)"
  by (rule EntryInfo.two_pass_roundtrip [OF assms])

definition sampleEntry :: EntryInfo where
  "sampleEntry = EntryInfo_init \<lparr>ng_value = 7, ng_isGroup = True\<rparr> [114, 111, 111, 116] [65, 45] [102] 2 0"

theorem entryInfo_roundtrip_witness:
  "\<exists>buf. EntryInfo_serialize \<lparr>s_data = Some (replicate 42 0), s_length = 0\<rparr> sampleEntry
      = Some \<lparr>s_data = Some buf, s_length = 42\<rparr>
    \<and> EntryInfo_deserialize buf \<lparr>d_pos = 0, d_length = 42\<rparr> = Done (sampleEntry, \<lparr>d_pos = 42, d_length = 0\<rparr>)"
proof -
  have ok: "ei_ok sampleEntry"
    by (simp add: ei_ok_def sampleEntry_def EntryInfo_init_def EntryInfo_getIsBuddyMirrored_def str_ok_def)
  have count: "EntryInfo_serialize \<lparr>s_data = None, s_length = 0\<rparr> sampleEntry = Some \<lparr>s_data = None, s_length = 42\<rparr>"
    by code_simp
  have "length (ei_enc sampleEntry) = 42"
    by (simp add: length_entryInfo sampleEntry_def EntryInfo_init_def strAlign4_enc_def str_enc_def align4_pad_def)
  then show ?thesis
    using entryInfo_roundtrip [OF ok _ count, of "replicate 42 0"] by auto
qed

text \<open>C40: \<^verbatim>\<open>PathInfo_update\<close> compares before it copies, and its comparison is sufficient: for path infos whose original parent is present exactly when the flag says so, the updated info equals the new one in every field.\<close>

theorem pathInfo_update_eq:
  assumes "pi_ok p" "pi_ok q"
  shows "PathInfo_update p q = q"
  using assms
  by (cases p; cases q) (auto simp: pi_ok_def PathInfo_update_def PathInfo_dup_def PathInfo_init_def split: if_splits)

theorem pathInfo_update_eq_witness:
  "PathInfo_update \<lparr>pi_flags = 1, pi_origParentUID = 5, pi_origParentEntryID = Some [65]\<rparr>
     \<lparr>pi_flags = 1, pi_origParentUID = 5, pi_origParentEntryID = Some [66]\<rparr>
   = \<lparr>pi_flags = 1, pi_origParentUID = 5, pi_origParentEntryID = Some [66]\<rparr>"
  by (rule pathInfo_update_eq) (simp_all add: pi_ok_def str_ok_def)

end
