(* ===== verification/NetMessages.thy ===== *)
theory NetMessages
  imports StorageTypes
begin

text \<open>
  \<^verbatim>\<open>common/net/message/NetMessage\<close> and the simple message classes: the common header, and the two passes
  by which a message is counted and stored. A message carries the table of its class's functions;
  its remaining fields are the payload \<open>'p\<close>.
\<close>

section \<open>Headers and messages\<close>

abbreviation (input) "NETMSGTYPE_Invalid \<equiv> (0 :: u16)"
abbreviation (input) "NETMSG_HEADER_LENGTH \<equiv> (40 :: u64)"
abbreviation (input) "MSGHDRFLAG_BUDDYMIRROR_SECOND \<equiv> (1 :: byte)"
abbreviation (input) "MSGHDRFLAG_IS_SELECTIVE_ACK \<equiv> (2 :: byte)"
abbreviation (input) "MSGHDRFLAG_HAS_SEQUENCE_NO \<equiv> (4 :: byte)"

definition CONGFS_DATA_VERSION :: u32 where
  "CONGFS_DATA_VERSION = 0"

definition NETMSG_PREFIX :: u64 where
  "NETMSG_PREFIX = push_bit 32 0x42474653 + ucast CONGFS_DATA_VERSION"

record NetMessageHeader =
  msgLength :: u32
  msgFeatureFlags :: u16
  msgCompatFeatureFlags :: byte
  msgFlags :: byte
  msgType :: u16
  msgTargetID :: u16
  msgUserID :: u32
  msgSequence :: u64
  msgSequenceDone :: u64

record 'p NetMessageOps =
  serializePayload :: "NetMessageHeader \<Rightarrow> 'p \<Rightarrow> SerializeCtx \<Rightarrow> SerializeCtx option"
  deserializePayload :: "NetMessageHeader \<Rightarrow> 'p \<Rightarrow> byte list \<Rightarrow> DeserializeCtx \<Rightarrow> ('p \<times> DeserializeCtx) dres"
  getSupportedHeaderFeatureFlagsMask :: u32
  supportsSequenceNumbers :: bool

definition NetMessage_deserializeDummy ::
    "NetMessageHeader \<Rightarrow> 'p \<Rightarrow> byte list \<Rightarrow> DeserializeCtx \<Rightarrow> ('p \<times> DeserializeCtx) dres" where
  "NetMessage_deserializeDummy header p buf ctx = Done (p, ctx)"

definition NetMessage_serializeDummy :: "NetMessageHeader \<Rightarrow> 'p \<Rightarrow> SerializeCtx \<Rightarrow> SerializeCtx option" where
  "NetMessage_serializeDummy header p ctx = Some ctx"

record 'p NetMessage =
  msgHeader :: NetMessageHeader
  ops :: "'p NetMessageOps"
  msgPayload :: 'p

definition NetMessage_init :: "u32 \<Rightarrow> u16 \<Rightarrow> 'p NetMessageOps \<Rightarrow> 'p \<Rightarrow> 'p NetMessage" where
  "NetMessage_init currentUserID mtype mops p =
     \<lparr>msgHeader = \<lparr>msgLength = 0, msgFeatureFlags = 0, msgCompatFeatureFlags = 0, msgFlags = 0, msgType = mtype,
        msgTargetID = 0, msgUserID = currentUserID, msgSequence = 0, msgSequenceDone = 0\<rparr>,
      ops = mops, msgPayload = p\<rparr>"

definition NetMessage_getMsgType :: "'p NetMessage \<Rightarrow> u16" where
  "NetMessage_getMsgType this = msgType (msgHeader this)"

definition NetMessage_isMsgHeaderFeatureFlagSet :: "NetMessageHeader \<Rightarrow> u32 \<Rightarrow> bool" where
  "NetMessage_isMsgHeaderFeatureFlagSet header flag \<longleftrightarrow> ucast (msgFeatureFlags header) AND flag \<noteq> 0"

definition NetMessage_addMsgHeaderFeatureFlag :: "u32 \<Rightarrow> 'p NetMessage \<Rightarrow> 'p NetMessage" where
  "NetMessage_addMsgHeaderFeatureFlag flag this =
     this\<lparr>msgHeader := (msgHeader this)\<lparr>msgFeatureFlags := msgFeatureFlags (msgHeader this) OR ucast flag\<rparr>\<rparr>"

definition NetMessage_setMsgHeaderUserID :: "u32 \<Rightarrow> 'p NetMessage \<Rightarrow> 'p NetMessage" where
  "NetMessage_setMsgHeaderUserID userID this = this\<lparr>msgHeader := (msgHeader this)\<lparr>msgUserID := userID\<rparr>\<rparr>"

definition NetMessage_setMsgHeaderTargetID :: "u16 \<Rightarrow> 'p NetMessage \<Rightarrow> 'p NetMessage" where
  "NetMessage_setMsgHeaderTargetID targetID this = this\<lparr>msgHeader := (msgHeader this)\<lparr>msgTargetID := targetID\<rparr>\<rparr>"

definition NetMessage_setMsgType :: "u16 \<Rightarrow> 'p NetMessage \<Rightarrow> 'p NetMessage" where
  "NetMessage_setMsgType mtype this = this\<lparr>msgHeader := (msgHeader this)\<lparr>msgType := mtype\<rparr>\<rparr>"

definition NetMessage_checkHeaderFeatureFlagsCompat :: "'p NetMessage \<Rightarrow> bool" where
  "NetMessage_checkHeaderFeatureFlagsCompat this \<longleftrightarrow>
     ucast (msgFeatureFlags (msgHeader this)) AND NOT (getSupportedHeaderFeatureFlagsMask (ops this)) = 0"

section \<open>Counting and storing\<close>

text \<open>\<open>lengthField\<close> is zero while the length is being counted.\<close>

definition NetMessage_serializeHeader :: "NetMessageHeader \<Rightarrow> u32 \<Rightarrow> SerializeCtx \<Rightarrow> SerializeCtx option" where
  "NetMessage_serializeHeader header lengthField ctx = do {
     ctx \<leftarrow> Serialization_serializeUInt ctx lengthField;
     ctx \<leftarrow> Serialization_serializeUShort ctx (msgFeatureFlags header);
     ctx \<leftarrow> Serialization_serializeChar ctx (msgCompatFeatureFlags header);
     ctx \<leftarrow> Serialization_serializeChar ctx (msgFlags header);
     ctx \<leftarrow> Serialization_serializeUInt64 ctx NETMSG_PREFIX;
     ctx \<leftarrow> Serialization_serializeUShort ctx (msgType header);
     ctx \<leftarrow> Serialization_serializeUShort ctx (msgTargetID header);
     ctx \<leftarrow> Serialization_serializeUInt ctx (msgUserID header);
     ctx \<leftarrow> Serialization_serializeUInt64 ctx (msgSequence header);
     Serialization_serializeUInt64 ctx (msgSequenceDone header) }"

definition NetMessage_getMsgLength :: "'p NetMessage \<Rightarrow> (u32 \<times> 'p NetMessage) option" where
  "NetMessage_getMsgLength this =
     (if msgLength (msgHeader this) = 0
      then do {
        ctx \<leftarrow> NetMessage_serializeHeader (msgHeader this) 0 \<lparr>s_data = None, s_length = 0\<rparr>;
        ctx \<leftarrow> serializePayload (ops this) (msgHeader this) (msgPayload this) ctx;
        Some (s_length ctx, this\<lparr>msgHeader := (msgHeader this)\<lparr>msgLength := s_length ctx\<rparr>\<rparr>) }
      else Some (msgLength (msgHeader this), this))"

text \<open>The result, the buffer and the message; \<^const>\<open>None\<close> for a store outside the buffer.\<close>

definition NetMessage_serialize ::
    "'p NetMessage \<Rightarrow> byte list \<Rightarrow> u64 \<Rightarrow> (bool \<times> byte list \<times> 'p NetMessage) option" where
  "NetMessage_serialize this buf bufLen = do {
     (len, this) \<leftarrow> NetMessage_getMsgLength this;
     if bufLen < ucast len then Some (False, buf, this)
     else do {
       (len, this) \<leftarrow> NetMessage_getMsgLength this;
       ctx \<leftarrow> NetMessage_serializeHeader (msgHeader this) len \<lparr>s_data = Some buf, s_length = 0\<rparr>;
       ctx \<leftarrow> serializePayload (ops this) (msgHeader this) (msgPayload this) ctx;
       buf \<leftarrow> s_data ctx;
       Some (True, buf, this) } }"

section \<open>Reading the header\<close>

text \<open>A field whose reader's result is ignored: on refusal the variable keeps its value.\<close>

definition readInto ::
    "(byte list \<Rightarrow> DeserializeCtx \<Rightarrow> ('a \<times> DeserializeCtx) dres) \<Rightarrow> ('a \<Rightarrow> 'h \<Rightarrow> 'h) \<Rightarrow>
     byte list \<Rightarrow> 'h \<times> DeserializeCtx \<Rightarrow> ('h \<times> DeserializeCtx) dres" where
  "readInto dec upd buf = (\<lambda>(h, ctx).
     case dec buf ctx of
       Done (x, ctx) \<Rightarrow> Done (upd x h, ctx)
     | Refused \<Rightarrow> Done (h, ctx)
     | Overrun \<Rightarrow> Overrun)"

definition NetMessage_deserializeHeader ::
    "byte list \<Rightarrow> NetMessageHeader \<times> DeserializeCtx \<Rightarrow> (NetMessageHeader \<times> DeserializeCtx) dres" where
  "NetMessage_deserializeHeader buf = (\<lambda>(outHeader, ctx).
     (let totalLength = d_length ctx;
          invalid = (\<lambda>(h, ctx). Done (h\<lparr>msgType := NETMSGTYPE_Invalid\<rparr>, ctx))
      in if d_length ctx < NETMSG_HEADER_LENGTH then invalid (outHeader, ctx)
         else
           dbind (readInto Serialization_deserializeUInt (\<lambda>v h. h\<lparr>msgLength := v\<rparr>) buf (outHeader, ctx)) (\<lambda>(h, ctx).
           if ucast (msgLength h) \<noteq> totalLength then invalid (h, ctx)
           else
           dbind (readInto Serialization_deserializeUShort (\<lambda>v h. h\<lparr>msgFeatureFlags := v\<rparr>) buf (h, ctx)) (\<lambda>(h, ctx).
           dbind (readInto Serialization_deserializeUInt8 (\<lambda>v h. h\<lparr>msgCompatFeatureFlags := v\<rparr>) buf (h, ctx)) (\<lambda>(h, ctx).
           dbind (readInto Serialization_deserializeUInt8 (\<lambda>v h. h\<lparr>msgFlags := v\<rparr>) buf (h, ctx)) (\<lambda>(h, ctx).
           dbind (readInto Serialization_deserializeUInt64 (\<lambda>v _. v) buf (0, ctx)) (\<lambda>(prefix, ctx).
           if prefix \<noteq> NETMSG_PREFIX then invalid (h, ctx)
           else if msgFlags h AND NOT (MSGHDRFLAG_BUDDYMIRROR_SECOND OR MSGHDRFLAG_IS_SELECTIVE_ACK OR
                                       MSGHDRFLAG_HAS_SEQUENCE_NO) \<noteq> 0 then invalid (h, ctx)
           else
           dbind (readInto Serialization_deserializeUShort (\<lambda>v h. h\<lparr>msgType := v\<rparr>) buf (h, ctx)) (\<lambda>(h, ctx).
           dbind (readInto Serialization_deserializeUShort (\<lambda>v h. h\<lparr>msgTargetID := v\<rparr>) buf (h, ctx)) (\<lambda>(h, ctx).
           dbind (readInto Serialization_deserializeUInt (\<lambda>v h. h\<lparr>msgUserID := v\<rparr>) buf (h, ctx)) (\<lambda>(h, ctx).
           dbind (readInto Serialization_deserializeUInt64 (\<lambda>v h. h\<lparr>msgSequence := v\<rparr>) buf (h, ctx)) (\<lambda>(h, ctx).
           readInto Serialization_deserializeUInt64 (\<lambda>v h. h\<lparr>msgSequenceDone := v\<rparr>) buf (h, ctx))))))))))))"

definition NetMessage_extractMsgLengthFromBuf :: "byte list \<Rightarrow> u32 dres" where
  "NetMessage_extractMsgLengthFromBuf recvBuf =
     dbind (Serialization_deserializeUInt recvBuf \<lparr>d_pos = 0, d_length = 4\<rparr>) (\<lambda>(len, _). Done len)"

section \<open>Simple messages\<close>

definition SimpleMsg_serializePayload :: "SerializeCtx \<Rightarrow> SerializeCtx option" where
  "SimpleMsg_serializePayload ctx = Some ctx"

definition SimpleMsg_deserializePayload :: "byte list \<Rightarrow> DeserializeCtx \<Rightarrow> (unit \<times> DeserializeCtx) dres" where
  "SimpleMsg_deserializePayload buf ctx = Done ((), ctx)"

definition SimpleIntMsg_serializePayload :: "u32 \<Rightarrow> SerializeCtx \<Rightarrow> SerializeCtx option" where
  "SimpleIntMsg_serializePayload val ctx = Serialization_serializeInt ctx val"

definition SimpleIntMsg_deserializePayload :: "byte list \<Rightarrow> DeserializeCtx \<Rightarrow> (u32 \<times> DeserializeCtx) dres" where
  "SimpleIntMsg_deserializePayload buf ctx = Serialization_deserializeInt buf ctx"

definition SimpleInt64Msg_serializePayload :: "u64 \<Rightarrow> SerializeCtx \<Rightarrow> SerializeCtx option" where
  "SimpleInt64Msg_serializePayload val ctx = Serialization_serializeInt64 ctx val"

definition SimpleInt64Msg_deserializePayload :: "byte list \<Rightarrow> DeserializeCtx \<Rightarrow> (u64 \<times> DeserializeCtx) dres" where
  "SimpleInt64Msg_deserializePayload buf ctx = Serialization_deserializeInt64 buf ctx"

definition SimpleUInt16Msg_serializePayload :: "u16 \<Rightarrow> SerializeCtx \<Rightarrow> SerializeCtx option" where
  "SimpleUInt16Msg_serializePayload val ctx = Serialization_serializeUShort ctx val"

definition SimpleUInt16Msg_deserializePayload :: "byte list \<Rightarrow> DeserializeCtx \<Rightarrow> (u16 \<times> DeserializeCtx) dres" where
  "SimpleUInt16Msg_deserializePayload buf ctx = Serialization_deserializeUShort buf ctx"

record SimpleStringMsg =
  ss_valueLen :: u32
  ss_value :: "byte list"

definition SimpleStringMsg_initFromValue :: "byte list \<Rightarrow> SimpleStringMsg" where
  "SimpleStringMsg_initFromValue val = \<lparr>ss_valueLen = of_nat (length val), ss_value = val\<rparr>"

definition SimpleStringMsg_serializePayload :: "SimpleStringMsg \<Rightarrow> SerializeCtx \<Rightarrow> SerializeCtx option" where
  "SimpleStringMsg_serializePayload this ctx = Serialization_serializeStr ctx (ss_valueLen this) (ss_value this)"

definition SimpleStringMsg_deserializePayload ::
    "byte list \<Rightarrow> DeserializeCtx \<Rightarrow> (SimpleStringMsg \<times> DeserializeCtx) dres" where
  "SimpleStringMsg_deserializePayload buf ctx =
     dbind (recvStr buf ctx) (\<lambda>((valueLen, val), ctx). Done (\<lparr>ss_valueLen = valueLen, ss_value = val\<rparr>, ctx))"

record SimpleIntStringMsg =
  is_intValue :: u32
  is_strValue :: "byte list"
  is_strValueLen :: u32

definition SimpleIntStringMsg_initFromValue :: "u32 \<Rightarrow> byte list \<Rightarrow> SimpleIntStringMsg" where
  "SimpleIntStringMsg_initFromValue intValue strValue =
     \<lparr>is_intValue = intValue, is_strValue = strValue, is_strValueLen = of_nat (length strValue)\<rparr>"

definition SimpleIntStringMsg_serializePayload :: "SimpleIntStringMsg \<Rightarrow> SerializeCtx \<Rightarrow> SerializeCtx option" where
  "SimpleIntStringMsg_serializePayload this ctx = do {
     ctx \<leftarrow> Serialization_serializeInt ctx (is_intValue this);
     Serialization_serializeStr ctx (is_strValueLen this) (is_strValue this) }"

definition SimpleIntStringMsg_deserializePayload ::
    "byte list \<Rightarrow> DeserializeCtx \<Rightarrow> (SimpleIntStringMsg \<times> DeserializeCtx) dres" where
  "SimpleIntStringMsg_deserializePayload buf ctx =
     dbind (Serialization_deserializeInt buf ctx) (\<lambda>(intValue, ctx).
     dbind (recvStr buf ctx) (\<lambda>((strValueLen, strValue), ctx).
     Done (\<lparr>is_intValue = intValue, is_strValue = strValue, is_strValueLen = strValueLen\<rparr>, ctx)))"

section \<open>What the header pass writes and reads\<close>

definition header_enc :: "NetMessageHeader \<Rightarrow> u32 \<Rightarrow> byte list" where
  "header_enc h len = le_bytes 4 len @ le_bytes 2 (msgFeatureFlags h) @ [msgCompatFeatureFlags h] @ [msgFlags h] @
     le_bytes 8 NETMSG_PREFIX @ le_bytes 2 (msgType h) @ le_bytes 2 (msgTargetID h) @ le_bytes 4 (msgUserID h) @
     le_bytes 8 (msgSequence h) @ le_bytes 8 (msgSequenceDone h)"

lemma length_header_enc [simp]: "length (header_enc h len) = 40"
  by (simp add: header_enc_def)

lemma emits_char: "emits (\<lambda>ctx. Serialization_serializeChar ctx c) [c]"
  by (simp add: Serialization_serializeChar_def)

lemma emits_header: "emits (NetMessage_serializeHeader h len) (header_enc h len)"
  unfolding NetMessage_serializeHeader_def [abs_def] header_enc_def
  by (intro emits_bind emits_char UInt.ser_emits UShort.ser_emits UInt64.ser_emits TrueI)

text \<open>A field that is there is read.\<close>

lemma readInto_reads:
  assumes "reads dec bs x" "ctx_ok buf ctx" "view buf ctx = bs @ rest"
  defines "ctx' \<equiv> advance ctx (of_nat (length bs))"
  shows "readInto dec upd buf (h, ctx) = Done (upd x h, ctx')" and "ctx_ok buf ctx'" and "view buf ctx' = rest"
  unfolding ctx'_def using advance_append [OF assms(2,3)] readsD [OF assms(1-3)] by (simp_all add: readInto_def)

lemma readInto_in_bounds:
  assumes "decoder dec" "ctx_ok buf ctx"
  shows "\<exists>h' ctx'. readInto dec upd buf (h, ctx) = Done (h', ctx') \<and> ctx_ok buf ctx'"
  using decoder.in_bounds [OF assms] decoder.dec_ok [OF assms] assms(2)
  by (cases "dec buf ctx") (auto simp: readInto_def)

definition header_flags_ok :: "NetMessageHeader \<Rightarrow> bool" where
  "header_flags_ok h \<longleftrightarrow> msgFlags h AND NOT (MSGHDRFLAG_BUDDYMIRROR_SECOND OR MSGHDRFLAG_IS_SELECTIVE_ACK OR
     MSGHDRFLAG_HAS_SEQUENCE_NO) = 0"

lemma deserializeHeader_reads:
  assumes ok: "ctx_ok buf ctx" and v: "view buf ctx = header_enc h len @ rest"
    and len: "d_length ctx = ucast len" and flags: "header_flags_ok h"
  shows "NetMessage_deserializeHeader buf (g, ctx) = Done (h\<lparr>msgLength := len\<rparr>, advance ctx 40)"
proof -
  note [simp] = advance_advance
  have "40 \<le> length (view buf ctx)" using v by simp
  then have n: "\<not> d_length ctx < NETMSG_HEADER_LENGTH"
    using length_view [OF ok] by (simp add: word_less_nat_alt)
  note v' = v [unfolded header_enc_def append.assoc]
  note a1 = readInto_reads [OF UInt.dec_reads [OF TrueI] ok v']
  note a2 = readInto_reads [OF UShort.dec_reads [OF TrueI] a1(2,3)]
  note a3 = readInto_reads [OF UInt8.dec_reads [OF TrueI] a2(2,3)]
  note a4 = readInto_reads [OF UInt8.dec_reads [OF TrueI] a3(2,3)]
  note a5 = readInto_reads [OF UInt64.dec_reads [OF TrueI] a4(2,3)]
  note a6 = readInto_reads [OF UShort.dec_reads [OF TrueI] a5(2,3)]
  note a7 = readInto_reads [OF UShort.dec_reads [OF TrueI] a6(2,3)]
  note a8 = readInto_reads [OF UInt.dec_reads [OF TrueI] a7(2,3)]
  note a9 = readInto_reads [OF UInt64.dec_reads [OF TrueI] a8(2,3)]
  note a10 = readInto_reads [OF UInt64.dec_reads [OF TrueI] a9(2,3)]
  note as = a1(1) a2(1) a3(1) a4(1) a5(1) a6(1) a7(1) a8(1) a9(1) a10(1)
  show ?thesis
    unfolding NetMessage_deserializeHeader_def
    using n len flags
    by (simp add: Let_def as [simplified] header_flags_ok_def)
qed

section \<open>Messages that can be sent\<close>

text \<open>\<open>writes n f\<close>: a serializer that emits some fixed bytes, at most \<open>n\<close> of them, in both passes.\<close>

definition writes :: "nat \<Rightarrow> (SerializeCtx \<Rightarrow> SerializeCtx option) \<Rightarrow> bool" where
  "writes n f \<longleftrightarrow> (\<exists>bs. length bs \<le> n \<and> emits f bs)"

lemma writesI: "emits f bs \<Longrightarrow> length bs \<le> n \<Longrightarrow> writes n f"
  unfolding writes_def by blast

lemma writes_mono: "writes m f \<Longrightarrow> m \<le> n \<Longrightarrow> writes n f"
  unfolding writes_def using order_trans by blast

lemma writes_bind: "writes m f \<Longrightarrow> writes n g \<Longrightarrow> writes (m + n) (\<lambda>ctx. f ctx \<bind> g)"
  unfolding writes_def by (metis (no_types, lifting) add_mono emits_bind length_append)

lemma writes_return: "writes 0 Some"
  by (rule writesI [OF emits_return]) simp

lemma writes_if: "(c \<Longrightarrow> writes n f) \<Longrightarrow> writes n (\<lambda>ctx. if c then f ctx else Some ctx)"
  using writes_mono [OF writes_return] by (cases c) simp_all

text \<open>The bounds are generous: names are limited to 255 bytes and paths to 4096.\<close>

definition small_str :: "byte list \<Rightarrow> bool" where
  "small_str s \<longleftrightarrow> length s < 2 ^ 16 \<and> 0 \<notin> set s"

lemma small_str_ok: "small_str s \<Longrightarrow> str_ok s"
  by (simp add: small_str_def str_ok_def)

lemma length_strs: "small_str s \<Longrightarrow> length (str_enc s) \<le> 2 ^ 17"
    "small_str s \<Longrightarrow> length (strAlign4_enc s) \<le> 2 ^ 17"
  by (auto simp: small_str_def str_enc_def strAlign4_enc_def align4_pad_def)

lemma writes_scalars:
  "writes 1 (\<lambda>ctx. Serialization_serializeChar ctx c)" "writes 1 (\<lambda>ctx. Serialization_serializeBool ctx b)"
  "writes 2 (\<lambda>ctx. Serialization_serializeUShort ctx v2)" "writes 2 (\<lambda>ctx. Serialization_serializeShort ctx v2)"
  "writes 4 (\<lambda>ctx. Serialization_serializeUInt ctx v4)" "writes 4 (\<lambda>ctx. Serialization_serializeInt ctx v4)"
  "writes 8 (\<lambda>ctx. Serialization_serializeUInt64 ctx v8)" "writes 8 (\<lambda>ctx. Serialization_serializeInt64 ctx v8)"
  "writes 4 (\<lambda>ctx. NumNodeID_serialize ctx node)" "writes 2 (\<lambda>ctx. StoragePoolId_serialize ctx pool)"
  unfolding Serialization_serializeShort_def Serialization_serializeInt_def Serialization_serializeInt64_def
  by (rule writesI [OF emits_char] writesI [OF Bool.ser_emits] writesI [OF UShort.ser_emits]
      writesI [OF UInt.ser_emits] writesI [OF UInt64.ser_emits] writesI [OF NumNodeID.ser_emits]
      writesI [OF StoragePoolId.ser_emits]; simp)+

lemma writes_str:
  assumes "small_str s" "n = of_nat (length s)"
  shows "writes (2 ^ 17) (\<lambda>ctx. Serialization_serializeStr ctx n s)"
    and "writes (2 ^ 17) (\<lambda>ctx. Serialization_serializeStrAlign4 ctx n s)"
  unfolding assms(2)
  by (rule writesI [OF emits_strs(1)] writesI [OF emits_strs(2)];
      rule small_str_ok [OF assms(1)] length_strs [OF assms(1)])+

definition small_entry :: "EntryInfo \<Rightarrow> bool" where
  "small_entry e \<longleftrightarrow> ei_ok e \<and> small_str (ei_parentEntryID e) \<and> small_str (ei_entryID e) \<and> small_str (ei_fileName e)"

lemma writes_entryInfo:
  assumes "small_entry e"
  shows "writes (2 ^ 19) (\<lambda>ctx. EntryInfo_serialize ctx e)"
proof (rule writesI [OF emits_entryInfo])
  show "ei_ok e" using assms by (simp add: small_entry_def)
  have "length (strAlign4_enc (ei_parentEntryID e)) \<le> 2 ^ 17" "length (strAlign4_enc (ei_entryID e)) \<le> 2 ^ 17"
    "length (strAlign4_enc (ei_fileName e)) \<le> 2 ^ 17"
    using assms length_strs(2) by (simp_all add: small_entry_def)
  then show "length (ei_enc e) \<le> 2 ^ 19" by (simp add: length_entryInfo)
qed

definition small_path :: "PathInfo \<Rightarrow> bool" where
  "small_path p \<longleftrightarrow> pi_ok p \<and> pred_option small_str (pi_origParentEntryID p)"

lemma writes_pathInfo:
  assumes "small_path p"
  shows "writes (2 ^ 18) (\<lambda>ctx. PathInfo_serialize ctx p)"
proof (rule writesI [OF PathInfo.ser_emits])
  show "pi_ok p" using assms by (simp add: small_path_def)
  show "length (pi_enc p) \<le> 2 ^ 18"
    using assms length_strs(2) by (fastforce simp: small_path_def pi_enc_def split: option.split)
qed

definition small_event :: "FileEvent \<Rightarrow> bool" where
  "small_event e \<longleftrightarrow> pred_option small_str (fe_path e) \<and> pred_option small_str (fe_target e)"

lemma length_opt_str: "pred_option small_str x \<Longrightarrow> length (case x of Some s \<Rightarrow> str_enc s | None \<Rightarrow> []) \<le> 2 ^ 17"
    "pred_option small_str x \<Longrightarrow> length (str_enc (case x of Some s \<Rightarrow> s | None \<Rightarrow> [])) \<le> 2 ^ 17"
  using length_strs(1) by (auto simp: str_enc_def split: option.split)

lemma writes_fileEvent:
  assumes "small_event e"
  shows "writes (2 ^ 19) (\<lambda>ctx. FileEvent_serialize ctx e)"
proof (rule writesI [OF FileEvent.ser_emits])
  show "fe_ok e"
    using assms by (auto simp: small_event_def fe_ok_def intro: small_str_ok elim!: option.pred_mono_strong)
  show "length (fe_enc e) \<le> 2 ^ 19"
    using length_opt_str [of "fe_target e"] length_opt_str [of "fe_path e"] assms
    by (simp add: small_event_def fe_enc_def)
qed

lemma writes_uint16List:
  assumes "length xs < 2 ^ 16"
  shows "writes (2 ^ 18) (\<lambda>ctx. Serialization_serializeUInt16List ctx xs)"
  by (rule writesI [OF UInt16List.ser_emits])
    (use assms in \<open>simp_all add: sized_enc_def length_concat comp_def sum_list_triv\<close>)

lemma writes_nicList:
  assumes "\<forall>nic \<in> set nics. nic_wf nic" "length nics < 2 ^ 16"
  shows "writes (2 ^ 21) (\<lambda>ctx. Serialization_serializeNicList ctx nics)"
  by (rule writesI [OF NicList.ser_emits])
    (use assms in \<open>simp_all add: nicList_enc_def length_nics del: length_concat\<close>)

lemma writes_charArray:
  assumes "length arr = unat n" "length arr < 2 ^ 17"
  shows "writes (2 ^ 18) (\<lambda>ctx. Serialization_serializeCharArray ctx n arr)"
  unfolding Serialization_serializeCharArray_def
  by (rule writesI [OF emits_bind [OF UInt.ser_emits emits_block]]) (use assms in simp_all)

lemmas writes_intros = writes_bind writes_if writes_return writes_scalars writes_str writes_entryInfo
  writes_pathInfo writes_fileEvent writes_uint16List writes_nicList writes_charArray

text \<open>
  The contract of a message class that can be sent: a well-formed message's payload writes the same
  bytes whatever its length field holds.
\<close>

locale sendable =
  fixes mops :: "'p NetMessageOps" and ok :: "NetMessageHeader \<Rightarrow> 'p \<Rightarrow> bool"
  assumes payload_writes: "ok h p \<Longrightarrow> writes (2 ^ 24) (serializePayload mops h p)"
    and length_irrelevant: "serializePayload mops (h\<lparr>msgLength := l\<rparr>) p = serializePayload mops h p"
begin

lemma stored_bytes:
  assumes m: "ops msg = mops" "msgLength (msgHeader msg) = 0"
    and bs: "length bs \<le> 2 ^ 24" "emits (serializePayload mops (msgHeader msg) (msgPayload msg)) bs"
    and buf: "unat bufLen \<le> length buf" "length buf < 2 ^ 32"
  shows "\<exists>len. unat len = 40 + length bs \<and>
    (let msg' = msg\<lparr>msgHeader := (msgHeader msg)\<lparr>msgLength := len\<rparr>\<rparr> in
     NetMessage_getMsgLength msg = Some (len, msg') \<and>
     NetMessage_serialize msg buf bufLen =
       (if bufLen < ucast len then Some (False, buf, msg')
        else Some (True, header_enc (msgHeader msg) len @ bs @ drop (unat len) buf, msg')))"
proof -
  let ?h = "msgHeader msg" and ?p = "msgPayload msg"
  define len where "len = (of_nat (40 + length bs) :: u32)"
  have ulen: "unat len = 40 + length bs" using bs(1) by (simp add: len_def unat_of_nat32 del: of_nat_add)
  let ?h' = "?h\<lparr>msgLength := len\<rparr>" and ?m' = "msg\<lparr>msgHeader := ?h\<lparr>msgLength := len\<rparr>\<rparr>"
  have e: "emits (\<lambda>ctx. NetMessage_serializeHeader ?h l ctx \<bind> serializePayload mops ?h ?p) (header_enc ?h l @ bs)" for l
    by (intro emits_bind emits_header bs)
  have "NetMessage_serializeHeader ?h 0 \<lparr>s_data = None, s_length = 0\<rparr> \<bind> serializePayload mops ?h ?p
      = Some \<lparr>s_data = None, s_length = len\<rparr>"
    using e [of 0] by (simp add: emits_def sctx_ok_def len_def)
  then have get: "NetMessage_getMsgLength msg = Some (len, ?m')"
    by (auto simp: NetMessage_getMsgLength_def m bind_eq_Some_conv)
  have "len \<noteq> 0" using ulen by auto
  then have get': "NetMessage_getMsgLength ?m' = Some (len, ?m')"
    by (simp add: NetMessage_getMsgLength_def)
  have hdr: "NetMessage_serializeHeader ?h' l = NetMessage_serializeHeader ?h l" for l
    by (simp add: NetMessage_serializeHeader_def fun_eq_iff)
  have store: "NetMessage_serializeHeader ?h len \<lparr>s_data = Some buf, s_length = 0\<rparr> \<bind> serializePayload mops ?h ?p
      = Some \<lparr>s_data = Some (header_enc ?h len @ bs @ drop (unat len) buf), s_length = len\<rparr>"
    if "\<not> bufLen < ucast len"
  proof -
    have "unat len \<le> length buf" using that buf(1) by (simp add: word_less_nat_alt unat_ucast_up)
    then have "40 + length bs \<le> length buf" by (simp add: ulen)
    then show ?thesis
      using e [of len] buf(2)
      by (simp add: emits_def sctx_ok_def emit_def store_bytes_def ulen len_def [symmetric] del: of_nat_add)
  qed
  have "NetMessage_serialize msg buf bufLen = (if bufLen < ucast len then Some (False, buf, ?m')
      else Some (True, header_enc ?h len @ bs @ drop (unat len) buf, ?m'))"
  proof (cases "bufLen < ucast len")
    case False
    from store [OF this] obtain c where
      "NetMessage_serializeHeader ?h len \<lparr>s_data = Some buf, s_length = 0\<rparr> = Some c"
      "serializePayload mops ?h ?p c = Some \<lparr>s_data = Some (header_enc ?h len @ bs @ drop (unat len) buf), s_length = len\<rparr>"
      by (auto simp: bind_eq_Some_conv)
    with False show ?thesis
      by (simp add: NetMessage_serialize_def get get' hdr length_irrelevant m(1))
  qed (simp add: NetMessage_serialize_def get)
  then show ?thesis using get ulen by (intro exI [of _ len]) (simp add: Let_def)
qed

lemma count_and_store:
  assumes m: "ops msg = mops" "ok (msgHeader msg) (msgPayload msg)" "msgLength (msgHeader msg) = 0"
    and buf: "unat bufLen \<le> length buf" "length buf < 2 ^ 32"
  shows "\<exists>len bs. unat len = 40 + length bs \<and>
    (let msg' = msg\<lparr>msgHeader := (msgHeader msg)\<lparr>msgLength := len\<rparr>\<rparr> in
     NetMessage_getMsgLength msg = Some (len, msg') \<and>
     NetMessage_serialize msg buf bufLen =
       (if bufLen < ucast len then Some (False, buf, msg')
        else Some (True, header_enc (msgHeader msg) len @ bs @ drop (unat len) buf, msg')))"
proof -
  obtain bs where "length bs \<le> 2 ^ 24" "emits (serializePayload mops (msgHeader msg) (msgPayload msg)) bs"
    using payload_writes [OF m(2)] by (auto simp: writes_def)
  from stored_bytes [OF m(1,3) this buf] show ?thesis by blast
qed

lemma header_read_back:
  assumes m: "ops msg = mops" "ok (msgHeader msg) (msgPayload msg)" "msgLength (msgHeader msg) = 0"
    and buf: "unat bufLen \<le> length buf" "length buf < 2 ^ 32" and flags: "header_flags_ok (msgHeader msg)"
    and ser: "NetMessage_serialize msg buf bufLen = Some (True, buf', msg')"
  shows "\<exists>len. NetMessage_getMsgLength msg = Some (len, msg') \<and> length buf' = length buf \<and>
    drop (unat len) buf' = drop (unat len) buf \<and>
    NetMessage_deserializeHeader (take (unat len) buf') (g, \<lparr>d_pos = 0, d_length = ucast len\<rparr>)
      = Done (msgHeader msg', \<lparr>d_pos = 40, d_length = ucast len - 40\<rparr>)"
proof -
  obtain len bs where len: "unat len = 40 + length bs"
    and get: "NetMessage_getMsgLength msg = Some (len, msg\<lparr>msgHeader := (msgHeader msg)\<lparr>msgLength := len\<rparr>\<rparr>)"
    and s: "NetMessage_serialize msg buf bufLen =
      (if bufLen < ucast len then Some (False, buf, msg\<lparr>msgHeader := (msgHeader msg)\<lparr>msgLength := len\<rparr>\<rparr>)
       else Some (True, header_enc (msgHeader msg) len @ bs @ drop (unat len) buf,
                  msg\<lparr>msgHeader := (msgHeader msg)\<lparr>msgLength := len\<rparr>\<rparr>))"
    using count_and_store [OF m buf] unfolding Let_def by blast
  have b: "buf' = header_enc (msgHeader msg) len @ bs @ drop (unat len) buf"
    and msg': "msg' = msg\<lparr>msgHeader := (msgHeader msg)\<lparr>msgLength := len\<rparr>\<rparr>" and le: "\<not> bufLen < ucast len"
    using ser s by (auto split: if_splits)
  have lb: "unat len \<le> length buf" using le buf(1) by (simp add: word_less_nat_alt unat_ucast_up)
  have t: "take (unat len) buf' = header_enc (msgHeader msg) len @ bs" by (simp add: b len)
  let ?ctx = "\<lparr>d_pos = 0, d_length = ucast len\<rparr> :: DeserializeCtx"
  have "ctx_ok (take (unat len) buf') ?ctx" "view (take (unat len) buf') ?ctx = header_enc (msgHeader msg) len @ bs"
    using len buf(2) lb unfolding t by (simp_all add: ctx_ok_def view_def unat_ucast_up)
  from deserializeHeader_reads [OF this _ flags]
  have "NetMessage_deserializeHeader (take (unat len) buf') (g, ?ctx) = Done (msgHeader msg', advance ?ctx 40)"
    by (simp add: msg')
  then show ?thesis
    using get lb by (intro exI [of _ len]) (simp add: msg' b len advance_def)
qed

end

end
