(* ===== verification/Requests.thy ===== *)
theory Requests
  imports NetMessages
begin

text \<open>
  The requests the client sends: per message class of \<^verbatim>\<open>common/net/message/{storage,session,nodes}\<close> its
  fields, its initializers with the feature flags they set, its payload serializer, and its table of
  functions. The classes keep references to entries, names and events; here they hold the values.
  A field an initializer leaves unassigned keeps what the memory of the message held, an argument
  named \<^verbatim>\<open>fresh\<close>. Fields kept only for a deserializer that the client does not have are left out.
  A null pointer that would be followed makes a serializer \<^const>\<open>None\<close>.
\<close>

section \<open>Message classes\<close>

record CreateInfo =
  ci_entryName :: "byte list"
  ci_userID :: u32
  ci_groupID :: u32
  ci_mode :: u32
  ci_umask :: u32
  ci_preferredMetaTargets :: "u16 list"
  ci_preferredStorageTargets :: "u16 list"
  ci_isExclusiveCreate :: bool
  ci_storagePoolId :: StoragePoolId
  ci_fileEvent :: "FileEvent option"

text \<open>Flags an initializer sets depending on its arguments.\<close>

definition flagIf :: "bool \<Rightarrow> u32 \<Rightarrow> 'p NetMessage \<Rightarrow> 'p NetMessage" where
  "flagIf c flag msg = (if c then NetMessage_addMsgHeaderFeatureFlag flag msg else msg)"

subsection \<open>HardlinkMsg\<close>

record HardlinkMsg =
  hl_fromName :: "byte list"
  hl_fromInfo :: EntryInfo
  hl_fromNameLen :: u32
  hl_fromDirInfo :: EntryInfo
  hl_toName :: "byte list"
  hl_toNameLen :: u32
  hl_toDirInfo :: EntryInfo
  hl_fileEvent :: "FileEvent option"

definition HardlinkMsg_serializePayload :: "NetMessageHeader \<Rightarrow> HardlinkMsg \<Rightarrow> SerializeCtx \<Rightarrow> SerializeCtx option" where
  "HardlinkMsg_serializePayload header this ctx = do {
     ctx \<leftarrow> EntryInfo_serialize ctx (hl_fromInfo this);
     ctx \<leftarrow> EntryInfo_serialize ctx (hl_toDirInfo this);
     ctx \<leftarrow> Serialization_serializeStrAlign4 ctx (hl_toNameLen this) (hl_toName this);
     ctx \<leftarrow> EntryInfo_serialize ctx (hl_fromDirInfo this);
     ctx \<leftarrow> Serialization_serializeStrAlign4 ctx (hl_fromNameLen this) (hl_fromName this);
     if NetMessage_isMsgHeaderFeatureFlagSet header 2 then hl_fileEvent this \<bind> FileEvent_serialize ctx else Some ctx }"

definition HardlinkMsg_Ops :: "HardlinkMsg NetMessageOps" where
  "HardlinkMsg_Ops = \<lparr>serializePayload = HardlinkMsg_serializePayload, deserializePayload = NetMessage_deserializeDummy,
     getSupportedHeaderFeatureFlagsMask = 0, supportsSequenceNumbers = True\<rparr>"

definition HardlinkMsg_initFromEntryInfo :: "u32 \<Rightarrow> EntryInfo \<Rightarrow> (byte list) \<Rightarrow> u32 \<Rightarrow> EntryInfo \<Rightarrow> EntryInfo \<Rightarrow> (byte list) \<Rightarrow> u32 \<Rightarrow> (FileEvent option) \<Rightarrow> HardlinkMsg NetMessage" where
  "HardlinkMsg_initFromEntryInfo uid fromDirInfo fromName fromLen fromInfo toDirInfo toName toNameLen fileEvent =
     flagIf (fileEvent \<noteq> None) 2 (NetMessage_init uid 2071 HardlinkMsg_Ops
       \<lparr>hl_fromName = fromName, hl_fromInfo = fromInfo, hl_fromNameLen = fromLen, hl_fromDirInfo =
        fromDirInfo, hl_toName = toName, hl_toNameLen = toNameLen, hl_toDirInfo = toDirInfo,
        hl_fileEvent = fileEvent\<rparr>)"

subsection \<open>MkDirMsg\<close>

record MkDirMsg =
  md_userID :: u32
  md_groupID :: u32
  md_mode :: u32
  md_umask :: u32
  md_parentInfo :: EntryInfo
  md_newDirName :: "byte list"
  md_newDirNameLen :: u32
  md_preferredNodes :: "u16 list"
  md_fileEvent :: "FileEvent option"

definition MkDirMsg_serializePayload :: "NetMessageHeader \<Rightarrow> MkDirMsg \<Rightarrow> SerializeCtx \<Rightarrow> SerializeCtx option" where
  "MkDirMsg_serializePayload header this ctx = do {
     ctx \<leftarrow> Serialization_serializeUInt ctx (md_userID this);
     ctx \<leftarrow> Serialization_serializeUInt ctx (md_groupID this);
     ctx \<leftarrow> Serialization_serializeInt ctx (md_mode this);
     ctx \<leftarrow> Serialization_serializeInt ctx (md_umask this);
     ctx \<leftarrow> EntryInfo_serialize ctx (md_parentInfo this);
     ctx \<leftarrow> Serialization_serializeStrAlign4 ctx (md_newDirNameLen this) (md_newDirName this);
     ctx \<leftarrow> Serialization_serializeUInt16List ctx (md_preferredNodes this);
     if NetMessage_isMsgHeaderFeatureFlagSet header 4 then md_fileEvent this \<bind> FileEvent_serialize ctx else Some ctx }"

definition MkDirMsg_Ops :: "MkDirMsg NetMessageOps" where
  "MkDirMsg_Ops = \<lparr>serializePayload = MkDirMsg_serializePayload, deserializePayload = NetMessage_deserializeDummy,
     getSupportedHeaderFeatureFlagsMask = 0, supportsSequenceNumbers = True\<rparr>"

definition MkDirMsg_initFromEntryInfo :: "u32 \<Rightarrow> EntryInfo \<Rightarrow> CreateInfo \<Rightarrow> MkDirMsg NetMessage" where
  "MkDirMsg_initFromEntryInfo uid parentInfo createInfo =
     flagIf (ci_fileEvent createInfo \<noteq> None) 4 (NetMessage_init uid 2001 MkDirMsg_Ops
       \<lparr>md_userID = ci_userID createInfo, md_groupID = ci_groupID createInfo, md_mode = ci_mode
        createInfo, md_umask = ci_umask createInfo, md_parentInfo = parentInfo, md_newDirName =
        ci_entryName createInfo, md_newDirNameLen = of_nat (length (ci_entryName createInfo)),
        md_preferredNodes = ci_preferredMetaTargets createInfo, md_fileEvent = ci_fileEvent createInfo\<rparr>)"

subsection \<open>MkFileMsg\<close>

record MkFileMsg =
  mf_userID :: u32
  mf_groupID :: u32
  mf_mode :: u32
  mf_umask :: u32
  mf_numtargets :: u32
  mf_chunksize :: u32
  mf_storagePoolId :: StoragePoolId
  mf_parentInfoPtr :: EntryInfo
  mf_newFileName :: "byte list"
  mf_newFileNameLen :: u32
  mf_preferredTargets :: "u16 list"
  mf_fileEvent :: "FileEvent option"

definition MkFileMsg_serializePayload :: "NetMessageHeader \<Rightarrow> MkFileMsg \<Rightarrow> SerializeCtx \<Rightarrow> SerializeCtx option" where
  "MkFileMsg_serializePayload header this ctx = do {
     ctx \<leftarrow> Serialization_serializeUInt ctx (mf_userID this);
     ctx \<leftarrow> Serialization_serializeUInt ctx (mf_groupID this);
     ctx \<leftarrow> Serialization_serializeInt ctx (mf_mode this);
     ctx \<leftarrow> Serialization_serializeInt ctx (mf_umask this);
     ctx \<leftarrow> (if NetMessage_isMsgHeaderFeatureFlagSet header 1 then do {
         ctx \<leftarrow> Serialization_serializeUInt ctx (mf_numtargets this);
         Serialization_serializeUInt ctx (mf_chunksize this) }
       else Some ctx);
     ctx \<leftarrow> (if NetMessage_isMsgHeaderFeatureFlagSet header 2 then StoragePoolId_serialize ctx (mf_storagePoolId this)
       else Some ctx);
     ctx \<leftarrow> EntryInfo_serialize ctx (mf_parentInfoPtr this);
     ctx \<leftarrow> Serialization_serializeStrAlign4 ctx (mf_newFileNameLen this) (mf_newFileName this);
     ctx \<leftarrow> Serialization_serializeUInt16List ctx (mf_preferredTargets this);
     if NetMessage_isMsgHeaderFeatureFlagSet header 4 then mf_fileEvent this \<bind> FileEvent_serialize ctx else Some ctx }"

definition MkFileMsg_Ops :: "MkFileMsg NetMessageOps" where
  "MkFileMsg_Ops = \<lparr>serializePayload = MkFileMsg_serializePayload, deserializePayload = NetMessage_deserializeDummy,
     getSupportedHeaderFeatureFlagsMask = 0, supportsSequenceNumbers = True\<rparr>"

definition MkFileMsg_setStoragePoolId :: "MkFileMsg NetMessage \<Rightarrow> StoragePoolId \<Rightarrow> MkFileMsg NetMessage" where
  "MkFileMsg_setStoragePoolId this storagePoolId =
     (NetMessage_addMsgHeaderFeatureFlag 2 this)\<lparr>msgPayload := (msgPayload this)\<lparr>mf_storagePoolId := storagePoolId\<rparr>\<rparr>"

definition MkFileMsg_initFromEntryInfo :: "u32 \<Rightarrow> MkFileMsg \<Rightarrow> EntryInfo \<Rightarrow> CreateInfo \<Rightarrow> MkFileMsg NetMessage" where
  "MkFileMsg_initFromEntryInfo uid fresh parentInfo createInfo =
     (let msg = flagIf (ci_fileEvent createInfo \<noteq> None) 4 (NetMessage_init uid 2005 MkFileMsg_Ops
        (fresh\<lparr>mf_parentInfoPtr := parentInfo, mf_newFileName := ci_entryName createInfo,
           mf_newFileNameLen := of_nat (length (ci_entryName createInfo)), mf_userID := ci_userID createInfo,
           mf_groupID := ci_groupID createInfo, mf_mode := ci_mode createInfo, mf_umask := ci_umask createInfo,
           mf_preferredTargets := ci_preferredStorageTargets createInfo, mf_fileEvent := ci_fileEvent createInfo\<rparr>))
      in if sp_value (ci_storagePoolId createInfo) \<noteq> 0
         then MkFileMsg_setStoragePoolId msg (ci_storagePoolId createInfo) else msg)"

definition MkFileMsg_setStripeHints :: "MkFileMsg NetMessage \<Rightarrow> u32 \<Rightarrow> u32 \<Rightarrow> MkFileMsg NetMessage" where
  "MkFileMsg_setStripeHints this numtargets chunksize =
     (NetMessage_addMsgHeaderFeatureFlag 1 this)
       \<lparr>msgPayload := (msgPayload this)\<lparr>mf_numtargets := numtargets, mf_chunksize := chunksize\<rparr>\<rparr>"

subsection \<open>RmDirMsg\<close>

record RmDirMsg =
  rd_parentInfo :: EntryInfo
  rd_delDirName :: "byte list"
  rd_delDirNameLen :: u32
  rd_fileEvent :: "FileEvent option"

definition RmDirMsg_serializePayload :: "NetMessageHeader \<Rightarrow> RmDirMsg \<Rightarrow> SerializeCtx \<Rightarrow> SerializeCtx option" where
  "RmDirMsg_serializePayload header this ctx = do {
     ctx \<leftarrow> EntryInfo_serialize ctx (rd_parentInfo this);
     ctx \<leftarrow> Serialization_serializeStrAlign4 ctx (rd_delDirNameLen this) (rd_delDirName this);
     if NetMessage_isMsgHeaderFeatureFlagSet header 1 then rd_fileEvent this \<bind> FileEvent_serialize ctx else Some ctx }"

definition RmDirMsg_Ops :: "RmDirMsg NetMessageOps" where
  "RmDirMsg_Ops = \<lparr>serializePayload = RmDirMsg_serializePayload, deserializePayload = NetMessage_deserializeDummy,
     getSupportedHeaderFeatureFlagsMask = 0, supportsSequenceNumbers = True\<rparr>"

definition RmDirMsg_initFromEntryInfo :: "u32 \<Rightarrow> EntryInfo \<Rightarrow> (byte list) \<Rightarrow> (FileEvent option) \<Rightarrow> RmDirMsg NetMessage" where
  "RmDirMsg_initFromEntryInfo uid parentInfo delDirName fileEvent =
     flagIf (fileEvent \<noteq> None) 1 (NetMessage_init uid 2003 RmDirMsg_Ops
       \<lparr>rd_parentInfo = parentInfo, rd_delDirName = delDirName, rd_delDirNameLen = of_nat (length
        delDirName), rd_fileEvent = fileEvent\<rparr>)"

subsection \<open>UnlinkFileMsg\<close>

record UnlinkFileMsg =
  ul_parentInfoPtr :: EntryInfo
  ul_delFileName :: "byte list"
  ul_delFileNameLen :: u32
  ul_fileEvent :: "FileEvent option"

definition UnlinkFileMsg_serializePayload :: "NetMessageHeader \<Rightarrow> UnlinkFileMsg \<Rightarrow> SerializeCtx \<Rightarrow> SerializeCtx option" where
  "UnlinkFileMsg_serializePayload header this ctx = do {
     ctx \<leftarrow> EntryInfo_serialize ctx (ul_parentInfoPtr this);
     ctx \<leftarrow> Serialization_serializeStrAlign4 ctx (ul_delFileNameLen this) (ul_delFileName this);
     if NetMessage_isMsgHeaderFeatureFlagSet header 1 then ul_fileEvent this \<bind> FileEvent_serialize ctx else Some ctx }"

definition UnlinkFileMsg_Ops :: "UnlinkFileMsg NetMessageOps" where
  "UnlinkFileMsg_Ops = \<lparr>serializePayload = UnlinkFileMsg_serializePayload, deserializePayload = NetMessage_deserializeDummy,
     getSupportedHeaderFeatureFlagsMask = 0, supportsSequenceNumbers = True\<rparr>"

definition UnlinkFileMsg_initFromEntryInfo :: "u32 \<Rightarrow> EntryInfo \<Rightarrow> (byte list) \<Rightarrow> (FileEvent option) \<Rightarrow> UnlinkFileMsg NetMessage" where
  "UnlinkFileMsg_initFromEntryInfo uid parentInfo delFileName fileEvent =
     flagIf (fileEvent \<noteq> None) 1 (NetMessage_init uid 2007 UnlinkFileMsg_Ops
       \<lparr>ul_parentInfoPtr = parentInfo, ul_delFileName = delFileName, ul_delFileNameLen = of_nat (length
        delFileName), ul_fileEvent = fileEvent\<rparr>)"

subsection \<open>ListDirFromOffsetMsg\<close>

record ListDirFromOffsetMsg =
  ld_serverOffset :: u64
  ld_maxOutNames :: u32
  ld_filterDots :: bool
  ld_entryInfoPtr :: EntryInfo

definition ListDirFromOffsetMsg_serializePayload :: "NetMessageHeader \<Rightarrow> ListDirFromOffsetMsg \<Rightarrow> SerializeCtx \<Rightarrow> SerializeCtx option" where
  "ListDirFromOffsetMsg_serializePayload header this ctx = do {
     ctx \<leftarrow> Serialization_serializeInt64 ctx (ld_serverOffset this);
     ctx \<leftarrow> Serialization_serializeUInt ctx (ld_maxOutNames this);
     ctx \<leftarrow> EntryInfo_serialize ctx (ld_entryInfoPtr this);
     Serialization_serializeBool ctx (ld_filterDots this) }"

definition ListDirFromOffsetMsg_Ops :: "ListDirFromOffsetMsg NetMessageOps" where
  "ListDirFromOffsetMsg_Ops = \<lparr>serializePayload = ListDirFromOffsetMsg_serializePayload, deserializePayload = NetMessage_deserializeDummy,
     getSupportedHeaderFeatureFlagsMask = 0, supportsSequenceNumbers = False\<rparr>"

definition ListDirFromOffsetMsg_initFromEntryInfo :: "u32 \<Rightarrow> EntryInfo \<Rightarrow> u64 \<Rightarrow> u32 \<Rightarrow> bool \<Rightarrow> ListDirFromOffsetMsg NetMessage" where
  "ListDirFromOffsetMsg_initFromEntryInfo uid entryInfo serverOffset maxOutNames filterDots =
     NetMessage_init uid 2029 ListDirFromOffsetMsg_Ops
       \<lparr>ld_serverOffset = serverOffset, ld_maxOutNames = maxOutNames, ld_filterDots = filterDots,
        ld_entryInfoPtr = entryInfo\<rparr>"

subsection \<open>LookupIntentMsg\<close>

record LookupIntentMsg =
  li_intentFlags :: u32
  li_entryName :: "byte list"
  li_entryNameLen :: u32
  li_entryInfoPtr :: "EntryInfo option"
  li_userID :: u32
  li_groupID :: u32
  li_mode :: u32
  li_umask :: u32
  li_fileEvent :: "FileEvent option"
  li_clientNumID :: NumNodeID
  li_accessFlags :: u32
  li_parentInfoPtr :: EntryInfo
  li_preferredTargets :: "u16 list"

definition LookupIntentMsg_serializePayload :: "NetMessageHeader \<Rightarrow> LookupIntentMsg \<Rightarrow> SerializeCtx \<Rightarrow> SerializeCtx option" where
  "LookupIntentMsg_serializePayload header this ctx = do {
     ctx \<leftarrow> Serialization_serializeInt ctx (li_intentFlags this);
     ctx \<leftarrow> EntryInfo_serialize ctx (li_parentInfoPtr this);
     ctx \<leftarrow> Serialization_serializeStrAlign4 ctx (li_entryNameLen this) (li_entryName this);
     ctx \<leftarrow> (if li_intentFlags this AND 1 \<noteq> 0 then (li_entryInfoPtr this \<bind> EntryInfo_serialize ctx)
       else Some ctx);
     ctx \<leftarrow> (if li_intentFlags this AND 8 \<noteq> 0 then do {
         ctx \<leftarrow> Serialization_serializeUInt ctx (li_accessFlags this);
         NumNodeID_serialize ctx (li_clientNumID this) }
       else Some ctx);
     if li_intentFlags this AND 2 \<noteq> 0 then do {
         ctx \<leftarrow> Serialization_serializeUInt ctx (li_userID this);
         ctx \<leftarrow> Serialization_serializeUInt ctx (li_groupID this);
         ctx \<leftarrow> Serialization_serializeInt ctx (li_mode this);
         ctx \<leftarrow> Serialization_serializeInt ctx (li_umask this);
         ctx \<leftarrow> Serialization_serializeUInt16List ctx (li_preferredTargets this);
         if NetMessage_isMsgHeaderFeatureFlagSet header 8 then li_fileEvent this \<bind> FileEvent_serialize ctx else Some ctx }
       else Some ctx }"

definition LookupIntentMsg_Ops :: "LookupIntentMsg NetMessageOps" where
  "LookupIntentMsg_Ops = \<lparr>serializePayload = LookupIntentMsg_serializePayload, deserializePayload = NetMessage_deserializeDummy,
     getSupportedHeaderFeatureFlagsMask = 0, supportsSequenceNumbers = True\<rparr>"

definition LookupIntentMsg_initFromName ::
    "u32 \<Rightarrow> LookupIntentMsg \<Rightarrow> EntryInfo \<Rightarrow> byte list \<Rightarrow> LookupIntentMsg NetMessage" where
  "LookupIntentMsg_initFromName uid fresh parentInfo entryName =
     NetMessage_init uid 2059 LookupIntentMsg_Ops
       (fresh\<lparr>li_fileEvent := None, li_intentFlags := 0, li_parentInfoPtr := parentInfo,
          li_entryName := entryName, li_entryNameLen := of_nat (length entryName)\<rparr>)"

definition LookupIntentMsg_initFromEntryInfo ::
    "u32 \<Rightarrow> LookupIntentMsg \<Rightarrow> EntryInfo \<Rightarrow> byte list \<Rightarrow> EntryInfo \<Rightarrow> LookupIntentMsg NetMessage" where
  "LookupIntentMsg_initFromEntryInfo uid fresh parentInfo entryName entryInfo =
     NetMessage_init uid 2059 LookupIntentMsg_Ops
       (fresh\<lparr>li_fileEvent := None, li_intentFlags := 1, li_parentInfoPtr := parentInfo,
          li_entryName := entryName, li_entryNameLen := of_nat (length entryName), li_entryInfoPtr := Some entryInfo\<rparr>)"

definition LookupIntentMsg_addIntentCreate ::
    "LookupIntentMsg NetMessage \<Rightarrow> u32 \<Rightarrow> u32 \<Rightarrow> u32 \<Rightarrow> u32 \<Rightarrow> u16 list \<Rightarrow> FileEvent option \<Rightarrow> LookupIntentMsg NetMessage" where
  "LookupIntentMsg_addIntentCreate this userID groupID mode umask preferredTargets fileEvent =
     flagIf (fileEvent \<noteq> None) 8
       (this\<lparr>msgPayload := (msgPayload this)\<lparr>li_intentFlags := li_intentFlags (msgPayload this) OR 2,
          li_userID := userID, li_groupID := groupID, li_mode := mode, li_umask := umask,
          li_preferredTargets := preferredTargets, li_fileEvent := fileEvent\<rparr>\<rparr>)"

definition LookupIntentMsg_addIntentCreateExclusive :: "LookupIntentMsg NetMessage \<Rightarrow> LookupIntentMsg NetMessage" where
  "LookupIntentMsg_addIntentCreateExclusive this =
     this\<lparr>msgPayload := (msgPayload this)\<lparr>li_intentFlags := li_intentFlags (msgPayload this) OR 4\<rparr>\<rparr>"

definition LookupIntentMsg_addIntentOpen :: "LookupIntentMsg NetMessage \<Rightarrow> NumNodeID \<Rightarrow> u32 \<Rightarrow> LookupIntentMsg NetMessage" where
  "LookupIntentMsg_addIntentOpen this clientNumID accessFlags =
     this\<lparr>msgPayload := (msgPayload this)\<lparr>li_intentFlags := li_intentFlags (msgPayload this) OR 8,
        li_clientNumID := clientNumID, li_accessFlags := accessFlags\<rparr>\<rparr>"

definition LookupIntentMsg_addIntentStat :: "LookupIntentMsg NetMessage \<Rightarrow> LookupIntentMsg NetMessage" where
  "LookupIntentMsg_addIntentStat this =
     this\<lparr>msgPayload := (msgPayload this)\<lparr>li_intentFlags := li_intentFlags (msgPayload this) OR 16\<rparr>\<rparr>"

subsection \<open>RenameMsg\<close>

record RenameMsg =
  rn_oldName :: "byte list"
  rn_oldNameLen :: u32
  rn_entryType :: u32
  rn_fromDirInfo :: EntryInfo
  rn_newName :: "byte list"
  rn_newNameLen :: u32
  rn_toDirInfo :: EntryInfo
  rn_fileEvent :: "FileEvent option"

definition RenameMsg_serializePayload :: "NetMessageHeader \<Rightarrow> RenameMsg \<Rightarrow> SerializeCtx \<Rightarrow> SerializeCtx option" where
  "RenameMsg_serializePayload header this ctx = do {
     ctx \<leftarrow> Serialization_serializeUInt ctx (rn_entryType this);
     ctx \<leftarrow> EntryInfo_serialize ctx (rn_fromDirInfo this);
     ctx \<leftarrow> EntryInfo_serialize ctx (rn_toDirInfo this);
     ctx \<leftarrow> Serialization_serializeStrAlign4 ctx (rn_oldNameLen this) (rn_oldName this);
     ctx \<leftarrow> Serialization_serializeStrAlign4 ctx (rn_newNameLen this) (rn_newName this);
     if NetMessage_isMsgHeaderFeatureFlagSet header 1 then rn_fileEvent this \<bind> FileEvent_serialize ctx else Some ctx }"

definition RenameMsg_Ops :: "RenameMsg NetMessageOps" where
  "RenameMsg_Ops = \<lparr>serializePayload = RenameMsg_serializePayload, deserializePayload = NetMessage_deserializeDummy,
     getSupportedHeaderFeatureFlagsMask = 0, supportsSequenceNumbers = True\<rparr>"

definition RenameMsg_initFromEntryInfo :: "u32 \<Rightarrow> (byte list) \<Rightarrow> u32 \<Rightarrow> u32 \<Rightarrow> EntryInfo \<Rightarrow> (byte list) \<Rightarrow> u32 \<Rightarrow> EntryInfo \<Rightarrow> (FileEvent option) \<Rightarrow> RenameMsg NetMessage" where
  "RenameMsg_initFromEntryInfo uid oldName oldLen entryType fromDirInfo newName newLen toDirInfo fileEvent =
     flagIf (fileEvent \<noteq> None) 1 (NetMessage_init uid 2023 RenameMsg_Ops
       \<lparr>rn_oldName = oldName, rn_oldNameLen = oldLen, rn_entryType = entryType, rn_fromDirInfo =
        fromDirInfo, rn_newName = newName, rn_newNameLen = newLen, rn_toDirInfo = toDirInfo,
        rn_fileEvent = fileEvent\<rparr>)"

subsection \<open>GetXAttrMsg\<close>

record GetXAttrMsg =
  gx_entryInfoPtr :: EntryInfo
  gx_name :: "byte list"
  gx_size :: u32

definition GetXAttrMsg_serializePayload :: "NetMessageHeader \<Rightarrow> GetXAttrMsg \<Rightarrow> SerializeCtx \<Rightarrow> SerializeCtx option" where
  "GetXAttrMsg_serializePayload header this ctx = do {
     ctx \<leftarrow> EntryInfo_serialize ctx (gx_entryInfoPtr this);
     ctx \<leftarrow> Serialization_serializeStr ctx (of_nat (length (gx_name this))) (gx_name this);
     Serialization_serializeInt ctx (gx_size this) }"

definition GetXAttrMsg_Ops :: "GetXAttrMsg NetMessageOps" where
  "GetXAttrMsg_Ops = \<lparr>serializePayload = GetXAttrMsg_serializePayload, deserializePayload = NetMessage_deserializeDummy,
     getSupportedHeaderFeatureFlagsMask = 0, supportsSequenceNumbers = False\<rparr>"

definition GetXAttrMsg_initFromEntryInfoNameAndSize :: "u32 \<Rightarrow> EntryInfo \<Rightarrow> (byte list) \<Rightarrow> u64 \<Rightarrow> GetXAttrMsg NetMessage" where
  "GetXAttrMsg_initFromEntryInfoNameAndSize uid entryInfo name sz =
     NetMessage_init uid 2103 GetXAttrMsg_Ops
       \<lparr>gx_entryInfoPtr = entryInfo, gx_name = name, gx_size = ucast sz\<rparr>"

subsection \<open>ListXAttrMsg\<close>

record ListXAttrMsg =
  lx_entryInfoPtr :: EntryInfo
  lx_size :: u32

definition ListXAttrMsg_serializePayload :: "NetMessageHeader \<Rightarrow> ListXAttrMsg \<Rightarrow> SerializeCtx \<Rightarrow> SerializeCtx option" where
  "ListXAttrMsg_serializePayload header this ctx = do {
     ctx \<leftarrow> EntryInfo_serialize ctx (lx_entryInfoPtr this);
     Serialization_serializeInt ctx (lx_size this) }"

definition ListXAttrMsg_Ops :: "ListXAttrMsg NetMessageOps" where
  "ListXAttrMsg_Ops = \<lparr>serializePayload = ListXAttrMsg_serializePayload, deserializePayload = NetMessage_deserializeDummy,
     getSupportedHeaderFeatureFlagsMask = 0, supportsSequenceNumbers = False\<rparr>"

definition ListXAttrMsg_initFromEntryInfoAndSize :: "u32 \<Rightarrow> EntryInfo \<Rightarrow> u64 \<Rightarrow> ListXAttrMsg NetMessage" where
  "ListXAttrMsg_initFromEntryInfoAndSize uid entryInfo sz =
     NetMessage_init uid 2101 ListXAttrMsg_Ops
       \<lparr>lx_entryInfoPtr = entryInfo, lx_size = ucast sz\<rparr>"

subsection \<open>RemoveXAttrMsg\<close>

record RemoveXAttrMsg =
  rx_entryInfoPtr :: EntryInfo
  rx_name :: "byte list"

definition RemoveXAttrMsg_serializePayload :: "NetMessageHeader \<Rightarrow> RemoveXAttrMsg \<Rightarrow> SerializeCtx \<Rightarrow> SerializeCtx option" where
  "RemoveXAttrMsg_serializePayload header this ctx = do {
     ctx \<leftarrow> EntryInfo_serialize ctx (rx_entryInfoPtr this);
     Serialization_serializeStr ctx (of_nat (length (rx_name this))) (rx_name this) }"

definition RemoveXAttrMsg_Ops :: "RemoveXAttrMsg NetMessageOps" where
  "RemoveXAttrMsg_Ops = \<lparr>serializePayload = RemoveXAttrMsg_serializePayload, deserializePayload = NetMessage_deserializeDummy,
     getSupportedHeaderFeatureFlagsMask = 0, supportsSequenceNumbers = True\<rparr>"

definition RemoveXAttrMsg_initFromEntryInfoAndName :: "u32 \<Rightarrow> EntryInfo \<Rightarrow> (byte list) \<Rightarrow> RemoveXAttrMsg NetMessage" where
  "RemoveXAttrMsg_initFromEntryInfoAndName uid entryInfo name =
     NetMessage_init uid 2105 RemoveXAttrMsg_Ops
       \<lparr>rx_entryInfoPtr = entryInfo, rx_name = name\<rparr>"

subsection \<open>SetXAttrMsg\<close>

record SetXAttrMsg =
  sx_entryInfoPtr :: EntryInfo
  sx_name :: "byte list"
  sx_value :: "byte list"
  sx_size :: u64
  sx_flags :: u32

definition SetXAttrMsg_serializePayload :: "NetMessageHeader \<Rightarrow> SetXAttrMsg \<Rightarrow> SerializeCtx \<Rightarrow> SerializeCtx option" where
  "SetXAttrMsg_serializePayload header this ctx = do {
     ctx \<leftarrow> EntryInfo_serialize ctx (sx_entryInfoPtr this);
     ctx \<leftarrow> Serialization_serializeStr ctx (of_nat (length (sx_name this))) (sx_name this);
     ctx \<leftarrow> Serialization_serializeCharArray ctx (ucast (sx_size this)) (sx_value this);
     Serialization_serializeInt ctx (sx_flags this) }"

definition SetXAttrMsg_Ops :: "SetXAttrMsg NetMessageOps" where
  "SetXAttrMsg_Ops = \<lparr>serializePayload = SetXAttrMsg_serializePayload, deserializePayload = NetMessage_deserializeDummy,
     getSupportedHeaderFeatureFlagsMask = 0, supportsSequenceNumbers = True\<rparr>"

definition SetXAttrMsg_initFromEntryInfoNameValueAndSize :: "u32 \<Rightarrow> EntryInfo \<Rightarrow> (byte list) \<Rightarrow> (byte list) \<Rightarrow> u64 \<Rightarrow> u32 \<Rightarrow> SetXAttrMsg NetMessage" where
  "SetXAttrMsg_initFromEntryInfoNameValueAndSize uid entryInfo name val sz flags =
     NetMessage_init uid 2107 SetXAttrMsg_Ops
       \<lparr>sx_entryInfoPtr = entryInfo, sx_name = name, sx_value = val, sx_size = sz, sx_flags = flags\<rparr>"

subsection \<open>RefreshEntryInfoMsg\<close>

record RefreshEntryInfoMsg =
  re_entryInfoPtr :: EntryInfo

definition RefreshEntryInfoMsg_serializePayload :: "NetMessageHeader \<Rightarrow> RefreshEntryInfoMsg \<Rightarrow> SerializeCtx \<Rightarrow> SerializeCtx option" where
  "RefreshEntryInfoMsg_serializePayload header this ctx = EntryInfo_serialize ctx (re_entryInfoPtr this)"

definition RefreshEntryInfoMsg_Ops :: "RefreshEntryInfoMsg NetMessageOps" where
  "RefreshEntryInfoMsg_Ops = \<lparr>serializePayload = RefreshEntryInfoMsg_serializePayload, deserializePayload = NetMessage_deserializeDummy,
     getSupportedHeaderFeatureFlagsMask = 0, supportsSequenceNumbers = True\<rparr>"

definition RefreshEntryInfoMsg_initFromEntryInfo :: "u32 \<Rightarrow> EntryInfo \<Rightarrow> RefreshEntryInfoMsg NetMessage" where
  "RefreshEntryInfoMsg_initFromEntryInfo uid entryInfo =
     NetMessage_init uid 2055 RefreshEntryInfoMsg_Ops
       \<lparr>re_entryInfoPtr = entryInfo\<rparr>"

subsection \<open>SetAttrMsg\<close>

record SetAttrMsg =
  sa_validAttribs :: u32
  sa_attribs :: SettableFileAttribs
  sa_entryInfoPtr :: EntryInfo
  sa_fileEvent :: "FileEvent option"

definition SetAttrMsg_serializePayload :: "NetMessageHeader \<Rightarrow> SetAttrMsg \<Rightarrow> SerializeCtx \<Rightarrow> SerializeCtx option" where
  "SetAttrMsg_serializePayload header this ctx = do {
     ctx \<leftarrow> Serialization_serializeInt ctx (sa_validAttribs this);
     ctx \<leftarrow> Serialization_serializeInt ctx (fa_mode (sa_attribs this));
     ctx \<leftarrow> Serialization_serializeInt64 ctx (fa_modificationTimeSecs (sa_attribs this));
     ctx \<leftarrow> Serialization_serializeInt64 ctx (fa_lastAccessTimeSecs (sa_attribs this));
     ctx \<leftarrow> Serialization_serializeUInt ctx (fa_userID (sa_attribs this));
     ctx \<leftarrow> Serialization_serializeUInt ctx (fa_groupID (sa_attribs this));
     ctx \<leftarrow> EntryInfo_serialize ctx (sa_entryInfoPtr this);
     if NetMessage_isMsgHeaderFeatureFlagSet header 4 then sa_fileEvent this \<bind> FileEvent_serialize ctx else Some ctx }"

definition SetAttrMsg_Ops :: "SetAttrMsg NetMessageOps" where
  "SetAttrMsg_Ops = \<lparr>serializePayload = SetAttrMsg_serializePayload, deserializePayload = NetMessage_deserializeDummy,
     getSupportedHeaderFeatureFlagsMask = 0, supportsSequenceNumbers = True\<rparr>"

definition SetAttrMsg_initFromEntryInfo :: "u32 \<Rightarrow> EntryInfo \<Rightarrow> u32 \<Rightarrow> SettableFileAttribs \<Rightarrow> (FileEvent option) \<Rightarrow> SetAttrMsg NetMessage" where
  "SetAttrMsg_initFromEntryInfo uid entryInfo validAttribs attribs fileEvent =
     flagIf (fileEvent \<noteq> None) 4 (NetMessage_init uid 2025 SetAttrMsg_Ops
       \<lparr>sa_validAttribs = validAttribs, sa_attribs = attribs, sa_entryInfoPtr = entryInfo, sa_fileEvent
        = fileEvent\<rparr>)"

subsection \<open>StatMsg\<close>

record StatMsg =
  sm_entryInfoPtr :: EntryInfo

definition StatMsg_serializePayload :: "NetMessageHeader \<Rightarrow> StatMsg \<Rightarrow> SerializeCtx \<Rightarrow> SerializeCtx option" where
  "StatMsg_serializePayload header this ctx = EntryInfo_serialize ctx (sm_entryInfoPtr this)"

definition StatMsg_Ops :: "StatMsg NetMessageOps" where
  "StatMsg_Ops = \<lparr>serializePayload = StatMsg_serializePayload, deserializePayload = NetMessage_deserializeDummy,
     getSupportedHeaderFeatureFlagsMask = 1, supportsSequenceNumbers = False\<rparr>"

definition StatMsg_initFromEntryInfo :: "u32 \<Rightarrow> EntryInfo \<Rightarrow> StatMsg NetMessage" where
  "StatMsg_initFromEntryInfo uid entryInfo =
     NetMessage_init uid 2015 StatMsg_Ops
       \<lparr>sm_entryInfoPtr = entryInfo\<rparr>"

definition StatMsg_addParentInfoRequest :: "StatMsg NetMessage \<Rightarrow> StatMsg NetMessage" where
  "StatMsg_addParentInfoRequest = NetMessage_addMsgHeaderFeatureFlag 1"

subsection \<open>TruncFileMsg\<close>

record TruncFileMsg =
  tf_filesize :: u64
  tf_entryInfoPtr :: EntryInfo
  tf_fileEvent :: "FileEvent option"

definition TruncFileMsg_serializePayload :: "NetMessageHeader \<Rightarrow> TruncFileMsg \<Rightarrow> SerializeCtx \<Rightarrow> SerializeCtx option" where
  "TruncFileMsg_serializePayload header this ctx = do {
     ctx \<leftarrow> Serialization_serializeInt64 ctx (tf_filesize this);
     ctx \<leftarrow> EntryInfo_serialize ctx (tf_entryInfoPtr this);
     if NetMessage_isMsgHeaderFeatureFlagSet header 2 then tf_fileEvent this \<bind> FileEvent_serialize ctx else Some ctx }"

definition TruncFileMsg_Ops :: "TruncFileMsg NetMessageOps" where
  "TruncFileMsg_Ops = \<lparr>serializePayload = TruncFileMsg_serializePayload, deserializePayload = NetMessage_deserializeDummy,
     getSupportedHeaderFeatureFlagsMask = 0, supportsSequenceNumbers = False\<rparr>"

definition TruncFileMsg_initFromEntryInfo :: "u32 \<Rightarrow> u64 \<Rightarrow> EntryInfo \<Rightarrow> (FileEvent option) \<Rightarrow> TruncFileMsg NetMessage" where
  "TruncFileMsg_initFromEntryInfo uid filesize entryInfo fileEvent =
     flagIf (fileEvent \<noteq> None) 2 (NetMessage_init uid 2019 TruncFileMsg_Ops
       \<lparr>tf_filesize = filesize, tf_entryInfoPtr = entryInfo, tf_fileEvent = fileEvent\<rparr>)"

subsection \<open>BumpFileVersionMsg\<close>

record BumpFileVersionMsg =
  bv_entryInfo :: EntryInfo
  bv_fileEvent :: "FileEvent option"

definition BumpFileVersionMsg_serializePayload :: "NetMessageHeader \<Rightarrow> BumpFileVersionMsg \<Rightarrow> SerializeCtx \<Rightarrow> SerializeCtx option" where
  "BumpFileVersionMsg_serializePayload header this ctx = do {
     ctx \<leftarrow> EntryInfo_serialize ctx (bv_entryInfo this);
     if NetMessage_isMsgHeaderFeatureFlagSet header 2 then bv_fileEvent this \<bind> FileEvent_serialize ctx else Some ctx }"

definition BumpFileVersionMsg_Ops :: "BumpFileVersionMsg NetMessageOps" where
  "BumpFileVersionMsg_Ops = \<lparr>serializePayload = BumpFileVersionMsg_serializePayload, deserializePayload = NetMessage_deserializeDummy,
     getSupportedHeaderFeatureFlagsMask = 0, supportsSequenceNumbers = True\<rparr>"

definition BumpFileVersionMsg_init :: "u32 \<Rightarrow> EntryInfo \<Rightarrow> bool \<Rightarrow> (FileEvent option) \<Rightarrow> BumpFileVersionMsg NetMessage" where
  "BumpFileVersionMsg_init uid entryInfo persistent fileEvent =
     flagIf (fileEvent \<noteq> None) 2 (flagIf (persistent) 1 (NetMessage_init uid 3033 BumpFileVersionMsg_Ops
       \<lparr>bv_entryInfo = entryInfo, bv_fileEvent = fileEvent\<rparr>))"

subsection \<open>GetFileVersionMsg\<close>

record GetFileVersionMsg =
  gv_entryInfo :: EntryInfo

definition GetFileVersionMsg_serializePayload :: "NetMessageHeader \<Rightarrow> GetFileVersionMsg \<Rightarrow> SerializeCtx \<Rightarrow> SerializeCtx option" where
  "GetFileVersionMsg_serializePayload header this ctx = EntryInfo_serialize ctx (gv_entryInfo this)"

definition GetFileVersionMsg_Ops :: "GetFileVersionMsg NetMessageOps" where
  "GetFileVersionMsg_Ops = \<lparr>serializePayload = GetFileVersionMsg_serializePayload, deserializePayload = NetMessage_deserializeDummy,
     getSupportedHeaderFeatureFlagsMask = 0, supportsSequenceNumbers = False\<rparr>"

definition GetFileVersionMsg_init :: "u32 \<Rightarrow> EntryInfo \<Rightarrow> GetFileVersionMsg NetMessage" where
  "GetFileVersionMsg_init uid entryInfo =
     NetMessage_init uid 3035 GetFileVersionMsg_Ops
       \<lparr>gv_entryInfo = entryInfo\<rparr>"

subsection \<open>FSyncLocalFileMsg\<close>

record FSyncLocalFileMsg =
  fs_clientNumID :: NumNodeID
  fs_fileHandleID :: "byte list"
  fs_fileHandleIDLen :: u32
  fs_targetID :: u16

definition FSyncLocalFileMsg_serializePayload :: "NetMessageHeader \<Rightarrow> FSyncLocalFileMsg \<Rightarrow> SerializeCtx \<Rightarrow> SerializeCtx option" where
  "FSyncLocalFileMsg_serializePayload header this ctx = do {
     ctx \<leftarrow> NumNodeID_serialize ctx (fs_clientNumID this);
     ctx \<leftarrow> Serialization_serializeStrAlign4 ctx (fs_fileHandleIDLen this) (fs_fileHandleID this);
     Serialization_serializeUShort ctx (fs_targetID this) }"

definition FSyncLocalFileMsg_Ops :: "FSyncLocalFileMsg NetMessageOps" where
  "FSyncLocalFileMsg_Ops = \<lparr>serializePayload = FSyncLocalFileMsg_serializePayload, deserializePayload = NetMessage_deserializeDummy,
     getSupportedHeaderFeatureFlagsMask = 0, supportsSequenceNumbers = False\<rparr>"

definition FSyncLocalFileMsg_initFromSession :: "u32 \<Rightarrow> NumNodeID \<Rightarrow> (byte list) \<Rightarrow> u16 \<Rightarrow> FSyncLocalFileMsg NetMessage" where
  "FSyncLocalFileMsg_initFromSession uid clientNumID fileHandleID targetID =
     NetMessage_init uid 3013 FSyncLocalFileMsg_Ops
       \<lparr>fs_clientNumID = clientNumID, fs_fileHandleID = fileHandleID, fs_fileHandleIDLen = of_nat
        (length fileHandleID), fs_targetID = targetID\<rparr>"

subsection \<open>FLockAppendMsg\<close>

record FLockAppendMsg =
  fa_clientNumID :: NumNodeID
  fa_fileHandleID :: "byte list"
  fa_fileHandleIDLen :: u32
  fa_entryInfoPtr :: EntryInfo
  fa_clientFD :: u64
  fa_ownerPID :: u32
  fa_lockTypeFlags :: u32
  fa_lockAckID :: "byte list"
  fa_lockAckIDLen :: u32

definition FLockAppendMsg_serializePayload :: "NetMessageHeader \<Rightarrow> FLockAppendMsg \<Rightarrow> SerializeCtx \<Rightarrow> SerializeCtx option" where
  "FLockAppendMsg_serializePayload header this ctx = do {
     ctx \<leftarrow> NumNodeID_serialize ctx (fa_clientNumID this);
     ctx \<leftarrow> Serialization_serializeInt64 ctx (fa_clientFD this);
     ctx \<leftarrow> Serialization_serializeInt ctx (fa_ownerPID this);
     ctx \<leftarrow> Serialization_serializeInt ctx (fa_lockTypeFlags this);
     ctx \<leftarrow> EntryInfo_serialize ctx (fa_entryInfoPtr this);
     ctx \<leftarrow> Serialization_serializeStrAlign4 ctx (fa_fileHandleIDLen this) (fa_fileHandleID this);
     Serialization_serializeStrAlign4 ctx (fa_lockAckIDLen this) (fa_lockAckID this) }"

definition FLockAppendMsg_Ops :: "FLockAppendMsg NetMessageOps" where
  "FLockAppendMsg_Ops = \<lparr>serializePayload = FLockAppendMsg_serializePayload, deserializePayload = NetMessage_deserializeDummy,
     getSupportedHeaderFeatureFlagsMask = 0, supportsSequenceNumbers = False\<rparr>"

definition FLockAppendMsg_initFromSession :: "u32 \<Rightarrow> NumNodeID \<Rightarrow> (byte list) \<Rightarrow> EntryInfo \<Rightarrow> u64 \<Rightarrow> u32 \<Rightarrow> u32 \<Rightarrow> (byte list) \<Rightarrow> FLockAppendMsg NetMessage" where
  "FLockAppendMsg_initFromSession uid clientNumID fileHandleID entryInfo clientFD ownerPID lockTypeFlags lockAckID =
     NetMessage_init uid 3029 FLockAppendMsg_Ops
       \<lparr>fa_clientNumID = clientNumID, fa_fileHandleID = fileHandleID, fa_fileHandleIDLen = of_nat
        (length fileHandleID), fa_entryInfoPtr = entryInfo, fa_clientFD = clientFD, fa_ownerPID =
        ownerPID, fa_lockTypeFlags = lockTypeFlags, fa_lockAckID = lockAckID, fa_lockAckIDLen = of_nat
        (length lockAckID)\<rparr>"

subsection \<open>FLockEntryMsg\<close>

record FLockEntryMsg =
  fe_clientNumID :: NumNodeID
  fe_fileHandleID :: "byte list"
  fe_fileHandleIDLen :: u32
  fe_entryInfoPtr :: EntryInfo
  fe_clientFD :: u64
  fe_ownerPID :: u32
  fe_lockTypeFlags :: u32
  fe_lockAckID :: "byte list"
  fe_lockAckIDLen :: u32

definition FLockEntryMsg_serializePayload :: "NetMessageHeader \<Rightarrow> FLockEntryMsg \<Rightarrow> SerializeCtx \<Rightarrow> SerializeCtx option" where
  "FLockEntryMsg_serializePayload header this ctx = do {
     ctx \<leftarrow> NumNodeID_serialize ctx (fe_clientNumID this);
     ctx \<leftarrow> Serialization_serializeInt64 ctx (fe_clientFD this);
     ctx \<leftarrow> Serialization_serializeInt ctx (fe_ownerPID this);
     ctx \<leftarrow> Serialization_serializeInt ctx (fe_lockTypeFlags this);
     ctx \<leftarrow> EntryInfo_serialize ctx (fe_entryInfoPtr this);
     ctx \<leftarrow> Serialization_serializeStrAlign4 ctx (fe_fileHandleIDLen this) (fe_fileHandleID this);
     Serialization_serializeStrAlign4 ctx (fe_lockAckIDLen this) (fe_lockAckID this) }"

definition FLockEntryMsg_Ops :: "FLockEntryMsg NetMessageOps" where
  "FLockEntryMsg_Ops = \<lparr>serializePayload = FLockEntryMsg_serializePayload, deserializePayload = NetMessage_deserializeDummy,
     getSupportedHeaderFeatureFlagsMask = 0, supportsSequenceNumbers = True\<rparr>"

definition FLockEntryMsg_initFromSession :: "u32 \<Rightarrow> NumNodeID \<Rightarrow> (byte list) \<Rightarrow> EntryInfo \<Rightarrow> u64 \<Rightarrow> u32 \<Rightarrow> u32 \<Rightarrow> (byte list) \<Rightarrow> FLockEntryMsg NetMessage" where
  "FLockEntryMsg_initFromSession uid clientNumID fileHandleID entryInfo clientFD ownerPID lockTypeFlags lockAckID =
     NetMessage_init uid 3025 FLockEntryMsg_Ops
       \<lparr>fe_clientNumID = clientNumID, fe_fileHandleID = fileHandleID, fe_fileHandleIDLen = of_nat
        (length fileHandleID), fe_entryInfoPtr = entryInfo, fe_clientFD = clientFD, fe_ownerPID =
        ownerPID, fe_lockTypeFlags = lockTypeFlags, fe_lockAckID = lockAckID, fe_lockAckIDLen = of_nat
        (length lockAckID)\<rparr>"

subsection \<open>FLockRangeMsg\<close>

record FLockRangeMsg =
  fr_clientNumID :: NumNodeID
  fr_fileHandleID :: "byte list"
  fr_fileHandleIDLen :: u32
  fr_entryInfoPtr :: EntryInfo
  fr_ownerPID :: u32
  fr_lockTypeFlags :: u32
  fr_start :: u64
  fr_end :: u64
  fr_lockAckID :: "byte list"
  fr_lockAckIDLen :: u32

definition FLockRangeMsg_serializePayload :: "NetMessageHeader \<Rightarrow> FLockRangeMsg \<Rightarrow> SerializeCtx \<Rightarrow> SerializeCtx option" where
  "FLockRangeMsg_serializePayload header this ctx = do {
     ctx \<leftarrow> NumNodeID_serialize ctx (fr_clientNumID this);
     ctx \<leftarrow> Serialization_serializeUInt64 ctx (fr_start this);
     ctx \<leftarrow> Serialization_serializeUInt64 ctx (fr_end this);
     ctx \<leftarrow> Serialization_serializeInt ctx (fr_ownerPID this);
     ctx \<leftarrow> Serialization_serializeInt ctx (fr_lockTypeFlags this);
     ctx \<leftarrow> EntryInfo_serialize ctx (fr_entryInfoPtr this);
     ctx \<leftarrow> Serialization_serializeStrAlign4 ctx (fr_fileHandleIDLen this) (fr_fileHandleID this);
     Serialization_serializeStrAlign4 ctx (fr_lockAckIDLen this) (fr_lockAckID this) }"

definition FLockRangeMsg_Ops :: "FLockRangeMsg NetMessageOps" where
  "FLockRangeMsg_Ops = \<lparr>serializePayload = FLockRangeMsg_serializePayload, deserializePayload = NetMessage_deserializeDummy,
     getSupportedHeaderFeatureFlagsMask = 0, supportsSequenceNumbers = True\<rparr>"

definition FLockRangeMsg_initFromSession :: "u32 \<Rightarrow> NumNodeID \<Rightarrow> (byte list) \<Rightarrow> EntryInfo \<Rightarrow> u32 \<Rightarrow> u32 \<Rightarrow> u64 \<Rightarrow> u64 \<Rightarrow> (byte list) \<Rightarrow> FLockRangeMsg NetMessage" where
  "FLockRangeMsg_initFromSession uid clientNumID fileHandleID entryInfo ownerPID lockTypeFlags start rend lockAckID =
     NetMessage_init uid 3027 FLockRangeMsg_Ops
       \<lparr>fr_clientNumID = clientNumID, fr_fileHandleID = fileHandleID, fr_fileHandleIDLen = of_nat
        (length fileHandleID), fr_entryInfoPtr = entryInfo, fr_ownerPID = ownerPID, fr_lockTypeFlags =
        lockTypeFlags, fr_start = start, fr_end = rend, fr_lockAckID = lockAckID, fr_lockAckIDLen =
        of_nat (length lockAckID)\<rparr>"

subsection \<open>CloseFileMsg\<close>

record CloseFileMsg =
  cf_clientNumID :: NumNodeID
  cf_fileHandleIDLen :: u32
  cf_fileHandleID :: "byte list"
  cf_maxUsedNodeIndex :: u32
  cf_entryInfoPtr :: EntryInfo
  cf_fileEvent :: "FileEvent option"

definition CloseFileMsg_serializePayload :: "NetMessageHeader \<Rightarrow> CloseFileMsg \<Rightarrow> SerializeCtx \<Rightarrow> SerializeCtx option" where
  "CloseFileMsg_serializePayload header this ctx = do {
     ctx \<leftarrow> NumNodeID_serialize ctx (cf_clientNumID this);
     ctx \<leftarrow> Serialization_serializeStrAlign4 ctx (cf_fileHandleIDLen this) (cf_fileHandleID this);
     ctx \<leftarrow> EntryInfo_serialize ctx (cf_entryInfoPtr this);
     ctx \<leftarrow> Serialization_serializeInt ctx (cf_maxUsedNodeIndex this);
     if NetMessage_isMsgHeaderFeatureFlagSet header 8 then cf_fileEvent this \<bind> FileEvent_serialize ctx else Some ctx }"

definition CloseFileMsg_Ops :: "CloseFileMsg NetMessageOps" where
  "CloseFileMsg_Ops = \<lparr>serializePayload = CloseFileMsg_serializePayload, deserializePayload = NetMessage_deserializeDummy,
     getSupportedHeaderFeatureFlagsMask = 0, supportsSequenceNumbers = True\<rparr>"

definition CloseFileMsg_initFromSession :: "u32 \<Rightarrow> NumNodeID \<Rightarrow> (byte list) \<Rightarrow> EntryInfo \<Rightarrow> u32 \<Rightarrow> (FileEvent option) \<Rightarrow> CloseFileMsg NetMessage" where
  "CloseFileMsg_initFromSession uid clientNumID fileHandleID entryInfo maxUsedNodeIndex fileEvent =
     flagIf (fileEvent \<noteq> None) 8 (NetMessage_init uid 3003 CloseFileMsg_Ops
       \<lparr>cf_clientNumID = clientNumID, cf_fileHandleIDLen = of_nat (length fileHandleID), cf_fileHandleID
        = fileHandleID, cf_maxUsedNodeIndex = maxUsedNodeIndex, cf_entryInfoPtr = entryInfo,
        cf_fileEvent = fileEvent\<rparr>)"

subsection \<open>OpenFileMsg\<close>

record OpenFileMsg =
  of_clientNumID :: NumNodeID
  of_sessionIDLen :: u32
  of_entryInfoPtr :: EntryInfo
  of_accessFlags :: u32
  of_fileEvent :: "FileEvent option"

definition OpenFileMsg_serializePayload :: "NetMessageHeader \<Rightarrow> OpenFileMsg \<Rightarrow> SerializeCtx \<Rightarrow> SerializeCtx option" where
  "OpenFileMsg_serializePayload header this ctx = do {
     ctx \<leftarrow> NumNodeID_serialize ctx (of_clientNumID this);
     ctx \<leftarrow> Serialization_serializeUInt ctx (of_accessFlags this);
     ctx \<leftarrow> EntryInfo_serialize ctx (of_entryInfoPtr this);
     if NetMessage_isMsgHeaderFeatureFlagSet header 2 then of_fileEvent this \<bind> FileEvent_serialize ctx else Some ctx }"

definition OpenFileMsg_Ops :: "OpenFileMsg NetMessageOps" where
  "OpenFileMsg_Ops = \<lparr>serializePayload = OpenFileMsg_serializePayload, deserializePayload = NetMessage_deserializeDummy,
     getSupportedHeaderFeatureFlagsMask = 0, supportsSequenceNumbers = True\<rparr>"

definition OpenFileMsg_initFromSession :: "u32 \<Rightarrow> OpenFileMsg \<Rightarrow> NumNodeID \<Rightarrow> EntryInfo \<Rightarrow> u32 \<Rightarrow> (FileEvent option) \<Rightarrow> OpenFileMsg NetMessage" where
  "OpenFileMsg_initFromSession uid fresh clientNumID entryInfo accessFlags fileEvent =
     flagIf (fileEvent \<noteq> None) 2 (NetMessage_init uid 3001 OpenFileMsg_Ops
       \<lparr>of_clientNumID = clientNumID, of_sessionIDLen = of_sessionIDLen fresh, of_entryInfoPtr =
        entryInfo, of_accessFlags = accessFlags, of_fileEvent = fileEvent\<rparr>)"

subsection \<open>ReadLocalFileV2Msg\<close>

record ReadLocalFileV2Msg =
  rl_offset :: u64
  rl_count :: u64
  rl_accessFlags :: u32
  rl_clientNumID :: NumNodeID
  rl_fileHandleID :: "byte list"
  rl_fileHandleIDLen :: u32
  rl_pathInfoPtr :: PathInfo
  rl_targetID :: u16

definition ReadLocalFileV2Msg_serializePayload :: "NetMessageHeader \<Rightarrow> ReadLocalFileV2Msg \<Rightarrow> SerializeCtx \<Rightarrow> SerializeCtx option" where
  "ReadLocalFileV2Msg_serializePayload header this ctx = do {
     ctx \<leftarrow> Serialization_serializeInt64 ctx (rl_offset this);
     ctx \<leftarrow> Serialization_serializeInt64 ctx (rl_count this);
     ctx \<leftarrow> Serialization_serializeUInt ctx (rl_accessFlags this);
     ctx \<leftarrow> Serialization_serializeStrAlign4 ctx (rl_fileHandleIDLen this) (rl_fileHandleID this);
     ctx \<leftarrow> NumNodeID_serialize ctx (rl_clientNumID this);
     ctx \<leftarrow> PathInfo_serialize ctx (rl_pathInfoPtr this);
     Serialization_serializeUShort ctx (rl_targetID this) }"

definition ReadLocalFileV2Msg_Ops :: "ReadLocalFileV2Msg NetMessageOps" where
  "ReadLocalFileV2Msg_Ops = \<lparr>serializePayload = ReadLocalFileV2Msg_serializePayload, deserializePayload = NetMessage_deserializeDummy,
     getSupportedHeaderFeatureFlagsMask = 0, supportsSequenceNumbers = False\<rparr>"

definition ReadLocalFileV2Msg_initFromSession :: "u32 \<Rightarrow> NumNodeID \<Rightarrow> (byte list) \<Rightarrow> u16 \<Rightarrow> PathInfo \<Rightarrow> u32 \<Rightarrow> u64 \<Rightarrow> u64 \<Rightarrow> ReadLocalFileV2Msg NetMessage" where
  "ReadLocalFileV2Msg_initFromSession uid clientNumID fileHandleID targetID pathInfo accessFlags offset count =
     NetMessage_init uid 3019 ReadLocalFileV2Msg_Ops
       \<lparr>rl_offset = offset, rl_count = count, rl_accessFlags = accessFlags, rl_clientNumID =
        clientNumID, rl_fileHandleID = fileHandleID, rl_fileHandleIDLen = of_nat (length fileHandleID),
        rl_pathInfoPtr = pathInfo, rl_targetID = targetID\<rparr>"

subsection \<open>WriteLocalFileMsg\<close>

record WriteLocalFileMsg =
  wl_offset :: u64
  wl_count :: u64
  wl_accessFlags :: u32
  wl_clientNumID :: NumNodeID
  wl_fileHandleID :: "byte list"
  wl_fileHandleIDLen :: u32
  wl_targetID :: u16
  wl_pathInfo :: PathInfo
  wl_userID :: u32
  wl_groupID :: u32

definition WriteLocalFileMsg_serializePayload :: "NetMessageHeader \<Rightarrow> WriteLocalFileMsg \<Rightarrow> SerializeCtx \<Rightarrow> SerializeCtx option" where
  "WriteLocalFileMsg_serializePayload header this ctx = do {
     ctx \<leftarrow> Serialization_serializeInt64 ctx (wl_offset this);
     ctx \<leftarrow> Serialization_serializeInt64 ctx (wl_count this);
     ctx \<leftarrow> Serialization_serializeUInt ctx (wl_accessFlags this);
     ctx \<leftarrow> (if NetMessage_isMsgHeaderFeatureFlagSet header 2 then do {
         ctx \<leftarrow> Serialization_serializeUInt ctx (wl_userID this);
         Serialization_serializeUInt ctx (wl_groupID this) }
       else Some ctx);
     ctx \<leftarrow> Serialization_serializeStrAlign4 ctx (wl_fileHandleIDLen this) (wl_fileHandleID this);
     ctx \<leftarrow> NumNodeID_serialize ctx (wl_clientNumID this);
     ctx \<leftarrow> PathInfo_serialize ctx (wl_pathInfo this);
     Serialization_serializeUShort ctx (wl_targetID this) }"

definition WriteLocalFileMsg_Ops :: "WriteLocalFileMsg NetMessageOps" where
  "WriteLocalFileMsg_Ops = \<lparr>serializePayload = WriteLocalFileMsg_serializePayload, deserializePayload = NetMessage_deserializeDummy,
     getSupportedHeaderFeatureFlagsMask = 0, supportsSequenceNumbers = False\<rparr>"

definition WriteLocalFileMsg_initFromSession :: "u32 \<Rightarrow> WriteLocalFileMsg \<Rightarrow> NumNodeID \<Rightarrow> (byte list) \<Rightarrow> u16 \<Rightarrow> PathInfo \<Rightarrow> u32 \<Rightarrow> u64 \<Rightarrow> u64 \<Rightarrow> WriteLocalFileMsg NetMessage" where
  "WriteLocalFileMsg_initFromSession uid fresh clientNumID fileHandleID targetID pathInfo accessFlags offset count =
     NetMessage_init uid 3009 WriteLocalFileMsg_Ops
       \<lparr>wl_offset = offset, wl_count = count, wl_accessFlags = accessFlags, wl_clientNumID =
        clientNumID, wl_fileHandleID = fileHandleID, wl_fileHandleIDLen = of_nat (length fileHandleID),
        wl_targetID = targetID, wl_pathInfo = pathInfo, wl_userID = wl_userID fresh, wl_groupID =
        wl_groupID fresh\<rparr>"

definition WriteLocalFileMsg_setUserdataForQuota :: "WriteLocalFileMsg NetMessage \<Rightarrow> u32 \<Rightarrow> u32 \<Rightarrow> WriteLocalFileMsg NetMessage" where
  "WriteLocalFileMsg_setUserdataForQuota this userID groupID =
     (NetMessage_addMsgHeaderFeatureFlag 2 this)
       \<lparr>msgPayload := (msgPayload this)\<lparr>wl_userID := userID, wl_groupID := groupID\<rparr>\<rparr>"

subsection \<open>RegisterNodeMsg\<close>

record RegisterNodeMsg =
  rg_nodeID :: "byte list"
  rg_nodeIDLen :: u32
  rg_nodeNumID :: NumNodeID
  rg_rootNumID :: NumNodeID
  rg_rootIsBuddyMirrored :: bool
  rg_nodeType :: u32
  rg_nicList :: "NicAddress list"
  rg_portUDP :: u16
  rg_portTCP :: u16
  rg_instanceVersion :: u64
  rg_nicListVersion :: u64

definition RegisterNodeMsg_serializePayload :: "NetMessageHeader \<Rightarrow> RegisterNodeMsg \<Rightarrow> SerializeCtx \<Rightarrow> SerializeCtx option" where
  "RegisterNodeMsg_serializePayload header this ctx = do {
     ctx \<leftarrow> Serialization_serializeUInt64 ctx (rg_instanceVersion this);
     ctx \<leftarrow> Serialization_serializeUInt64 ctx (rg_nicListVersion this);
     ctx \<leftarrow> Serialization_serializeStr ctx (rg_nodeIDLen this) (rg_nodeID this);
     ctx \<leftarrow> Serialization_serializeNicList ctx (rg_nicList this);
     ctx \<leftarrow> Serialization_serializeInt ctx (rg_nodeType this);
     ctx \<leftarrow> NumNodeID_serialize ctx (rg_nodeNumID this);
     ctx \<leftarrow> NumNodeID_serialize ctx (rg_rootNumID this);
     ctx \<leftarrow> Serialization_serializeBool ctx (rg_rootIsBuddyMirrored this);
     ctx \<leftarrow> Serialization_serializeUShort ctx (rg_portUDP this);
     Serialization_serializeUShort ctx (rg_portTCP this) }"

definition RegisterNodeMsg_Ops :: "RegisterNodeMsg NetMessageOps" where
  "RegisterNodeMsg_Ops = \<lparr>serializePayload = RegisterNodeMsg_serializePayload, deserializePayload = NetMessage_deserializeDummy,
     getSupportedHeaderFeatureFlagsMask = 0, supportsSequenceNumbers = False\<rparr>"

definition RegisterNodeMsg_initFromNodeData :: "u32 \<Rightarrow> (byte list) \<Rightarrow> NumNodeID \<Rightarrow> u32 \<Rightarrow> (NicAddress list) \<Rightarrow> u16 \<Rightarrow> RegisterNodeMsg NetMessage" where
  "RegisterNodeMsg_initFromNodeData uid nodeID nodeNumID nodeType nicList portUDP =
     NetMessage_init uid 1039 RegisterNodeMsg_Ops
       \<lparr>rg_nodeID = nodeID, rg_nodeIDLen = of_nat (length nodeID), rg_nodeNumID = nodeNumID,
        rg_rootNumID = \<lparr>nn_value = 0\<rparr>, rg_rootIsBuddyMirrored = False, rg_nodeType =
        nodeType, rg_nicList = nicList, rg_portUDP = portUDP, rg_portTCP = 0, rg_instanceVersion = 0,
        rg_nicListVersion = 0\<rparr>"

section \<open>Every class can be sent\<close>

definition event_ok :: "bool \<Rightarrow> FileEvent option \<Rightarrow> bool" where
  "event_ok flagged e \<longleftrightarrow> (flagged \<longrightarrow> (\<exists>ev. e = Some ev \<and> small_event ev))"

lemma writes_event:
  "event_ok flagged e \<Longrightarrow> writes (2 ^ 19) (\<lambda>ctx. if flagged then e \<bind> FileEvent_serialize ctx else Some ctx)"
  using writes_fileEvent by (intro writes_if) (fastforce simp: event_ok_def)

lemma writes_revalidate:
  "(flagged \<longrightarrow> (\<exists>e. x = Some e \<and> small_entry e)) \<Longrightarrow>
   writes (2 ^ 19) (\<lambda>ctx. if flagged then x \<bind> EntryInfo_serialize ctx else Some ctx)"
  using writes_entryInfo by (intro writes_if) fastforce

lemma flagSet_length [simp]:
  "NetMessage_isMsgHeaderFeatureFlagSet (h\<lparr>msgLength := l\<rparr>) f = NetMessage_isMsgHeaderFeatureFlagSet h f"
  by (simp add: NetMessage_isMsgHeaderFeatureFlagSet_def)

lemma writes_charArray64:
  assumes "length arr = unat (n :: u64)" "unat n < 2 ^ 17"
  shows "writes (2 ^ 18) (\<lambda>ctx. Serialization_serializeCharArray ctx (ucast n) arr)"
proof (rule writes_charArray)
  have "unat (ucast n :: u32) = unat n" using assms(2) by (simp add: unsigned_ucast_eq take_bit_nat_eq_self)
  then show "length arr = unat (ucast n :: u32)" "length arr < 2 ^ 17" using assms by simp_all
qed

lemmas payload_intros = writes_charArray64 writes_event writes_revalidate writes_intros

definition HardlinkMsg_ok :: "NetMessageHeader \<Rightarrow> HardlinkMsg \<Rightarrow> bool" where
  "HardlinkMsg_ok header this \<longleftrightarrow> small_entry (hl_fromInfo this) \<and>
     small_entry (hl_toDirInfo this) \<and>
     small_str (hl_toName this) \<and>
     hl_toNameLen this = of_nat (length (hl_toName this)) \<and>
     small_entry (hl_fromDirInfo this) \<and>
     small_str (hl_fromName this) \<and>
     hl_fromNameLen this = of_nat (length (hl_fromName this)) \<and>
     event_ok (NetMessage_isMsgHeaderFeatureFlagSet header 2) (hl_fileEvent this)"

interpretation HardlinkMsg: sendable HardlinkMsg_Ops HardlinkMsg_ok
proof
  fix h this l
  show "serializePayload HardlinkMsg_Ops (h\<lparr>msgLength := l\<rparr>) this = serializePayload HardlinkMsg_Ops h this"
    unfolding HardlinkMsg_Ops_def NetMessageOps.simps HardlinkMsg_serializePayload_def [abs_def] flagSet_length by (rule refl)
  assume ok: "HardlinkMsg_ok h this"
  show "writes (2 ^ 24) (serializePayload HardlinkMsg_Ops h this)"
    unfolding HardlinkMsg_Ops_def NetMessageOps.simps HardlinkMsg_serializePayload_def [abs_def]
    by (rule writes_mono, (rule payload_intros | use ok in \<open>simp add: HardlinkMsg_ok_def\<close>)+)
qed

definition MkDirMsg_ok :: "NetMessageHeader \<Rightarrow> MkDirMsg \<Rightarrow> bool" where
  "MkDirMsg_ok header this \<longleftrightarrow> small_entry (md_parentInfo this) \<and>
     small_str (md_newDirName this) \<and>
     md_newDirNameLen this = of_nat (length (md_newDirName this)) \<and>
     length (md_preferredNodes this) < 2 ^ 16 \<and>
     event_ok (NetMessage_isMsgHeaderFeatureFlagSet header 4) (md_fileEvent this)"

interpretation MkDirMsg: sendable MkDirMsg_Ops MkDirMsg_ok
proof
  fix h this l
  show "serializePayload MkDirMsg_Ops (h\<lparr>msgLength := l\<rparr>) this = serializePayload MkDirMsg_Ops h this"
    unfolding MkDirMsg_Ops_def NetMessageOps.simps MkDirMsg_serializePayload_def [abs_def] flagSet_length by (rule refl)
  assume ok: "MkDirMsg_ok h this"
  show "writes (2 ^ 24) (serializePayload MkDirMsg_Ops h this)"
    unfolding MkDirMsg_Ops_def NetMessageOps.simps MkDirMsg_serializePayload_def [abs_def]
    by (rule writes_mono, (rule payload_intros | use ok in \<open>simp add: MkDirMsg_ok_def\<close>)+)
qed

definition MkFileMsg_ok :: "NetMessageHeader \<Rightarrow> MkFileMsg \<Rightarrow> bool" where
  "MkFileMsg_ok header this \<longleftrightarrow> small_entry (mf_parentInfoPtr this) \<and>
     small_str (mf_newFileName this) \<and>
     mf_newFileNameLen this = of_nat (length (mf_newFileName this)) \<and>
     length (mf_preferredTargets this) < 2 ^ 16 \<and>
     event_ok (NetMessage_isMsgHeaderFeatureFlagSet header 4) (mf_fileEvent this)"

interpretation MkFileMsg: sendable MkFileMsg_Ops MkFileMsg_ok
proof
  fix h this l
  show "serializePayload MkFileMsg_Ops (h\<lparr>msgLength := l\<rparr>) this = serializePayload MkFileMsg_Ops h this"
    unfolding MkFileMsg_Ops_def NetMessageOps.simps MkFileMsg_serializePayload_def [abs_def] flagSet_length by (rule refl)
  assume ok: "MkFileMsg_ok h this"
  show "writes (2 ^ 24) (serializePayload MkFileMsg_Ops h this)"
    unfolding MkFileMsg_Ops_def NetMessageOps.simps MkFileMsg_serializePayload_def [abs_def]
    by (rule writes_mono, (rule payload_intros | use ok in \<open>simp add: MkFileMsg_ok_def\<close>)+)
qed

definition RmDirMsg_ok :: "NetMessageHeader \<Rightarrow> RmDirMsg \<Rightarrow> bool" where
  "RmDirMsg_ok header this \<longleftrightarrow> small_entry (rd_parentInfo this) \<and>
     small_str (rd_delDirName this) \<and>
     rd_delDirNameLen this = of_nat (length (rd_delDirName this)) \<and>
     event_ok (NetMessage_isMsgHeaderFeatureFlagSet header 1) (rd_fileEvent this)"

interpretation RmDirMsg: sendable RmDirMsg_Ops RmDirMsg_ok
proof
  fix h this l
  show "serializePayload RmDirMsg_Ops (h\<lparr>msgLength := l\<rparr>) this = serializePayload RmDirMsg_Ops h this"
    unfolding RmDirMsg_Ops_def NetMessageOps.simps RmDirMsg_serializePayload_def [abs_def] flagSet_length by (rule refl)
  assume ok: "RmDirMsg_ok h this"
  show "writes (2 ^ 24) (serializePayload RmDirMsg_Ops h this)"
    unfolding RmDirMsg_Ops_def NetMessageOps.simps RmDirMsg_serializePayload_def [abs_def]
    by (rule writes_mono, (rule payload_intros | use ok in \<open>simp add: RmDirMsg_ok_def\<close>)+)
qed

definition UnlinkFileMsg_ok :: "NetMessageHeader \<Rightarrow> UnlinkFileMsg \<Rightarrow> bool" where
  "UnlinkFileMsg_ok header this \<longleftrightarrow> small_entry (ul_parentInfoPtr this) \<and>
     small_str (ul_delFileName this) \<and>
     ul_delFileNameLen this = of_nat (length (ul_delFileName this)) \<and>
     event_ok (NetMessage_isMsgHeaderFeatureFlagSet header 1) (ul_fileEvent this)"

interpretation UnlinkFileMsg: sendable UnlinkFileMsg_Ops UnlinkFileMsg_ok
proof
  fix h this l
  show "serializePayload UnlinkFileMsg_Ops (h\<lparr>msgLength := l\<rparr>) this = serializePayload UnlinkFileMsg_Ops h this"
    unfolding UnlinkFileMsg_Ops_def NetMessageOps.simps UnlinkFileMsg_serializePayload_def [abs_def] flagSet_length by (rule refl)
  assume ok: "UnlinkFileMsg_ok h this"
  show "writes (2 ^ 24) (serializePayload UnlinkFileMsg_Ops h this)"
    unfolding UnlinkFileMsg_Ops_def NetMessageOps.simps UnlinkFileMsg_serializePayload_def [abs_def]
    by (rule writes_mono, (rule payload_intros | use ok in \<open>simp add: UnlinkFileMsg_ok_def\<close>)+)
qed

definition ListDirFromOffsetMsg_ok :: "NetMessageHeader \<Rightarrow> ListDirFromOffsetMsg \<Rightarrow> bool" where
  "ListDirFromOffsetMsg_ok header this \<longleftrightarrow> small_entry (ld_entryInfoPtr this)"

interpretation ListDirFromOffsetMsg: sendable ListDirFromOffsetMsg_Ops ListDirFromOffsetMsg_ok
proof
  fix h this l
  show "serializePayload ListDirFromOffsetMsg_Ops (h\<lparr>msgLength := l\<rparr>) this = serializePayload ListDirFromOffsetMsg_Ops h this"
    unfolding ListDirFromOffsetMsg_Ops_def NetMessageOps.simps ListDirFromOffsetMsg_serializePayload_def [abs_def] flagSet_length by (rule refl)
  assume ok: "ListDirFromOffsetMsg_ok h this"
  show "writes (2 ^ 24) (serializePayload ListDirFromOffsetMsg_Ops h this)"
    unfolding ListDirFromOffsetMsg_Ops_def NetMessageOps.simps ListDirFromOffsetMsg_serializePayload_def [abs_def]
    by (rule writes_mono, (rule payload_intros | use ok in \<open>simp add: ListDirFromOffsetMsg_ok_def\<close>)+)
qed

definition LookupIntentMsg_ok :: "NetMessageHeader \<Rightarrow> LookupIntentMsg \<Rightarrow> bool" where
  "LookupIntentMsg_ok header this \<longleftrightarrow> small_entry (li_parentInfoPtr this) \<and>
     small_str (li_entryName this) \<and>
     li_entryNameLen this = of_nat (length (li_entryName this)) \<and>
     (li_intentFlags this AND 1 \<noteq> 0 \<longrightarrow> (\<exists>e. li_entryInfoPtr this = Some e \<and> small_entry e)) \<and>
     (li_intentFlags this AND 2 \<noteq> 0 \<longrightarrow> length (li_preferredTargets this) < 2 ^ 16 \<and> event_ok (NetMessage_isMsgHeaderFeatureFlagSet header 8) (li_fileEvent this))"

interpretation LookupIntentMsg: sendable LookupIntentMsg_Ops LookupIntentMsg_ok
proof
  fix h this l
  show "serializePayload LookupIntentMsg_Ops (h\<lparr>msgLength := l\<rparr>) this = serializePayload LookupIntentMsg_Ops h this"
    unfolding LookupIntentMsg_Ops_def NetMessageOps.simps LookupIntentMsg_serializePayload_def [abs_def] flagSet_length by (rule refl)
  assume ok: "LookupIntentMsg_ok h this"
  show "writes (2 ^ 24) (serializePayload LookupIntentMsg_Ops h this)"
    unfolding LookupIntentMsg_Ops_def NetMessageOps.simps LookupIntentMsg_serializePayload_def [abs_def]
    by (rule writes_mono, (rule payload_intros | use ok in \<open>simp add: LookupIntentMsg_ok_def\<close>)+)
qed

definition RenameMsg_ok :: "NetMessageHeader \<Rightarrow> RenameMsg \<Rightarrow> bool" where
  "RenameMsg_ok header this \<longleftrightarrow> small_entry (rn_fromDirInfo this) \<and>
     small_entry (rn_toDirInfo this) \<and>
     small_str (rn_oldName this) \<and>
     rn_oldNameLen this = of_nat (length (rn_oldName this)) \<and>
     small_str (rn_newName this) \<and>
     rn_newNameLen this = of_nat (length (rn_newName this)) \<and>
     event_ok (NetMessage_isMsgHeaderFeatureFlagSet header 1) (rn_fileEvent this)"

interpretation RenameMsg: sendable RenameMsg_Ops RenameMsg_ok
proof
  fix h this l
  show "serializePayload RenameMsg_Ops (h\<lparr>msgLength := l\<rparr>) this = serializePayload RenameMsg_Ops h this"
    unfolding RenameMsg_Ops_def NetMessageOps.simps RenameMsg_serializePayload_def [abs_def] flagSet_length by (rule refl)
  assume ok: "RenameMsg_ok h this"
  show "writes (2 ^ 24) (serializePayload RenameMsg_Ops h this)"
    unfolding RenameMsg_Ops_def NetMessageOps.simps RenameMsg_serializePayload_def [abs_def]
    by (rule writes_mono, (rule payload_intros | use ok in \<open>simp add: RenameMsg_ok_def\<close>)+)
qed

definition GetXAttrMsg_ok :: "NetMessageHeader \<Rightarrow> GetXAttrMsg \<Rightarrow> bool" where
  "GetXAttrMsg_ok header this \<longleftrightarrow> small_entry (gx_entryInfoPtr this) \<and>
     small_str (gx_name this)"

interpretation GetXAttrMsg: sendable GetXAttrMsg_Ops GetXAttrMsg_ok
proof
  fix h this l
  show "serializePayload GetXAttrMsg_Ops (h\<lparr>msgLength := l\<rparr>) this = serializePayload GetXAttrMsg_Ops h this"
    unfolding GetXAttrMsg_Ops_def NetMessageOps.simps GetXAttrMsg_serializePayload_def [abs_def] flagSet_length by (rule refl)
  assume ok: "GetXAttrMsg_ok h this"
  show "writes (2 ^ 24) (serializePayload GetXAttrMsg_Ops h this)"
    unfolding GetXAttrMsg_Ops_def NetMessageOps.simps GetXAttrMsg_serializePayload_def [abs_def]
    by (rule writes_mono, (rule payload_intros | use ok in \<open>simp add: GetXAttrMsg_ok_def\<close>)+)
qed

definition ListXAttrMsg_ok :: "NetMessageHeader \<Rightarrow> ListXAttrMsg \<Rightarrow> bool" where
  "ListXAttrMsg_ok header this \<longleftrightarrow> small_entry (lx_entryInfoPtr this)"

interpretation ListXAttrMsg: sendable ListXAttrMsg_Ops ListXAttrMsg_ok
proof
  fix h this l
  show "serializePayload ListXAttrMsg_Ops (h\<lparr>msgLength := l\<rparr>) this = serializePayload ListXAttrMsg_Ops h this"
    unfolding ListXAttrMsg_Ops_def NetMessageOps.simps ListXAttrMsg_serializePayload_def [abs_def] flagSet_length by (rule refl)
  assume ok: "ListXAttrMsg_ok h this"
  show "writes (2 ^ 24) (serializePayload ListXAttrMsg_Ops h this)"
    unfolding ListXAttrMsg_Ops_def NetMessageOps.simps ListXAttrMsg_serializePayload_def [abs_def]
    by (rule writes_mono, (rule payload_intros | use ok in \<open>simp add: ListXAttrMsg_ok_def\<close>)+)
qed

definition RemoveXAttrMsg_ok :: "NetMessageHeader \<Rightarrow> RemoveXAttrMsg \<Rightarrow> bool" where
  "RemoveXAttrMsg_ok header this \<longleftrightarrow> small_entry (rx_entryInfoPtr this) \<and>
     small_str (rx_name this)"

interpretation RemoveXAttrMsg: sendable RemoveXAttrMsg_Ops RemoveXAttrMsg_ok
proof
  fix h this l
  show "serializePayload RemoveXAttrMsg_Ops (h\<lparr>msgLength := l\<rparr>) this = serializePayload RemoveXAttrMsg_Ops h this"
    unfolding RemoveXAttrMsg_Ops_def NetMessageOps.simps RemoveXAttrMsg_serializePayload_def [abs_def] flagSet_length by (rule refl)
  assume ok: "RemoveXAttrMsg_ok h this"
  show "writes (2 ^ 24) (serializePayload RemoveXAttrMsg_Ops h this)"
    unfolding RemoveXAttrMsg_Ops_def NetMessageOps.simps RemoveXAttrMsg_serializePayload_def [abs_def]
    by (rule writes_mono, (rule payload_intros | use ok in \<open>simp add: RemoveXAttrMsg_ok_def\<close>)+)
qed

definition SetXAttrMsg_ok :: "NetMessageHeader \<Rightarrow> SetXAttrMsg \<Rightarrow> bool" where
  "SetXAttrMsg_ok header this \<longleftrightarrow> small_entry (sx_entryInfoPtr this) \<and>
     small_str (sx_name this) \<and>
     length (sx_value this) = unat (sx_size this) \<and>
     unat (sx_size this) < 2 ^ 17"

interpretation SetXAttrMsg: sendable SetXAttrMsg_Ops SetXAttrMsg_ok
proof
  fix h this l
  show "serializePayload SetXAttrMsg_Ops (h\<lparr>msgLength := l\<rparr>) this = serializePayload SetXAttrMsg_Ops h this"
    unfolding SetXAttrMsg_Ops_def NetMessageOps.simps SetXAttrMsg_serializePayload_def [abs_def] flagSet_length by (rule refl)
  assume ok: "SetXAttrMsg_ok h this"
  show "writes (2 ^ 24) (serializePayload SetXAttrMsg_Ops h this)"
    unfolding SetXAttrMsg_Ops_def NetMessageOps.simps SetXAttrMsg_serializePayload_def [abs_def]
    by (rule writes_mono, (rule payload_intros | use ok in \<open>simp add: SetXAttrMsg_ok_def\<close>)+)
qed

definition RefreshEntryInfoMsg_ok :: "NetMessageHeader \<Rightarrow> RefreshEntryInfoMsg \<Rightarrow> bool" where
  "RefreshEntryInfoMsg_ok header this \<longleftrightarrow> small_entry (re_entryInfoPtr this)"

interpretation RefreshEntryInfoMsg: sendable RefreshEntryInfoMsg_Ops RefreshEntryInfoMsg_ok
proof
  fix h this l
  show "serializePayload RefreshEntryInfoMsg_Ops (h\<lparr>msgLength := l\<rparr>) this = serializePayload RefreshEntryInfoMsg_Ops h this"
    unfolding RefreshEntryInfoMsg_Ops_def NetMessageOps.simps RefreshEntryInfoMsg_serializePayload_def [abs_def] flagSet_length by (rule refl)
  assume ok: "RefreshEntryInfoMsg_ok h this"
  show "writes (2 ^ 24) (serializePayload RefreshEntryInfoMsg_Ops h this)"
    unfolding RefreshEntryInfoMsg_Ops_def NetMessageOps.simps RefreshEntryInfoMsg_serializePayload_def [abs_def]
    by (rule writes_mono, (rule payload_intros | use ok in \<open>simp add: RefreshEntryInfoMsg_ok_def\<close>)+)
qed

definition SetAttrMsg_ok :: "NetMessageHeader \<Rightarrow> SetAttrMsg \<Rightarrow> bool" where
  "SetAttrMsg_ok header this \<longleftrightarrow> small_entry (sa_entryInfoPtr this) \<and>
     event_ok (NetMessage_isMsgHeaderFeatureFlagSet header 4) (sa_fileEvent this)"

interpretation SetAttrMsg: sendable SetAttrMsg_Ops SetAttrMsg_ok
proof
  fix h this l
  show "serializePayload SetAttrMsg_Ops (h\<lparr>msgLength := l\<rparr>) this = serializePayload SetAttrMsg_Ops h this"
    unfolding SetAttrMsg_Ops_def NetMessageOps.simps SetAttrMsg_serializePayload_def [abs_def] flagSet_length by (rule refl)
  assume ok: "SetAttrMsg_ok h this"
  show "writes (2 ^ 24) (serializePayload SetAttrMsg_Ops h this)"
    unfolding SetAttrMsg_Ops_def NetMessageOps.simps SetAttrMsg_serializePayload_def [abs_def]
    by (rule writes_mono, (rule payload_intros | use ok in \<open>simp add: SetAttrMsg_ok_def\<close>)+)
qed

definition StatMsg_ok :: "NetMessageHeader \<Rightarrow> StatMsg \<Rightarrow> bool" where
  "StatMsg_ok header this \<longleftrightarrow> small_entry (sm_entryInfoPtr this)"

interpretation StatMsg: sendable StatMsg_Ops StatMsg_ok
proof
  fix h this l
  show "serializePayload StatMsg_Ops (h\<lparr>msgLength := l\<rparr>) this = serializePayload StatMsg_Ops h this"
    unfolding StatMsg_Ops_def NetMessageOps.simps StatMsg_serializePayload_def [abs_def] flagSet_length by (rule refl)
  assume ok: "StatMsg_ok h this"
  show "writes (2 ^ 24) (serializePayload StatMsg_Ops h this)"
    unfolding StatMsg_Ops_def NetMessageOps.simps StatMsg_serializePayload_def [abs_def]
    by (rule writes_mono, (rule payload_intros | use ok in \<open>simp add: StatMsg_ok_def\<close>)+)
qed

definition TruncFileMsg_ok :: "NetMessageHeader \<Rightarrow> TruncFileMsg \<Rightarrow> bool" where
  "TruncFileMsg_ok header this \<longleftrightarrow> small_entry (tf_entryInfoPtr this) \<and>
     event_ok (NetMessage_isMsgHeaderFeatureFlagSet header 2) (tf_fileEvent this)"

interpretation TruncFileMsg: sendable TruncFileMsg_Ops TruncFileMsg_ok
proof
  fix h this l
  show "serializePayload TruncFileMsg_Ops (h\<lparr>msgLength := l\<rparr>) this = serializePayload TruncFileMsg_Ops h this"
    unfolding TruncFileMsg_Ops_def NetMessageOps.simps TruncFileMsg_serializePayload_def [abs_def] flagSet_length by (rule refl)
  assume ok: "TruncFileMsg_ok h this"
  show "writes (2 ^ 24) (serializePayload TruncFileMsg_Ops h this)"
    unfolding TruncFileMsg_Ops_def NetMessageOps.simps TruncFileMsg_serializePayload_def [abs_def]
    by (rule writes_mono, (rule payload_intros | use ok in \<open>simp add: TruncFileMsg_ok_def\<close>)+)
qed

definition BumpFileVersionMsg_ok :: "NetMessageHeader \<Rightarrow> BumpFileVersionMsg \<Rightarrow> bool" where
  "BumpFileVersionMsg_ok header this \<longleftrightarrow> small_entry (bv_entryInfo this) \<and>
     event_ok (NetMessage_isMsgHeaderFeatureFlagSet header 2) (bv_fileEvent this)"

interpretation BumpFileVersionMsg: sendable BumpFileVersionMsg_Ops BumpFileVersionMsg_ok
proof
  fix h this l
  show "serializePayload BumpFileVersionMsg_Ops (h\<lparr>msgLength := l\<rparr>) this = serializePayload BumpFileVersionMsg_Ops h this"
    unfolding BumpFileVersionMsg_Ops_def NetMessageOps.simps BumpFileVersionMsg_serializePayload_def [abs_def] flagSet_length by (rule refl)
  assume ok: "BumpFileVersionMsg_ok h this"
  show "writes (2 ^ 24) (serializePayload BumpFileVersionMsg_Ops h this)"
    unfolding BumpFileVersionMsg_Ops_def NetMessageOps.simps BumpFileVersionMsg_serializePayload_def [abs_def]
    by (rule writes_mono, (rule payload_intros | use ok in \<open>simp add: BumpFileVersionMsg_ok_def\<close>)+)
qed

definition GetFileVersionMsg_ok :: "NetMessageHeader \<Rightarrow> GetFileVersionMsg \<Rightarrow> bool" where
  "GetFileVersionMsg_ok header this \<longleftrightarrow> small_entry (gv_entryInfo this)"

interpretation GetFileVersionMsg: sendable GetFileVersionMsg_Ops GetFileVersionMsg_ok
proof
  fix h this l
  show "serializePayload GetFileVersionMsg_Ops (h\<lparr>msgLength := l\<rparr>) this = serializePayload GetFileVersionMsg_Ops h this"
    unfolding GetFileVersionMsg_Ops_def NetMessageOps.simps GetFileVersionMsg_serializePayload_def [abs_def] flagSet_length by (rule refl)
  assume ok: "GetFileVersionMsg_ok h this"
  show "writes (2 ^ 24) (serializePayload GetFileVersionMsg_Ops h this)"
    unfolding GetFileVersionMsg_Ops_def NetMessageOps.simps GetFileVersionMsg_serializePayload_def [abs_def]
    by (rule writes_mono, (rule payload_intros | use ok in \<open>simp add: GetFileVersionMsg_ok_def\<close>)+)
qed

definition FSyncLocalFileMsg_ok :: "NetMessageHeader \<Rightarrow> FSyncLocalFileMsg \<Rightarrow> bool" where
  "FSyncLocalFileMsg_ok header this \<longleftrightarrow> small_str (fs_fileHandleID this) \<and>
     fs_fileHandleIDLen this = of_nat (length (fs_fileHandleID this))"

interpretation FSyncLocalFileMsg: sendable FSyncLocalFileMsg_Ops FSyncLocalFileMsg_ok
proof
  fix h this l
  show "serializePayload FSyncLocalFileMsg_Ops (h\<lparr>msgLength := l\<rparr>) this = serializePayload FSyncLocalFileMsg_Ops h this"
    unfolding FSyncLocalFileMsg_Ops_def NetMessageOps.simps FSyncLocalFileMsg_serializePayload_def [abs_def] flagSet_length by (rule refl)
  assume ok: "FSyncLocalFileMsg_ok h this"
  show "writes (2 ^ 24) (serializePayload FSyncLocalFileMsg_Ops h this)"
    unfolding FSyncLocalFileMsg_Ops_def NetMessageOps.simps FSyncLocalFileMsg_serializePayload_def [abs_def]
    by (rule writes_mono, (rule payload_intros | use ok in \<open>simp add: FSyncLocalFileMsg_ok_def\<close>)+)
qed

definition FLockAppendMsg_ok :: "NetMessageHeader \<Rightarrow> FLockAppendMsg \<Rightarrow> bool" where
  "FLockAppendMsg_ok header this \<longleftrightarrow> small_entry (fa_entryInfoPtr this) \<and>
     small_str (fa_fileHandleID this) \<and>
     fa_fileHandleIDLen this = of_nat (length (fa_fileHandleID this)) \<and>
     small_str (fa_lockAckID this) \<and>
     fa_lockAckIDLen this = of_nat (length (fa_lockAckID this))"

interpretation FLockAppendMsg: sendable FLockAppendMsg_Ops FLockAppendMsg_ok
proof
  fix h this l
  show "serializePayload FLockAppendMsg_Ops (h\<lparr>msgLength := l\<rparr>) this = serializePayload FLockAppendMsg_Ops h this"
    unfolding FLockAppendMsg_Ops_def NetMessageOps.simps FLockAppendMsg_serializePayload_def [abs_def] flagSet_length by (rule refl)
  assume ok: "FLockAppendMsg_ok h this"
  show "writes (2 ^ 24) (serializePayload FLockAppendMsg_Ops h this)"
    unfolding FLockAppendMsg_Ops_def NetMessageOps.simps FLockAppendMsg_serializePayload_def [abs_def]
    by (rule writes_mono, (rule payload_intros | use ok in \<open>simp add: FLockAppendMsg_ok_def\<close>)+)
qed

definition FLockEntryMsg_ok :: "NetMessageHeader \<Rightarrow> FLockEntryMsg \<Rightarrow> bool" where
  "FLockEntryMsg_ok header this \<longleftrightarrow> small_entry (fe_entryInfoPtr this) \<and>
     small_str (fe_fileHandleID this) \<and>
     fe_fileHandleIDLen this = of_nat (length (fe_fileHandleID this)) \<and>
     small_str (fe_lockAckID this) \<and>
     fe_lockAckIDLen this = of_nat (length (fe_lockAckID this))"

interpretation FLockEntryMsg: sendable FLockEntryMsg_Ops FLockEntryMsg_ok
proof
  fix h this l
  show "serializePayload FLockEntryMsg_Ops (h\<lparr>msgLength := l\<rparr>) this = serializePayload FLockEntryMsg_Ops h this"
    unfolding FLockEntryMsg_Ops_def NetMessageOps.simps FLockEntryMsg_serializePayload_def [abs_def] flagSet_length by (rule refl)
  assume ok: "FLockEntryMsg_ok h this"
  show "writes (2 ^ 24) (serializePayload FLockEntryMsg_Ops h this)"
    unfolding FLockEntryMsg_Ops_def NetMessageOps.simps FLockEntryMsg_serializePayload_def [abs_def]
    by (rule writes_mono, (rule payload_intros | use ok in \<open>simp add: FLockEntryMsg_ok_def\<close>)+)
qed

definition FLockRangeMsg_ok :: "NetMessageHeader \<Rightarrow> FLockRangeMsg \<Rightarrow> bool" where
  "FLockRangeMsg_ok header this \<longleftrightarrow> small_entry (fr_entryInfoPtr this) \<and>
     small_str (fr_fileHandleID this) \<and>
     fr_fileHandleIDLen this = of_nat (length (fr_fileHandleID this)) \<and>
     small_str (fr_lockAckID this) \<and>
     fr_lockAckIDLen this = of_nat (length (fr_lockAckID this))"

interpretation FLockRangeMsg: sendable FLockRangeMsg_Ops FLockRangeMsg_ok
proof
  fix h this l
  show "serializePayload FLockRangeMsg_Ops (h\<lparr>msgLength := l\<rparr>) this = serializePayload FLockRangeMsg_Ops h this"
    unfolding FLockRangeMsg_Ops_def NetMessageOps.simps FLockRangeMsg_serializePayload_def [abs_def] flagSet_length by (rule refl)
  assume ok: "FLockRangeMsg_ok h this"
  show "writes (2 ^ 24) (serializePayload FLockRangeMsg_Ops h this)"
    unfolding FLockRangeMsg_Ops_def NetMessageOps.simps FLockRangeMsg_serializePayload_def [abs_def]
    by (rule writes_mono, (rule payload_intros | use ok in \<open>simp add: FLockRangeMsg_ok_def\<close>)+)
qed

definition CloseFileMsg_ok :: "NetMessageHeader \<Rightarrow> CloseFileMsg \<Rightarrow> bool" where
  "CloseFileMsg_ok header this \<longleftrightarrow> small_str (cf_fileHandleID this) \<and>
     cf_fileHandleIDLen this = of_nat (length (cf_fileHandleID this)) \<and>
     small_entry (cf_entryInfoPtr this) \<and>
     event_ok (NetMessage_isMsgHeaderFeatureFlagSet header 8) (cf_fileEvent this)"

interpretation CloseFileMsg: sendable CloseFileMsg_Ops CloseFileMsg_ok
proof
  fix h this l
  show "serializePayload CloseFileMsg_Ops (h\<lparr>msgLength := l\<rparr>) this = serializePayload CloseFileMsg_Ops h this"
    unfolding CloseFileMsg_Ops_def NetMessageOps.simps CloseFileMsg_serializePayload_def [abs_def] flagSet_length by (rule refl)
  assume ok: "CloseFileMsg_ok h this"
  show "writes (2 ^ 24) (serializePayload CloseFileMsg_Ops h this)"
    unfolding CloseFileMsg_Ops_def NetMessageOps.simps CloseFileMsg_serializePayload_def [abs_def]
    by (rule writes_mono, (rule payload_intros | use ok in \<open>simp add: CloseFileMsg_ok_def\<close>)+)
qed

definition OpenFileMsg_ok :: "NetMessageHeader \<Rightarrow> OpenFileMsg \<Rightarrow> bool" where
  "OpenFileMsg_ok header this \<longleftrightarrow> small_entry (of_entryInfoPtr this) \<and>
     event_ok (NetMessage_isMsgHeaderFeatureFlagSet header 2) (of_fileEvent this)"

interpretation OpenFileMsg: sendable OpenFileMsg_Ops OpenFileMsg_ok
proof
  fix h this l
  show "serializePayload OpenFileMsg_Ops (h\<lparr>msgLength := l\<rparr>) this = serializePayload OpenFileMsg_Ops h this"
    unfolding OpenFileMsg_Ops_def NetMessageOps.simps OpenFileMsg_serializePayload_def [abs_def] flagSet_length by (rule refl)
  assume ok: "OpenFileMsg_ok h this"
  show "writes (2 ^ 24) (serializePayload OpenFileMsg_Ops h this)"
    unfolding OpenFileMsg_Ops_def NetMessageOps.simps OpenFileMsg_serializePayload_def [abs_def]
    by (rule writes_mono, (rule payload_intros | use ok in \<open>simp add: OpenFileMsg_ok_def\<close>)+)
qed

definition ReadLocalFileV2Msg_ok :: "NetMessageHeader \<Rightarrow> ReadLocalFileV2Msg \<Rightarrow> bool" where
  "ReadLocalFileV2Msg_ok header this \<longleftrightarrow> small_str (rl_fileHandleID this) \<and>
     rl_fileHandleIDLen this = of_nat (length (rl_fileHandleID this)) \<and>
     small_path (rl_pathInfoPtr this)"

interpretation ReadLocalFileV2Msg: sendable ReadLocalFileV2Msg_Ops ReadLocalFileV2Msg_ok
proof
  fix h this l
  show "serializePayload ReadLocalFileV2Msg_Ops (h\<lparr>msgLength := l\<rparr>) this = serializePayload ReadLocalFileV2Msg_Ops h this"
    unfolding ReadLocalFileV2Msg_Ops_def NetMessageOps.simps ReadLocalFileV2Msg_serializePayload_def [abs_def] flagSet_length by (rule refl)
  assume ok: "ReadLocalFileV2Msg_ok h this"
  show "writes (2 ^ 24) (serializePayload ReadLocalFileV2Msg_Ops h this)"
    unfolding ReadLocalFileV2Msg_Ops_def NetMessageOps.simps ReadLocalFileV2Msg_serializePayload_def [abs_def]
    by (rule writes_mono, (rule payload_intros | use ok in \<open>simp add: ReadLocalFileV2Msg_ok_def\<close>)+)
qed

definition WriteLocalFileMsg_ok :: "NetMessageHeader \<Rightarrow> WriteLocalFileMsg \<Rightarrow> bool" where
  "WriteLocalFileMsg_ok header this \<longleftrightarrow> small_str (wl_fileHandleID this) \<and>
     wl_fileHandleIDLen this = of_nat (length (wl_fileHandleID this)) \<and>
     small_path (wl_pathInfo this)"

interpretation WriteLocalFileMsg: sendable WriteLocalFileMsg_Ops WriteLocalFileMsg_ok
proof
  fix h this l
  show "serializePayload WriteLocalFileMsg_Ops (h\<lparr>msgLength := l\<rparr>) this = serializePayload WriteLocalFileMsg_Ops h this"
    unfolding WriteLocalFileMsg_Ops_def NetMessageOps.simps WriteLocalFileMsg_serializePayload_def [abs_def] flagSet_length by (rule refl)
  assume ok: "WriteLocalFileMsg_ok h this"
  show "writes (2 ^ 24) (serializePayload WriteLocalFileMsg_Ops h this)"
    unfolding WriteLocalFileMsg_Ops_def NetMessageOps.simps WriteLocalFileMsg_serializePayload_def [abs_def]
    by (rule writes_mono, (rule payload_intros | use ok in \<open>simp add: WriteLocalFileMsg_ok_def\<close>)+)
qed

definition RegisterNodeMsg_ok :: "NetMessageHeader \<Rightarrow> RegisterNodeMsg \<Rightarrow> bool" where
  "RegisterNodeMsg_ok header this \<longleftrightarrow> small_str (rg_nodeID this) \<and>
     rg_nodeIDLen this = of_nat (length (rg_nodeID this)) \<and>
     (\<forall>nic \<in> set (rg_nicList this). nic_wf nic) \<and>
     length (rg_nicList this) < 2 ^ 16"

interpretation RegisterNodeMsg: sendable RegisterNodeMsg_Ops RegisterNodeMsg_ok
proof
  fix h this l
  show "serializePayload RegisterNodeMsg_Ops (h\<lparr>msgLength := l\<rparr>) this = serializePayload RegisterNodeMsg_Ops h this"
    unfolding RegisterNodeMsg_Ops_def NetMessageOps.simps RegisterNodeMsg_serializePayload_def [abs_def] flagSet_length by (rule refl)
  assume ok: "RegisterNodeMsg_ok h this"
  show "writes (2 ^ 24) (serializePayload RegisterNodeMsg_Ops h this)"
    unfolding RegisterNodeMsg_Ops_def NetMessageOps.simps RegisterNodeMsg_serializePayload_def [abs_def]
    by (rule writes_mono, (rule payload_intros | use ok in \<open>simp add: RegisterNodeMsg_ok_def\<close>)+)
qed

section \<open>All requests\<close>

text \<open>A message of any of the classes, and the call through its table of functions.\<close>

datatype Request =
    HardlinkRequest "HardlinkMsg NetMessage"
  | MkDirRequest "MkDirMsg NetMessage"
  | MkFileRequest "MkFileMsg NetMessage"
  | RmDirRequest "RmDirMsg NetMessage"
  | UnlinkFileRequest "UnlinkFileMsg NetMessage"
  | ListDirFromOffsetRequest "ListDirFromOffsetMsg NetMessage"
  | LookupIntentRequest "LookupIntentMsg NetMessage"
  | RenameRequest "RenameMsg NetMessage"
  | GetXAttrRequest "GetXAttrMsg NetMessage"
  | ListXAttrRequest "ListXAttrMsg NetMessage"
  | RemoveXAttrRequest "RemoveXAttrMsg NetMessage"
  | SetXAttrRequest "SetXAttrMsg NetMessage"
  | RefreshEntryInfoRequest "RefreshEntryInfoMsg NetMessage"
  | SetAttrRequest "SetAttrMsg NetMessage"
  | StatRequest "StatMsg NetMessage"
  | TruncFileRequest "TruncFileMsg NetMessage"
  | BumpFileVersionRequest "BumpFileVersionMsg NetMessage"
  | GetFileVersionRequest "GetFileVersionMsg NetMessage"
  | FSyncLocalFileRequest "FSyncLocalFileMsg NetMessage"
  | FLockAppendRequest "FLockAppendMsg NetMessage"
  | FLockEntryRequest "FLockEntryMsg NetMessage"
  | FLockRangeRequest "FLockRangeMsg NetMessage"
  | CloseFileRequest "CloseFileMsg NetMessage"
  | OpenFileRequest "OpenFileMsg NetMessage"
  | ReadLocalFileV2Request "ReadLocalFileV2Msg NetMessage"
  | WriteLocalFileRequest "WriteLocalFileMsg NetMessage"
  | RegisterNodeRequest "RegisterNodeMsg NetMessage"

definition headerOf :: "(bool \<times> byte list \<times> 'p NetMessage) option \<Rightarrow> (bool \<times> byte list \<times> NetMessageHeader) option" where
  "headerOf = map_option (\<lambda>(stored, buf, msg). (stored, buf, msgHeader msg))"

fun Request_serialize :: "Request \<Rightarrow> byte list \<Rightarrow> u64 \<Rightarrow> (bool \<times> byte list \<times> NetMessageHeader) option" where
  "Request_serialize (HardlinkRequest msg) buf bufLen = headerOf (NetMessage_serialize msg buf bufLen)"
| "Request_serialize (MkDirRequest msg) buf bufLen = headerOf (NetMessage_serialize msg buf bufLen)"
| "Request_serialize (MkFileRequest msg) buf bufLen = headerOf (NetMessage_serialize msg buf bufLen)"
| "Request_serialize (RmDirRequest msg) buf bufLen = headerOf (NetMessage_serialize msg buf bufLen)"
| "Request_serialize (UnlinkFileRequest msg) buf bufLen = headerOf (NetMessage_serialize msg buf bufLen)"
| "Request_serialize (ListDirFromOffsetRequest msg) buf bufLen = headerOf (NetMessage_serialize msg buf bufLen)"
| "Request_serialize (LookupIntentRequest msg) buf bufLen = headerOf (NetMessage_serialize msg buf bufLen)"
| "Request_serialize (RenameRequest msg) buf bufLen = headerOf (NetMessage_serialize msg buf bufLen)"
| "Request_serialize (GetXAttrRequest msg) buf bufLen = headerOf (NetMessage_serialize msg buf bufLen)"
| "Request_serialize (ListXAttrRequest msg) buf bufLen = headerOf (NetMessage_serialize msg buf bufLen)"
| "Request_serialize (RemoveXAttrRequest msg) buf bufLen = headerOf (NetMessage_serialize msg buf bufLen)"
| "Request_serialize (SetXAttrRequest msg) buf bufLen = headerOf (NetMessage_serialize msg buf bufLen)"
| "Request_serialize (RefreshEntryInfoRequest msg) buf bufLen = headerOf (NetMessage_serialize msg buf bufLen)"
| "Request_serialize (SetAttrRequest msg) buf bufLen = headerOf (NetMessage_serialize msg buf bufLen)"
| "Request_serialize (StatRequest msg) buf bufLen = headerOf (NetMessage_serialize msg buf bufLen)"
| "Request_serialize (TruncFileRequest msg) buf bufLen = headerOf (NetMessage_serialize msg buf bufLen)"
| "Request_serialize (BumpFileVersionRequest msg) buf bufLen = headerOf (NetMessage_serialize msg buf bufLen)"
| "Request_serialize (GetFileVersionRequest msg) buf bufLen = headerOf (NetMessage_serialize msg buf bufLen)"
| "Request_serialize (FSyncLocalFileRequest msg) buf bufLen = headerOf (NetMessage_serialize msg buf bufLen)"
| "Request_serialize (FLockAppendRequest msg) buf bufLen = headerOf (NetMessage_serialize msg buf bufLen)"
| "Request_serialize (FLockEntryRequest msg) buf bufLen = headerOf (NetMessage_serialize msg buf bufLen)"
| "Request_serialize (FLockRangeRequest msg) buf bufLen = headerOf (NetMessage_serialize msg buf bufLen)"
| "Request_serialize (CloseFileRequest msg) buf bufLen = headerOf (NetMessage_serialize msg buf bufLen)"
| "Request_serialize (OpenFileRequest msg) buf bufLen = headerOf (NetMessage_serialize msg buf bufLen)"
| "Request_serialize (ReadLocalFileV2Request msg) buf bufLen = headerOf (NetMessage_serialize msg buf bufLen)"
| "Request_serialize (WriteLocalFileRequest msg) buf bufLen = headerOf (NetMessage_serialize msg buf bufLen)"
| "Request_serialize (RegisterNodeRequest msg) buf bufLen = headerOf (NetMessage_serialize msg buf bufLen)"

fun Request_header :: "Request \<Rightarrow> NetMessageHeader" where
  "Request_header (HardlinkRequest msg) = msgHeader msg"
| "Request_header (MkDirRequest msg) = msgHeader msg"
| "Request_header (MkFileRequest msg) = msgHeader msg"
| "Request_header (RmDirRequest msg) = msgHeader msg"
| "Request_header (UnlinkFileRequest msg) = msgHeader msg"
| "Request_header (ListDirFromOffsetRequest msg) = msgHeader msg"
| "Request_header (LookupIntentRequest msg) = msgHeader msg"
| "Request_header (RenameRequest msg) = msgHeader msg"
| "Request_header (GetXAttrRequest msg) = msgHeader msg"
| "Request_header (ListXAttrRequest msg) = msgHeader msg"
| "Request_header (RemoveXAttrRequest msg) = msgHeader msg"
| "Request_header (SetXAttrRequest msg) = msgHeader msg"
| "Request_header (RefreshEntryInfoRequest msg) = msgHeader msg"
| "Request_header (SetAttrRequest msg) = msgHeader msg"
| "Request_header (StatRequest msg) = msgHeader msg"
| "Request_header (TruncFileRequest msg) = msgHeader msg"
| "Request_header (BumpFileVersionRequest msg) = msgHeader msg"
| "Request_header (GetFileVersionRequest msg) = msgHeader msg"
| "Request_header (FSyncLocalFileRequest msg) = msgHeader msg"
| "Request_header (FLockAppendRequest msg) = msgHeader msg"
| "Request_header (FLockEntryRequest msg) = msgHeader msg"
| "Request_header (FLockRangeRequest msg) = msgHeader msg"
| "Request_header (CloseFileRequest msg) = msgHeader msg"
| "Request_header (OpenFileRequest msg) = msgHeader msg"
| "Request_header (ReadLocalFileV2Request msg) = msgHeader msg"
| "Request_header (WriteLocalFileRequest msg) = msgHeader msg"
| "Request_header (RegisterNodeRequest msg) = msgHeader msg"

definition sendable_msg :: "'p NetMessageOps \<Rightarrow> (NetMessageHeader \<Rightarrow> 'p \<Rightarrow> bool) \<Rightarrow> 'p NetMessage \<Rightarrow> bool" where
  "sendable_msg mops ok msg \<longleftrightarrow> ops msg = mops \<and> ok (msgHeader msg) (msgPayload msg) \<and>
     msgLength (msgHeader msg) = 0 \<and> header_flags_ok (msgHeader msg)"

fun request_ok :: "Request \<Rightarrow> bool" where
  "request_ok (HardlinkRequest msg) \<longleftrightarrow> sendable_msg HardlinkMsg_Ops HardlinkMsg_ok msg"
| "request_ok (MkDirRequest msg) \<longleftrightarrow> sendable_msg MkDirMsg_Ops MkDirMsg_ok msg"
| "request_ok (MkFileRequest msg) \<longleftrightarrow> sendable_msg MkFileMsg_Ops MkFileMsg_ok msg"
| "request_ok (RmDirRequest msg) \<longleftrightarrow> sendable_msg RmDirMsg_Ops RmDirMsg_ok msg"
| "request_ok (UnlinkFileRequest msg) \<longleftrightarrow> sendable_msg UnlinkFileMsg_Ops UnlinkFileMsg_ok msg"
| "request_ok (ListDirFromOffsetRequest msg) \<longleftrightarrow> sendable_msg ListDirFromOffsetMsg_Ops ListDirFromOffsetMsg_ok msg"
| "request_ok (LookupIntentRequest msg) \<longleftrightarrow> sendable_msg LookupIntentMsg_Ops LookupIntentMsg_ok msg"
| "request_ok (RenameRequest msg) \<longleftrightarrow> sendable_msg RenameMsg_Ops RenameMsg_ok msg"
| "request_ok (GetXAttrRequest msg) \<longleftrightarrow> sendable_msg GetXAttrMsg_Ops GetXAttrMsg_ok msg"
| "request_ok (ListXAttrRequest msg) \<longleftrightarrow> sendable_msg ListXAttrMsg_Ops ListXAttrMsg_ok msg"
| "request_ok (RemoveXAttrRequest msg) \<longleftrightarrow> sendable_msg RemoveXAttrMsg_Ops RemoveXAttrMsg_ok msg"
| "request_ok (SetXAttrRequest msg) \<longleftrightarrow> sendable_msg SetXAttrMsg_Ops SetXAttrMsg_ok msg"
| "request_ok (RefreshEntryInfoRequest msg) \<longleftrightarrow> sendable_msg RefreshEntryInfoMsg_Ops RefreshEntryInfoMsg_ok msg"
| "request_ok (SetAttrRequest msg) \<longleftrightarrow> sendable_msg SetAttrMsg_Ops SetAttrMsg_ok msg"
| "request_ok (StatRequest msg) \<longleftrightarrow> sendable_msg StatMsg_Ops StatMsg_ok msg"
| "request_ok (TruncFileRequest msg) \<longleftrightarrow> sendable_msg TruncFileMsg_Ops TruncFileMsg_ok msg"
| "request_ok (BumpFileVersionRequest msg) \<longleftrightarrow> sendable_msg BumpFileVersionMsg_Ops BumpFileVersionMsg_ok msg"
| "request_ok (GetFileVersionRequest msg) \<longleftrightarrow> sendable_msg GetFileVersionMsg_Ops GetFileVersionMsg_ok msg"
| "request_ok (FSyncLocalFileRequest msg) \<longleftrightarrow> sendable_msg FSyncLocalFileMsg_Ops FSyncLocalFileMsg_ok msg"
| "request_ok (FLockAppendRequest msg) \<longleftrightarrow> sendable_msg FLockAppendMsg_Ops FLockAppendMsg_ok msg"
| "request_ok (FLockEntryRequest msg) \<longleftrightarrow> sendable_msg FLockEntryMsg_Ops FLockEntryMsg_ok msg"
| "request_ok (FLockRangeRequest msg) \<longleftrightarrow> sendable_msg FLockRangeMsg_Ops FLockRangeMsg_ok msg"
| "request_ok (CloseFileRequest msg) \<longleftrightarrow> sendable_msg CloseFileMsg_Ops CloseFileMsg_ok msg"
| "request_ok (OpenFileRequest msg) \<longleftrightarrow> sendable_msg OpenFileMsg_Ops OpenFileMsg_ok msg"
| "request_ok (ReadLocalFileV2Request msg) \<longleftrightarrow> sendable_msg ReadLocalFileV2Msg_Ops ReadLocalFileV2Msg_ok msg"
| "request_ok (WriteLocalFileRequest msg) \<longleftrightarrow> sendable_msg WriteLocalFileMsg_Ops WriteLocalFileMsg_ok msg"
| "request_ok (RegisterNodeRequest msg) \<longleftrightarrow> sendable_msg RegisterNodeMsg_Ops RegisterNodeMsg_ok msg"

definition sent_exactly :: "NetMessageHeader \<Rightarrow> byte list \<Rightarrow> u64 \<Rightarrow> (bool \<times> byte list \<times> NetMessageHeader) option \<Rightarrow> bool" where
  "sent_exactly header buf bufLen result \<longleftrightarrow> (\<exists>len stored buf'.
     result = Some (stored, buf', header\<lparr>msgLength := len\<rparr>) \<and> (stored \<longleftrightarrow> ucast len \<le> bufLen) \<and>
     length buf' = length buf \<and> drop (unat len) buf' = drop (unat len) buf \<and> (\<not> stored \<longrightarrow> buf' = buf) \<and>
     (stored \<longrightarrow> (\<forall>g. NetMessage_deserializeHeader (take (unat len) buf') (g, \<lparr>d_pos = 0, d_length = ucast len\<rparr>)
        = Done (header\<lparr>msgLength := len\<rparr>, \<lparr>d_pos = 40, d_length = ucast len - 40\<rparr>))))"

context sendable
begin

lemma sends:
  assumes m: "sendable_msg mops ok msg" and buf: "unat bufLen \<le> length buf" "length buf < 2 ^ 32"
  shows "sent_exactly (msgHeader msg) buf bufLen (headerOf (NetMessage_serialize msg buf bufLen))"
proof -
  have m': "ops msg = mops" "ok (msgHeader msg) (msgPayload msg)" "msgLength (msgHeader msg) = 0"
    and flags: "header_flags_ok (msgHeader msg)"
    using m by (simp_all add: sendable_msg_def)
  obtain len bs where len: "unat len = 40 + length bs"
    and get: "NetMessage_getMsgLength msg = Some (len, msg\<lparr>msgHeader := (msgHeader msg)\<lparr>msgLength := len\<rparr>\<rparr>)"
    and s: "NetMessage_serialize msg buf bufLen =
      (if bufLen < ucast len then Some (False, buf, msg\<lparr>msgHeader := (msgHeader msg)\<lparr>msgLength := len\<rparr>\<rparr>)
       else Some (True, header_enc (msgHeader msg) len @ bs @ drop (unat len) buf,
                  msg\<lparr>msgHeader := (msgHeader msg)\<lparr>msgLength := len\<rparr>\<rparr>))"
    using count_and_store [OF m' buf] unfolding Let_def by blast
  show ?thesis
  proof (cases "bufLen < ucast len")
    case True
    then show ?thesis
      unfolding sent_exactly_def s headerOf_def
      by (intro exI [of _ len] exI [of _ False] exI [of _ buf]) (simp add: not_le)
  next
    case False
    then have ser: "NetMessage_serialize msg buf bufLen = Some (True, header_enc (msgHeader msg) len @ bs @ drop (unat len) buf,
        msg\<lparr>msgHeader := (msgHeader msg)\<lparr>msgLength := len\<rparr>\<rparr>)" using s by simp
    show ?thesis
      unfolding sent_exactly_def headerOf_def
      by (intro exI [of _ len] exI [of _ True] exI [of _ "header_enc (msgHeader msg) len @ bs @ drop (unat len) buf"])
        (use header_read_back [OF m' buf flags ser] False get in \<open>auto simp: ser not_less\<close>)
  qed
qed

end

text \<open>C12: Every well-formed request of any of the client's classes can be sent. The counting pass and the
  storing pass agree: with \<open>bufLen\<close> bytes of buffer the request is refused exactly when it is longer
  than that, and the buffer is then untouched; otherwise nothing beyond the counted length is written, and
  a receiver reads the same header back, with the counted length in it.
\<close>

theorem requests_sent_exactly:
  assumes "request_ok r" "unat bufLen \<le> length buf" "length buf < 2 ^ 32"
  shows "sent_exactly (Request_header r) buf bufLen (Request_serialize r buf bufLen)"
  using assms by (cases r) (simp_all add: HardlinkMsg.sends MkDirMsg.sends MkFileMsg.sends RmDirMsg.sends UnlinkFileMsg.sends ListDirFromOffsetMsg.sends LookupIntentMsg.sends RenameMsg.sends GetXAttrMsg.sends ListXAttrMsg.sends RemoveXAttrMsg.sends SetXAttrMsg.sends RefreshEntryInfoMsg.sends SetAttrMsg.sends StatMsg.sends TruncFileMsg.sends BumpFileVersionMsg.sends GetFileVersionMsg.sends FSyncLocalFileMsg.sends FLockAppendMsg.sends FLockEntryMsg.sends FLockRangeMsg.sends CloseFileMsg.sends OpenFileMsg.sends ReadLocalFileV2Msg.sends WriteLocalFileMsg.sends RegisterNodeMsg.sends)

lemma small_sampleEntry: "small_entry sampleEntry"
  by (simp add: small_entry_def small_str_def ei_ok_def sampleEntry_def EntryInfo_init_def EntryInfo_getIsBuddyMirrored_def
      str_ok_def)

theorem requests_sent_exactly_witness:
  "sent_exactly (msgHeader (GetFileVersionMsg_init 7 sampleEntry)) (replicate 128 0) 128
     (Request_serialize (GetFileVersionRequest (GetFileVersionMsg_init 7 sampleEntry)) (replicate 128 0) 128)"
proof -
  have "request_ok (GetFileVersionRequest (GetFileVersionMsg_init 7 sampleEntry))"
    by (simp add: sendable_msg_def GetFileVersionMsg_init_def NetMessage_init_def GetFileVersionMsg_ok_def
        header_flags_ok_def small_sampleEntry)
  from requests_sent_exactly [OF this, of 128 "replicate 128 0"] show ?thesis by simp
qed

section \<open>Building a lookup request\<close>

record OpenInfo =
  oi_accessFlags :: u32

record LookupIntentInfoIn =
  in_parentEntryInfo :: EntryInfo
  in_entryInfoPtr :: "EntryInfo option"
  in_entryName :: "byte list"
  in_createInfo :: "CreateInfo option"
  in_isExclusiveCreate :: bool
  in_openInfo :: "OpenInfo option"

definition LookupIntentInfoIn_init :: "LookupIntentInfoIn \<Rightarrow> EntryInfo \<Rightarrow> byte list \<Rightarrow> LookupIntentInfoIn" where
  "LookupIntentInfoIn_init fresh parentEntryInfo entryName =
     fresh\<lparr>in_parentEntryInfo := parentEntryInfo, in_entryName := entryName, in_entryInfoPtr := None,
       in_openInfo := None, in_createInfo := None\<rparr>"

definition LookupIntentInfoIn_addEntryInfo :: "LookupIntentInfoIn \<Rightarrow> EntryInfo option \<Rightarrow> LookupIntentInfoIn" where
  "LookupIntentInfoIn_addEntryInfo this entryInfo = this\<lparr>in_entryInfoPtr := entryInfo\<rparr>"

definition LookupIntentInfoIn_addOpenInfo :: "LookupIntentInfoIn \<Rightarrow> OpenInfo option \<Rightarrow> LookupIntentInfoIn" where
  "LookupIntentInfoIn_addOpenInfo this openInfo = this\<lparr>in_openInfo := openInfo\<rparr>"

definition LookupIntentInfoIn_addCreateInfo :: "LookupIntentInfoIn \<Rightarrow> CreateInfo option \<Rightarrow> LookupIntentInfoIn" where
  "LookupIntentInfoIn_addCreateInfo this createInfo =
     (let this = this\<lparr>in_createInfo := createInfo\<rparr> in
      case createInfo of
        Some info \<Rightarrow> this\<lparr>in_isExclusiveCreate := ci_isExclusiveCreate info\<rparr>
      | None \<Rightarrow> this)"

text \<open>The request that \<^verbatim>\<open>FhgfsOpsRemoting_lookupIntent\<close> builds before it communicates.\<close>

definition lookupIntent_request ::
    "u32 \<Rightarrow> LookupIntentMsg \<Rightarrow> NumNodeID \<Rightarrow> bool \<Rightarrow> LookupIntentInfoIn \<Rightarrow> LookupIntentMsg NetMessage" where
  "lookupIntent_request uid fresh localNodeNumID quotaEnabled inInfo =
     (let msg = (case in_entryInfoPtr inInfo of
                   Some e \<Rightarrow> LookupIntentMsg_initFromEntryInfo uid fresh (in_parentEntryInfo inInfo) (in_entryName inInfo) e
                 | None \<Rightarrow> LookupIntentMsg_initFromName uid fresh (in_parentEntryInfo inInfo) (in_entryName inInfo));
          msg = LookupIntentMsg_addIntentStat msg;
          msg = (case in_createInfo inInfo of
                   Some c \<Rightarrow>
                     (let msg = LookupIntentMsg_addIntentCreate msg (ci_userID c) (ci_groupID c) (ci_mode c) (ci_umask c)
                                  (ci_preferredStorageTargets c) (ci_fileEvent c)
                      in if in_isExclusiveCreate inInfo then LookupIntentMsg_addIntentCreateExclusive msg else msg)
                 | None \<Rightarrow> msg);
          msg = (case in_openInfo inInfo of
                   Some openInfo \<Rightarrow> LookupIntentMsg_addIntentOpen msg localNodeNumID (oi_accessFlags openInfo)
                 | None \<Rightarrow> msg)
      in if quotaEnabled then NetMessage_addMsgHeaderFeatureFlag 1 msg else msg)"

text \<open>
  Lookup requests in general: one of the two initializers, then intents and the quota flag in any
  order, the creation intent at most once. A second creation intent without an event would leave the
  event flag of the first one set and the event pointer null.
\<close>

inductive lookup_built :: "LookupIntentMsg NetMessage \<Rightarrow> bool" where
  fromName: "small_entry parentInfo \<Longrightarrow> small_str entryName \<Longrightarrow>
    lookup_built (LookupIntentMsg_initFromName uid fresh parentInfo entryName)"
| fromEntryInfo: "small_entry parentInfo \<Longrightarrow> small_str entryName \<Longrightarrow> small_entry entryInfo \<Longrightarrow>
    lookup_built (LookupIntentMsg_initFromEntryInfo uid fresh parentInfo entryName entryInfo)"
| create: "lookup_built msg \<Longrightarrow> li_intentFlags (msgPayload msg) AND 2 = 0 \<Longrightarrow> length targets < 2 ^ 16 \<Longrightarrow>
    pred_option small_event event \<Longrightarrow>
    lookup_built (LookupIntentMsg_addIntentCreate msg userID groupID mode umask targets event)"
| exclusive: "lookup_built msg \<Longrightarrow> lookup_built (LookupIntentMsg_addIntentCreateExclusive msg)"
| openIntent: "lookup_built msg \<Longrightarrow> lookup_built (LookupIntentMsg_addIntentOpen msg clientNumID accessFlags)"
| statIntent: "lookup_built msg \<Longrightarrow> lookup_built (LookupIntentMsg_addIntentStat msg)"
| quota: "lookup_built msg \<Longrightarrow> lookup_built (NetMessage_addMsgHeaderFeatureFlag 1 msg)"

lemmas lookup_ops = LookupIntentMsg_initFromName_def LookupIntentMsg_initFromEntryInfo_def
  LookupIntentMsg_addIntentCreate_def LookupIntentMsg_addIntentCreateExclusive_def
  LookupIntentMsg_addIntentOpen_def LookupIntentMsg_addIntentStat_def NetMessage_init_def flagIf_def
  NetMessage_addMsgHeaderFeatureFlag_def

definition lookup_inv :: "LookupIntentMsg NetMessage \<Rightarrow> bool" where
  "lookup_inv msg \<longleftrightarrow> sendable_msg LookupIntentMsg_Ops LookupIntentMsg_ok msg \<and>
     (msgFeatureFlags (msgHeader msg) \<in> {0, 1} \<or>
      msgFeatureFlags (msgHeader msg) \<in> {8, 9} \<and> li_intentFlags (msgPayload msg) AND 2 \<noteq> 0)"

lemma lookup_built_inv: "lookup_built msg \<Longrightarrow> lookup_inv msg"
proof (induction rule: lookup_built.induct)
  case (create msg targets event userID groupID mode umask)
  then have "msgFeatureFlags (msgHeader msg) \<in> {0, 1}" by (auto simp: lookup_inv_def)
  with create show ?case
    by (cases event)
      (auto simp: lookup_inv_def sendable_msg_def lookup_ops LookupIntentMsg_ok_def event_ok_def header_flags_ok_def
        NetMessage_isMsgHeaderFeatureFlagSet_def bit.conj_disj_distrib2)
qed (auto simp: lookup_inv_def sendable_msg_def lookup_ops LookupIntentMsg_ok_def event_ok_def header_flags_ok_def
    NetMessage_isMsgHeaderFeatureFlagSet_def bit.conj_disj_distrib2)

definition infoIn_ok :: "LookupIntentInfoIn \<Rightarrow> bool" where
  "infoIn_ok inInfo \<longleftrightarrow> small_entry (in_parentEntryInfo inInfo) \<and> small_str (in_entryName inInfo) \<and>
     pred_option small_entry (in_entryInfoPtr inInfo) \<and>
     pred_option (\<lambda>c. length (ci_preferredStorageTargets c) < 2 ^ 16 \<and> pred_option small_event (ci_fileEvent c))
       (in_createInfo inInfo)"

lemma no_create_yet:
  "li_intentFlags (msgPayload (LookupIntentMsg_addIntentStat (LookupIntentMsg_initFromName uid fresh p n))) AND 2 = 0"
  "li_intentFlags (msgPayload (LookupIntentMsg_addIntentStat (LookupIntentMsg_initFromEntryInfo uid fresh p n e))) AND 2 = 0"
  by (simp_all add: lookup_ops)

lemma lookupIntent_request_built:
  assumes "infoIn_ok inInfo"
  shows "lookup_built (lookupIntent_request uid fresh localNodeNumID quotaEnabled inInfo)"
  using assms unfolding lookupIntent_request_def Let_def
  by (auto simp: infoIn_ok_def no_create_yet intro!: lookup_built.intros split: option.splits)

text \<open>C24: The request that a lookup builds from its in-arguments, whichever of revalidation, creation, exclusive
  creation, opening and quota they ask for, is well formed: the optional parts that its flags announce are
  present, so that no null entry or event is followed when it is counted and stored, and fields left
  unassigned are not sent.
\<close>

theorem lookupIntent_request_ok:
  assumes "infoIn_ok inInfo"
  shows "request_ok (LookupIntentRequest (lookupIntent_request uid fresh localNodeNumID quotaEnabled inInfo))"
  using lookup_built_inv [OF lookupIntent_request_built [OF assms]] by (simp add: lookup_inv_def)

definition sampleLookup :: LookupIntentInfoIn where
  "sampleLookup = \<lparr>in_parentEntryInfo = sampleEntry, in_entryInfoPtr = None, in_entryName = [102, 111],
     in_createInfo = Some \<lparr>ci_entryName = [102, 111], ci_userID = 0, ci_groupID = 0, ci_mode = 420, ci_umask = 18,
       ci_preferredMetaTargets = [], ci_preferredStorageTargets = [1, 2], ci_isExclusiveCreate = True,
       ci_storagePoolId = \<lparr>sp_value = 0\<rparr>,
       ci_fileEvent = Some \<lparr>fe_eventType = 1, fe_path = Some [47], fe_target = None\<rparr>\<rparr>,
     in_isExclusiveCreate = True, in_openInfo = Some \<lparr>oi_accessFlags = 2\<rparr>\<rparr>"

definition freshLookup :: LookupIntentMsg where
  "freshLookup = \<lparr>li_intentFlags = 99, li_entryName = [], li_entryNameLen = 3, li_entryInfoPtr = None, li_userID = 0,
     li_groupID = 0, li_mode = 0, li_umask = 0, li_fileEvent = None, li_clientNumID = \<lparr>nn_value = 0\<rparr>,
     li_accessFlags = 0, li_parentInfoPtr = sampleEntry, li_preferredTargets = []\<rparr>"

theorem lookupIntent_request_ok_witness:
  "request_ok (LookupIntentRequest (lookupIntent_request 0 freshLookup \<lparr>nn_value = 5\<rparr> True sampleLookup))"
  by (rule lookupIntent_request_ok)
    (simp add: infoIn_ok_def sampleLookup_def small_sampleEntry small_str_def small_event_def)


end
