(* ===== verification/Striping.thy ===== *)
theory Striping
  imports NodeTypes
begin

text \<open>
  \<^verbatim>\<open>common/storage/striping\<close> with \<^verbatim>\<open>common/toolkit/MathTk.h\<close> and \<^verbatim>\<open>common/toolkit/vector/UInt16Vec.h\<close>: how
  the contents of a file are distributed over its targets. Patterns come from the wire; the class of a
  pattern decides which functions its method pointers hold, so the methods dispatch on the constructor.

  File positions are \<^verbatim>\<open>int64_t\<close>, kept as 64 bit words. \<^const>\<open>None\<close> as the result of an access to a vector is an
  access outside its array.
\<close>

section \<open>MathTk\<close>

definition builtin_clz :: "u32 \<Rightarrow> nat" where
  "builtin_clz x = length (takeWhile (\<lambda>i. \<not> bit x i) (rev [0..<32]))"

definition MathTk_log2Int32 :: "u32 \<Rightarrow> nat" where
  "MathTk_log2Int32 x = 31 - builtin_clz x"

definition MathTk_isPowerOfTwo :: "u32 \<Rightarrow> bool" where
  "MathTk_isPowerOfTwo x \<longleftrightarrow> x AND (x - 1) = 0"

section \<open>UInt16Vec\<close>

text \<open>
  A list together with an array for random access. \<open>mem n\<close> is the contents of a fresh array of \<open>n\<close>
  elements.
\<close>

record UInt16Vec =
  vec_list :: "u16 list"
  vecArray :: "u16 list"
  vecArrayLen :: u64

definition UInt16Vec_init :: "(nat \<Rightarrow> u16 list) \<Rightarrow> UInt16Vec" where
  "UInt16Vec_init mem = \<lparr>vec_list = [], vecArray = mem 4, vecArrayLen = 4\<rparr>"

definition UInt16Vec_length :: "UInt16Vec \<Rightarrow> u64" where
  "UInt16Vec_length this = of_nat (length (vec_list this))"

definition UInt16Vec_append :: "(nat \<Rightarrow> u16 list) \<Rightarrow> UInt16Vec \<Rightarrow> u16 \<Rightarrow> UInt16Vec option" where
  "UInt16Vec_append mem this v =
     (let this = this\<lparr>vec_list := vec_list this @ [v]\<rparr>;
          newListLen = UInt16Vec_length this;
          this = (if newListLen > vecArrayLen this
            then this\<lparr>vecArrayLen := vecArrayLen this * 2,
                      vecArray := vecArray this @
                        drop (unat (vecArrayLen this)) (mem (2 * unat (vecArrayLen this)))\<rparr>
            else this)
      in if unat (newListLen - 1) < length (vecArray this)
         then Some (this\<lparr>vecArray := (vecArray this)[unat (newListLen - 1) := v]\<rparr>)
         else None)"

definition UInt16Vec_at :: "UInt16Vec \<Rightarrow> u64 \<Rightarrow> u16 option" where
  "UInt16Vec_at this index =
     (if unat index < length (vecArray this) then Some (vecArray this ! unat index) else None)"

definition UInt16Vec_clear :: "UInt16Vec \<Rightarrow> UInt16Vec" where
  "UInt16Vec_clear this = this\<lparr>vec_list := []\<rparr>"

fun appendAll :: "(nat \<Rightarrow> u16 list) \<Rightarrow> UInt16Vec \<Rightarrow> u16 list \<Rightarrow> UInt16Vec option" where
  "appendAll mem this [] = Some this"
| "appendAll mem this (v # vs) = UInt16Vec_append mem this v \<bind> (\<lambda>this. appendAll mem this vs)"

definition ListTk_copyUInt16ListToVec :: "(nat \<Rightarrow> u16 list) \<Rightarrow> u16 list \<Rightarrow> UInt16Vec \<Rightarrow> UInt16Vec option" where
  "ListTk_copyUInt16ListToVec mem srcList destVec = appendAll mem destVec srcList"

section \<open>Patterns\<close>

text \<open>The pool is \<^const>\<open>None\<close> where the header leaves the field unassigned.\<close>

record StripePatternHeader =
  h_patternLength :: u32
  h_patternType :: u32
  h_chunkSize :: u32
  h_storagePoolId :: "StoragePoolId option"

abbreviation (input) "STRIPEPATTERN_Invalid \<equiv> (0 :: u32)"
abbreviation (input) "STRIPEPATTERN_Raid0 \<equiv> (1 :: u32)"
abbreviation (input) "STRIPEPATTERN_Raid10 \<equiv> (2 :: u32)"
abbreviation (input) "STRIPEPATTERN_BuddyMirror \<equiv> (3 :: u32)"

abbreviation (input) "STRIPEPATTERN_HEADER_LENGTH \<equiv> (12 :: u32)"

definition HAS_NO_POOL_FLAG :: u32 where
  "HAS_NO_POOL_FLAG = push_bit 24 1"

record StripeBase =
  patternType :: u32
  chunkSize :: u32
  serialPatternLength :: u32

datatype StripePattern =
    SimplePattern StripeBase
  | Raid0Pattern StripeBase (stripeTargetIDs: UInt16Vec) (defaultNumTargets: u32)
  | Raid10Pattern StripeBase (stripeTargetIDs: UInt16Vec) (mirrorTargetIDs: UInt16Vec)
      (stripeSetSize: u32) (defaultNumTargets: u32)
  | BuddyMirrorPattern StripeBase (mirrorBuddyGroupIDs: UInt16Vec) (defaultNumTargets: u32)

fun stripePattern :: "StripePattern \<Rightarrow> StripeBase" where
  "stripePattern (SimplePattern b) = b"
| "stripePattern (Raid0Pattern b _ _) = b"
| "stripePattern (Raid10Pattern b _ _ _ _) = b"
| "stripePattern (BuddyMirrorPattern b _ _) = b"

definition StripePattern_initFromPatternType :: "u32 \<Rightarrow> u32 \<Rightarrow> StripeBase" where
  "StripePattern_initFromPatternType ptype csize =
     \<lparr>patternType = ptype, chunkSize = csize, serialPatternLength = 0\<rparr>"

definition SimplePattern_construct :: "u32 \<Rightarrow> u32 \<Rightarrow> StripePattern" where
  "SimplePattern_construct ptype csize = SimplePattern (StripePattern_initFromPatternType ptype csize)"

definition StripePattern_getPatternType :: "StripePattern \<Rightarrow> u32" where
  "StripePattern_getPatternType this = patternType (stripePattern this)"

definition StripePattern_getChunkSize :: "StripePattern \<Rightarrow> u32" where
  "StripePattern_getChunkSize this = chunkSize (stripePattern this)"

definition StripePattern_getChunkStart :: "StripePattern \<Rightarrow> u64 \<Rightarrow> u64" where
  "StripePattern_getChunkStart this pos =
     (let posModChunkSize = (ucast (pos AND ucast (StripePattern_getChunkSize this - 1)) :: u32)
      in pos - ucast posModChunkSize)"

definition StripePattern_getNextChunkStart :: "StripePattern \<Rightarrow> u64 \<Rightarrow> u64" where
  "StripePattern_getNextChunkStart this pos =
     StripePattern_getChunkStart this pos + ucast (StripePattern_getChunkSize this)"

definition StripePattern_getChunkEnd :: "StripePattern \<Rightarrow> u64 \<Rightarrow> u64" where
  "StripePattern_getChunkEnd this pos = StripePattern_getNextChunkStart this pos - 1"

subsection \<open>Reading a pattern\<close>

text \<open>The part of a message that holds a pattern: its start and its length.\<close>

definition StripePattern_deserializePatternPreprocess ::
    "byte list \<Rightarrow> DeserializeCtx \<Rightarrow> ((u64 \<times> u32) \<times> DeserializeCtx) dres" where
  "StripePattern_deserializePatternPreprocess buf ctx =
     dbind (Serialization_deserializeUInt buf ctx) (\<lambda>(outPatternLength, _).
       if ucast outPatternLength > d_length ctx then Refused
       else Done ((d_pos ctx, outPatternLength), advance ctx (ucast outPatternLength)))"

definition StripePattern_deserializeHeader ::
    "byte list \<Rightarrow> DeserializeCtx \<Rightarrow> (StripePatternHeader \<times> DeserializeCtx) dres" where
  "StripePattern_deserializeHeader buf ctx =
     dbind (Serialization_deserializeUInt buf ctx) (\<lambda>(len, ctx).
     dbind (Serialization_deserializeUInt buf ctx) (\<lambda>(ptype, ctx).
     dbind (Serialization_deserializeUInt buf ctx) (\<lambda>(csize, ctx).
     dbind (if ptype AND HAS_NO_POOL_FLAG = 0
            then dbind (StoragePoolId_deserialize buf ctx) (\<lambda>(pool, ctx). Done (Some pool, ctx))
            else Done (None, ctx)) (\<lambda>(pool, ctx).
     if len < STRIPEPATTERN_HEADER_LENGTH then Refused
     else if csize = 0 then Refused
     else Done (\<lparr>h_patternLength = len, h_patternType = ptype AND NOT HAS_NO_POOL_FLAG,
                 h_chunkSize = csize, h_storagePoolId = pool\<rparr>, ctx)))))"

text \<open>\<open>Overrun\<close> also when an element would be stored outside the array, which \<open>appendAll_ok\<close> below excludes.\<close>

definition readVec ::
    "(nat \<Rightarrow> u16 list) \<Rightarrow> UInt16Vec \<Rightarrow> byte list \<Rightarrow> DeserializeCtx \<Rightarrow> (UInt16Vec \<times> DeserializeCtx) dres" where
  "readVec mem outVec buf ctx =
     dbind (viaRawList Serialization_deserializeUInt16VecPreprocess Serialization_deserializeUInt16Vec buf ctx)
       (\<lambda>(ids, ctx). case appendAll mem outVec ids of
          Some vec \<Rightarrow> Done (vec, ctx) | None \<Rightarrow> Overrun)"

definition Raid0Pattern_constructFromChunkSize :: "(nat \<Rightarrow> u16 list) \<Rightarrow> u32 \<Rightarrow> StripeBase \<times> UInt16Vec" where
  "Raid0Pattern_constructFromChunkSize mem csize =
     (StripePattern_initFromPatternType STRIPEPATTERN_Raid0 csize, UInt16Vec_init mem)"

definition Raid0Pattern_deserializePattern ::
    "(nat \<Rightarrow> u16 list) \<Rightarrow> StripeBase \<times> UInt16Vec \<Rightarrow> byte list \<Rightarrow> DeserializeCtx \<Rightarrow> (StripePattern \<times> DeserializeCtx) dres" where
  "Raid0Pattern_deserializePattern mem = (\<lambda>(base, ids) buf ctx.
     dbind (Serialization_deserializeUInt buf ctx) (\<lambda>(num, ctx).
     dbind (readVec mem ids buf ctx) (\<lambda>(ids, ctx).
     if UInt16Vec_length ids = 0 then Refused
     else Done (Raid0Pattern base ids num, ctx))))"

definition BuddyMirrorPattern_constructFromChunkSize :: "(nat \<Rightarrow> u16 list) \<Rightarrow> u32 \<Rightarrow> StripeBase \<times> UInt16Vec" where
  "BuddyMirrorPattern_constructFromChunkSize mem csize =
     (StripePattern_initFromPatternType STRIPEPATTERN_BuddyMirror csize, UInt16Vec_init mem)"

definition BuddyMirrorPattern_deserializePattern ::
    "(nat \<Rightarrow> u16 list) \<Rightarrow> StripeBase \<times> UInt16Vec \<Rightarrow> byte list \<Rightarrow> DeserializeCtx \<Rightarrow> (StripePattern \<times> DeserializeCtx) dres" where
  "BuddyMirrorPattern_deserializePattern mem = (\<lambda>(base, ids) buf ctx.
     dbind (Serialization_deserializeUInt buf ctx) (\<lambda>(num, ctx).
     dbind (readVec mem ids buf ctx) (\<lambda>(ids, ctx).
     if UInt16Vec_length ids = 0 then Refused
     else Done (BuddyMirrorPattern base ids num, ctx))))"

definition Raid10Pattern_constructFromChunkSize :: "(nat \<Rightarrow> u16 list) \<Rightarrow> u32 \<Rightarrow> StripeBase \<times> UInt16Vec \<times> UInt16Vec" where
  "Raid10Pattern_constructFromChunkSize mem csize =
     (StripePattern_initFromPatternType STRIPEPATTERN_Raid10 csize, UInt16Vec_init mem, UInt16Vec_init mem)"

definition Raid10Pattern_deserializePattern ::
    "(nat \<Rightarrow> u16 list) \<Rightarrow> StripeBase \<times> UInt16Vec \<times> UInt16Vec \<Rightarrow> byte list \<Rightarrow> DeserializeCtx \<Rightarrow> (StripePattern \<times> DeserializeCtx) dres" where
  "Raid10Pattern_deserializePattern mem = (\<lambda>(base, ids, mirrorIds) buf ctx.
     dbind (Serialization_deserializeUInt buf ctx) (\<lambda>(num, ctx).
     dbind (readVec mem ids buf ctx) (\<lambda>(ids, ctx).
     dbind (readVec mem mirrorIds buf ctx) (\<lambda>(mirrorIds, ctx).
     Done (Raid10Pattern base ids mirrorIds
             (ucast (UInt16Vec_length ids * ucast (chunkSize base))) num, ctx)))))"

definition StripePattern_createFromBuf ::
    "(nat \<Rightarrow> u16 list) \<Rightarrow> byte list \<Rightarrow> u64 \<Rightarrow> u32 \<Rightarrow> StripePattern dres" where
  "StripePattern_createFromBuf mem buf patternStart patternLength =
     (let invalid = SimplePattern_construct STRIPEPATTERN_Invalid 0 in
      case StripePattern_deserializeHeader buf \<lparr>d_pos = patternStart, d_length = ucast patternLength\<rparr> of
        Overrun \<Rightarrow> Overrun
      | Refused \<Rightarrow> Done invalid
      | Done (header, ctx) \<Rightarrow>
          (let ptype = h_patternType header; csize = h_chunkSize header;
               res = (if ptype = STRIPEPATTERN_Raid0
                   then Raid0Pattern_deserializePattern mem (Raid0Pattern_constructFromChunkSize mem csize) buf ctx
                 else if ptype = STRIPEPATTERN_Raid10
                   then Raid10Pattern_deserializePattern mem (Raid10Pattern_constructFromChunkSize mem csize) buf ctx
                 else if ptype = STRIPEPATTERN_BuddyMirror
                   then BuddyMirrorPattern_deserializePattern mem (BuddyMirrorPattern_constructFromChunkSize mem csize) buf ctx
                 else Refused)
           in case res of
                Overrun \<Rightarrow> Overrun
              | Refused \<Rightarrow> Done invalid
              | Done (pattern, _) \<Rightarrow> Done pattern))"

subsection \<open>From positions to targets\<close>

text \<open>
  \<^verbatim>\<open>(pos / chunkSize) % length\<close>: a signed division of 64 bit integers, whose result is converted to
  \<^verbatim>\<open>size_t\<close> for the remainder.
\<close>

definition chunkIndex :: "u64 \<Rightarrow> u32 \<Rightarrow> u64 \<Rightarrow> u64" where
  "chunkIndex pos csize n =
     word_of_int (sgn (sint pos) * (\<bar>sint pos\<bar> div uint csize)) mod n"

definition Raid0Pattern_getStripeTargetIndex :: "StripeBase \<Rightarrow> UInt16Vec \<Rightarrow> u64 \<Rightarrow> u64" where
  "Raid0Pattern_getStripeTargetIndex this ids pos = chunkIndex pos (chunkSize this) (UInt16Vec_length ids)"

definition BuddyMirrorPattern_getStripeTargetIndex :: "StripeBase \<Rightarrow> UInt16Vec \<Rightarrow> u64 \<Rightarrow> u64" where
  "BuddyMirrorPattern_getStripeTargetIndex this ids pos = chunkIndex pos (chunkSize this) (UInt16Vec_length ids)"

definition Raid10Pattern_getStripeTargetIndex :: "StripeBase \<Rightarrow> u32 \<Rightarrow> u64 \<Rightarrow> u64" where
  "Raid10Pattern_getStripeTargetIndex this setSize pos =
     (let stripeSetInnerOffset =
        (if MathTk_isPowerOfTwo setSize then pos AND ucast (setSize - 1)
         else pos mod ucast setSize)
      in drop_bit (MathTk_log2Int32 (chunkSize this)) stripeSetInnerOffset)"

fun StripePattern_getStripeTargetIndex :: "StripePattern \<Rightarrow> u64 \<Rightarrow> u64" where
  "StripePattern_getStripeTargetIndex (SimplePattern b) pos = 0"
| "StripePattern_getStripeTargetIndex (Raid0Pattern b ids _) pos = Raid0Pattern_getStripeTargetIndex b ids pos"
| "StripePattern_getStripeTargetIndex (Raid10Pattern b ids _ setSize _) pos = Raid10Pattern_getStripeTargetIndex b setSize pos"
| "StripePattern_getStripeTargetIndex (BuddyMirrorPattern b ids _) pos = BuddyMirrorPattern_getStripeTargetIndex b ids pos"

fun StripePattern_getStripeTargetIDs :: "StripePattern \<Rightarrow> UInt16Vec option" where
  "StripePattern_getStripeTargetIDs (SimplePattern b) = None"
| "StripePattern_getStripeTargetIDs (Raid0Pattern b ids _) = Some ids"
| "StripePattern_getStripeTargetIDs (Raid10Pattern b ids _ _ _) = Some ids"
| "StripePattern_getStripeTargetIDs (BuddyMirrorPattern b ids _) = Some ids"

fun StripePattern_getMirrorTargetIDs :: "StripePattern \<Rightarrow> UInt16Vec option" where
  "StripePattern_getMirrorTargetIDs (Raid10Pattern b _ mirrors _ _) = Some mirrors"
| "StripePattern_getMirrorTargetIDs _ = None"

text \<open>\<^const>\<open>None\<close> for a read outside the array of the target vector.\<close>

definition Raid0Pattern_getStripeTargetID :: "StripeBase \<Rightarrow> UInt16Vec \<Rightarrow> u64 \<Rightarrow> u16 option" where
  "Raid0Pattern_getStripeTargetID this ids pos = UInt16Vec_at ids (Raid0Pattern_getStripeTargetIndex this ids pos)"

definition BuddyMirrorPattern_getStripeTargetID :: "StripeBase \<Rightarrow> UInt16Vec \<Rightarrow> u64 \<Rightarrow> u16 option" where
  "BuddyMirrorPattern_getStripeTargetID this ids pos =
     UInt16Vec_at ids (BuddyMirrorPattern_getStripeTargetIndex this ids pos)"

definition Raid10Pattern_getStripeTargetID :: "StripeBase \<Rightarrow> UInt16Vec \<Rightarrow> u32 \<Rightarrow> u64 \<Rightarrow> u16 option" where
  "Raid10Pattern_getStripeTargetID this ids setSize pos =
     UInt16Vec_at ids (Raid10Pattern_getStripeTargetIndex this setSize pos)"

fun StripePattern_getStripeTargetID :: "StripePattern \<Rightarrow> u64 \<Rightarrow> u16 option" where
  "StripePattern_getStripeTargetID (SimplePattern b) pos = Some 0"
| "StripePattern_getStripeTargetID (Raid0Pattern b ids _) pos = Raid0Pattern_getStripeTargetID b ids pos"
| "StripePattern_getStripeTargetID (Raid10Pattern b ids _ setSize _) pos = Raid10Pattern_getStripeTargetID b ids setSize pos"
| "StripePattern_getStripeTargetID (BuddyMirrorPattern b ids _) pos = BuddyMirrorPattern_getStripeTargetID b ids pos"

definition StripePattern_getStripeTargetIDsCopy ::
    "(nat \<Rightarrow> u16 list) \<Rightarrow> StripePattern \<Rightarrow> UInt16Vec \<Rightarrow> UInt16Vec option" where
  "StripePattern_getStripeTargetIDsCopy mem this outTargetIDs =
     (case StripePattern_getStripeTargetIDs this of
        None \<Rightarrow> Some outTargetIDs
      | Some ids \<Rightarrow> ListTk_copyUInt16ListToVec mem (vec_list ids) outTargetIDs)"

fun StripePattern_getMinNumTargets :: "StripePattern \<Rightarrow> u32" where
  "StripePattern_getMinNumTargets (SimplePattern _) = 0"
| "StripePattern_getMinNumTargets (Raid0Pattern _ _ _) = 1"
| "StripePattern_getMinNumTargets (Raid10Pattern _ _ _ _ _) = 2"
| "StripePattern_getMinNumTargets (BuddyMirrorPattern _ _ _) = 1"

fun StripePattern_getDefaultNumTargets :: "StripePattern \<Rightarrow> u32" where
  "StripePattern_getDefaultNumTargets (SimplePattern _) = 0"
| "StripePattern_getDefaultNumTargets (Raid0Pattern _ _ n) = n"
| "StripePattern_getDefaultNumTargets (Raid10Pattern _ _ _ _ n) = n"
| "StripePattern_getDefaultNumTargets (BuddyMirrorPattern _ _ n) = n"

text \<open>Patterns of newly created files.\<close>

definition Raid0Pattern_init :: "(nat \<Rightarrow> u16 list) \<Rightarrow> u32 \<Rightarrow> UInt16Vec \<Rightarrow> u32 \<Rightarrow> StripePattern option" where
  "Raid0Pattern_init mem csize ids num = do {
     vec \<leftarrow> ListTk_copyUInt16ListToVec mem (vec_list ids) (UInt16Vec_init mem);
     Some (Raid0Pattern (StripePattern_initFromPatternType STRIPEPATTERN_Raid0 csize) vec
             (if num \<noteq> 0 then num else 4)) }"

definition BuddyMirrorPattern_init :: "(nat \<Rightarrow> u16 list) \<Rightarrow> u32 \<Rightarrow> UInt16Vec \<Rightarrow> u32 \<Rightarrow> StripePattern option" where
  "BuddyMirrorPattern_init mem csize ids num = do {
     vec \<leftarrow> ListTk_copyUInt16ListToVec mem (vec_list ids) (UInt16Vec_init mem);
     Some (BuddyMirrorPattern (StripePattern_initFromPatternType STRIPEPATTERN_BuddyMirror csize) vec
             (if num \<noteq> 0 then num else 4)) }"

section \<open>Powers of two\<close>

lemma MathTk_log2Int32_power: "k < 32 \<Longrightarrow> MathTk_log2Int32 (2 ^ k) = k"
proof -
  have "list_all (\<lambda>k. MathTk_log2Int32 (2 ^ k) = k) [0..<32]" by code_simp
  then show "k < 32 \<Longrightarrow> MathTk_log2Int32 (2 ^ k) = k" by (simp add: list_all_iff)
qed

lemma unat_power2: "k < LENGTH('a) \<Longrightarrow> unat (2 ^ k :: 'a::len word) = 2 ^ k"
  using unat_of_nat_small [of "2 ^ k", where 'a = 'a] by simp

lemma isPowerOfTwo_iff:
  assumes "x \<noteq> 0"
  shows "MathTk_isPowerOfTwo x \<longleftrightarrow> (\<exists>k < 32. x = 2 ^ k)"
proof
  assume p: "MathTk_isPowerOfTwo x"
  obtain k where k: "2 ^ k \<le> unat x" "unat x < 2 ^ (k + 1)"
    using ex_power_ivl1 [of 2 "unat x"] assms by (auto simp: unat_gt_0 Suc_le_eq)
  have "(2 :: nat) ^ k < 2 ^ LENGTH(32)" by (rule order_le_less_trans [OF k(1) unat_bound])
  then have "k < LENGTH(32)" by (rule power_less_imp_less_exp [rotated]) simp
  then have k32: "k < 32" by simp
  have bit: "bit w k" if "2 ^ k \<le> unat w" "unat w < 2 ^ (k + 1)" for w :: u32
  proof -
    have "unat w div 2 ^ k = 1" using that by (intro div_nat_eqI) simp_all
    then have "bit (unat w) k" by (simp add: bit_iff_odd)
    then show ?thesis using k32 by (simp add: bit_unsigned_iff)
  qed
  have "x = 2 ^ k"
  proof (rule ccontr)
    assume "x \<noteq> 2 ^ k"
    then have "unat x \<noteq> 2 ^ k"
      using unat_power2 [of k, where 'a = 32] k32 by (auto simp: word_unat_eq_iff)
    then have lt: "2 ^ k < unat x" using k(1) by simp
    have "unat (x - 1) = unat x - 1" using assms by (simp add: unat_minus_one)
    then have "bit (x - 1) k" using lt k(2) by (intro bit) simp_all
    with bit [OF k] have "bit (x AND (x - 1)) k" by (simp add: bit_and_iff)
    with p show False by (simp add: MathTk_isPowerOfTwo_def)
  qed
  with k32 show "\<exists>k < 32. x = 2 ^ k" by blast
next
  assume "\<exists>k < 32. x = 2 ^ k"
  then obtain k where k: "x = 2 ^ k" by blast
  have "x AND (x - 1) = 2 ^ k AND mask k" by (simp add: k mask_eq_exp_minus_1)
  also have "\<dots> = take_bit k (2 ^ k)" by (simp add: take_bit_eq_mask)
  also have "\<dots> = 0" by (rule bit_word_eqI) (auto simp: bit_simps)
  finally show "MathTk_isPowerOfTwo x" by (simp add: MathTk_isPowerOfTwo_def)
qed

lemma unat_and_pred:
  assumes "k < 32"
  shows "unat (pos AND ucast ((2 :: u32) ^ k - 1) :: u64) = unat pos mod 2 ^ k"
proof -
  have "(ucast (mask k :: u32) :: u64) = mask k"
    using assms by (intro bit_word_eqI) (auto simp: bit_simps)
  then have "pos AND ucast ((2 :: u32) ^ k - 1) = take_bit k pos"
    by (simp add: mask_eq_exp_minus_1 [symmetric] take_bit_eq_mask)
  then show ?thesis using assms by (simp add: take_bit_eq_mod unat_mod unat_power2)
qed

section \<open>Vectors\<close>

text \<open>The array holds the list and has not grown beyond four cells or twice its length.\<close>

definition vec_ok :: "UInt16Vec \<Rightarrow> bool" where
  "vec_ok v \<longleftrightarrow> length (vecArray v) = unat (vecArrayLen v) \<and>
     length (vec_list v) \<le> length (vecArray v) \<and>
     length (vecArray v) \<le> 4 + 2 * length (vec_list v) \<and> 0 < length (vecArray v) \<and>
     take (length (vec_list v)) (vecArray v) = vec_list v"

definition alloc_ok :: "(nat \<Rightarrow> u16 list) \<Rightarrow> bool" where
  "alloc_ok mem \<longleftrightarrow> (\<forall>n. length (mem n) = n)"

lemma vec_init_ok: "alloc_ok mem \<Longrightarrow> vec_ok (UInt16Vec_init mem)"
  by (simp add: vec_ok_def UInt16Vec_init_def alloc_ok_def)

lemma take_Suc_update: "n < length a \<Longrightarrow> take (Suc n) (a[n := v]) = take n a @ [v]"
  by (simp add: take_Suc_conv_app_nth)

lemma vec_append_ok:
  assumes ok: "vec_ok this" and mem: "alloc_ok mem" and n: "length (vec_list this) < 2 ^ 61"
  shows "\<exists>this'. UInt16Vec_append mem this v = Some this' \<and> vec_ok this' \<and> vec_list this' = vec_list this @ [v]"
proof -
  let ?n = "length (vec_list this)" and ?a = "vecArray this" and ?l = "vecArrayLen this"
  have a: "length ?a = unat ?l" "?n \<le> length ?a" "length ?a \<le> 4 + 2 * ?n" "0 < length ?a" "take ?n ?a = vec_list this"
    using ok unfolding vec_ok_def by blast+
  have len: "unat (of_nat (Suc ?n) :: u64) = Suc ?n" using n by (intro unat_of_nat64) simp
  have idx: "unat (of_nat (Suc ?n) - 1 :: u64) = ?n"
    using n unat_of_nat64 [of ?n] by simp
  have gt: "of_nat (Suc ?n) > ?l \<longleftrightarrow> length ?a < Suc ?n"
    unfolding word_less_nat_alt len a(1) ..
  show ?thesis
  proof (cases "length ?a < Suc ?n")
    case True
    then have eq: "length ?a = ?n" using a(2) by simp
    have dbl: "unat (?l * 2) = 2 * ?n"
      using a(1) eq n by (simp add: unat_word_ariths)
    have g: "of_nat (Suc ?n) > ?l" using gt True by blast
    let ?b = "?a @ drop (unat ?l) (mem (2 * unat ?l))"
    have lb: "length ?b = 2 * ?n" using mem a(1) eq by (simp add: alloc_ok_def)
    have "take ?n ?b = vec_list this" using a(5) eq by simp
    then have "take (Suc ?n) (?b[?n := v]) = vec_list this @ [v]"
      using lb a(4) eq by (subst take_Suc_update) simp_all
    moreover have "vec_list this \<noteq> []" "Suc 0 \<le> ?n" "?a \<noteq> []" using a(4) eq by (auto simp: Suc_le_eq)
    ultimately show ?thesis
      using g idx dbl lb eq
      by (simp add: UInt16Vec_append_def UInt16Vec_length_def vec_ok_def Let_def del: of_nat_Suc)
  next
    case False
    then have g: "\<not> of_nat (Suc ?n) > ?l" using gt by blast
    have "take (Suc ?n) (?a[?n := v]) = vec_list this @ [v]"
      using False a(5) by (subst take_Suc_update) simp_all
    then show ?thesis
      using g idx a(1-3,5) False a(4) [unfolded length_greater_0_conv]
      by (simp add: UInt16Vec_append_def UInt16Vec_length_def vec_ok_def Let_def del: of_nat_Suc)
  qed
qed

lemma appendAll_ok:
  "vec_ok this \<Longrightarrow> alloc_ok mem \<Longrightarrow> length (vec_list this) + length vs < 2 ^ 61 \<Longrightarrow>
   \<exists>this'. appendAll mem this vs = Some this' \<and> vec_ok this' \<and> vec_list this' = vec_list this @ vs"
proof (induction vs arbitrary: this)
  case (Cons v vs)
  obtain t where t: "UInt16Vec_append mem this v = Some t" "vec_ok t" "vec_list t = vec_list this @ [v]"
    using vec_append_ok [OF Cons.prems(1,2), of v] Cons.prems(3) by auto
  show ?case using Cons.IH [OF t(2) Cons.prems(2)] Cons.prems(3) t by auto
qed simp

lemma vec_at_ok: "vec_ok v \<Longrightarrow> unat i < length (vec_list v) \<Longrightarrow> UInt16Vec_at v i = Some (vec_list v ! unat i)"
  unfolding vec_ok_def UInt16Vec_at_def by (metis nth_take order_less_le_trans)

section \<open>Patterns from the wire\<close>

text \<open>A reader that stays inside its buffer and whose results satisfy \<open>P\<close>.\<close>

definition yields :: "(byte list \<Rightarrow> DeserializeCtx \<Rightarrow> ('a \<times> DeserializeCtx) dres) \<Rightarrow> ('a \<Rightarrow> bool) \<Rightarrow> bool" where
  "yields dec P \<longleftrightarrow> decoder dec \<and>
     (\<forall>buf ctx x ctx'. ctx_ok buf ctx \<longrightarrow> dec buf ctx = Done (x, ctx') \<longrightarrow> P x)"

lemma yields_decoder: "decoder dec \<Longrightarrow> yields dec (\<lambda>_. True)"
  by (simp add: yields_def)

lemma yields_return: "P x \<Longrightarrow> yields (\<lambda>buf ctx. Done (x, ctx)) P"
  by (auto simp: yields_def)

lemma yields_refuse: "yields (\<lambda>buf ctx. Refused) P"
  by (auto simp: yields_def)

lemma yields_if: "(c \<Longrightarrow> yields f P) \<Longrightarrow> (\<not> c \<Longrightarrow> yields g P) \<Longrightarrow> yields (\<lambda>buf ctx. if c then f buf ctx else g buf ctx) P"
  by (cases c) simp_all

lemma yields_bind:
  assumes f: "yields f P" and g: "\<And>x. P x \<Longrightarrow> yields (g x) Q"
  shows "yields (\<lambda>buf ctx. dbind (f buf ctx) (\<lambda>(x, ctx). g x buf ctx)) Q"
proof -
  define g' where "g' x = (if P x then g x else (\<lambda>buf ctx. Refused))" for x
  have f': "decoder f" and fP: "ctx_ok buf ctx \<Longrightarrow> f buf ctx = Done (x, ctx') \<Longrightarrow> P x" for buf ctx x ctx'
    using f by (auto simp: yields_def)
  have g': "decoder (g' x)" for x
    using g [of x] by (cases "P x") (auto simp: g'_def yields_def)
  have eq: "dbind (f buf ctx) (\<lambda>(x, ctx). g x buf ctx) = dbind (f buf ctx) (\<lambda>(x, ctx). g' x buf ctx)"
    if "ctx_ok buf ctx" for buf ctx
    using fP [OF that] by (cases "f buf ctx") (auto simp: g'_def)
  have bind: "decoder (\<lambda>buf ctx. dbind (f buf ctx) (\<lambda>(x, ctx). g' x buf ctx))"
    by (intro decoder_bind f' g')
  have "decoder (\<lambda>buf ctx. dbind (f buf ctx) (\<lambda>(x, ctx). g x buf ctx))"
  proof (rule decoder.intro)
    fix buf ctx y ctx'
    assume ok: "ctx_ok buf ctx"
    show "dbind (f buf ctx) (\<lambda>(x, ctx). g x buf ctx) \<noteq> Overrun"
      unfolding eq [OF ok] by (rule decoder.in_bounds [OF bind ok])
    assume "dbind (f buf ctx) (\<lambda>(x, ctx). g x buf ctx) = Done (y, ctx')"
    then show "\<exists>n \<le> d_length ctx. ctx' = advance ctx n"
      unfolding eq [OF ok] by (rule decoder.consumes [OF bind ok])
  qed
  moreover have "Q y"
    if ok: "ctx_ok buf ctx" and d: "dbind (f buf ctx) (\<lambda>(x, ctx). g x buf ctx) = Done (y, ctx')" for buf ctx y ctx'
  proof -
    obtain x c where x: "f buf ctx = Done (x, c)" "g x buf c = Done (y, ctx')"
      using d by (auto simp: dbind_eq_Done)
    then show ?thesis
      using g [OF fP [OF ok x(1)]] decoder.dec_ok [OF f' ok x(1)] by (auto simp: yields_def)
  qed
  ultimately show ?thesis unfolding yields_def by blast
qed

lemma deserializeEach_length: "deserializeEach dec n buf ctx = Done (xs, ctx') \<Longrightarrow> length xs = n"
  by (induction n arbitrary: ctx xs) (auto simp: dbind_eq_Done)

lemma yields_rawVec:
  "yields (viaRawList Serialization_deserializeUInt16VecPreprocess Serialization_deserializeUInt16Vec)
     (\<lambda>ids. length ids < 2 ^ 32)"
proof -
  have "decoder (viaRawList Serialization_deserializeUInt16VecPreprocess Serialization_deserializeUInt16Vec)"
    unfolding Serialization_deserializeUInt16VecPreprocess_def Serialization_deserializeUInt16ListPreprocess_def
      Serialization_deserializeUInt16Vec_def
    by (intro decoder_sized UShort.decoder_axioms)
  moreover have "length ids < 2 ^ 32"
    if "viaRawList Serialization_deserializeUInt16VecPreprocess Serialization_deserializeUInt16Vec buf ctx
      = Done (ids, ctx')" for buf ctx ids ctx'
    using that unat_bound [where 'a = 32]
    by (auto simp: viaRawList_def dbind_eq_Done Serialization_deserializeUInt16Vec_def deserializeRawList_def
        dest!: deserializeEach_length)
  ultimately show ?thesis unfolding yields_def by blast
qed

definition targets_ok :: "UInt16Vec \<Rightarrow> bool" where
  "targets_ok ids \<longleftrightarrow> vec_ok ids \<and> length (vec_list ids) < 2 ^ 32"

lemma yields_readVec:
  assumes mem: "alloc_ok mem"
  shows "yields (readVec mem (UInt16Vec_init mem)) targets_ok"
proof -
  have "yields (\<lambda>buf ctx. case appendAll mem (UInt16Vec_init mem) ids of
          Some vec \<Rightarrow> Done (vec, ctx) | None \<Rightarrow> Overrun) targets_ok"
    if n: "length ids < 2 ^ 32" for ids
  proof -
    obtain vec where "appendAll mem (UInt16Vec_init mem) ids = Some vec" "vec_ok vec" "vec_list vec = ids"
      using appendAll_ok [OF vec_init_ok [OF mem] mem, of ids] n by (auto simp: UInt16Vec_init_def)
    then show ?thesis using n by (auto simp: targets_ok_def intro!: yields_return)
  qed
  then show ?thesis
    unfolding readVec_def by (rule yields_bind [OF yields_rawVec])
qed

definition base_ok :: "u32 \<Rightarrow> StripeBase \<Rightarrow> bool" where
  "base_ok ptype b \<longleftrightarrow> patternType b = ptype \<and> 0 < chunkSize b"

text \<open>What the rest of the client may assume of a pattern.\<close>

fun pattern_ok :: "StripePattern \<Rightarrow> bool" where
  "pattern_ok (SimplePattern b) \<longleftrightarrow> patternType b = STRIPEPATTERN_Invalid"
| "pattern_ok (Raid0Pattern b ids _) \<longleftrightarrow>
     base_ok STRIPEPATTERN_Raid0 b \<and> targets_ok ids \<and> vec_list ids \<noteq> []"
| "pattern_ok (Raid10Pattern b ids mirrors setSize _) \<longleftrightarrow>
     base_ok STRIPEPATTERN_Raid10 b \<and> targets_ok ids \<and> targets_ok mirrors \<and>
     setSize = of_nat (length (vec_list ids)) * chunkSize b"
| "pattern_ok (BuddyMirrorPattern b ids _) \<longleftrightarrow>
     base_ok STRIPEPATTERN_BuddyMirror b \<and> targets_ok ids \<and> vec_list ids \<noteq> []"

lemma targets_nonempty:
  assumes "targets_ok ids"
  shows "UInt16Vec_length ids = 0 \<longleftrightarrow> vec_list ids = []"
    and "unat (UInt16Vec_length ids) = length (vec_list ids)"
proof -
  show *: "unat (UInt16Vec_length ids) = length (vec_list ids)"
    unfolding UInt16Vec_length_def using assms by (intro unat_of_nat64) (simp add: targets_ok_def)
  show "UInt16Vec_length ids = 0 \<longleftrightarrow> vec_list ids = []"
    unfolding unat_eq_0 [symmetric] * by simp
qed

lemma yields_bind_decoder:
  "decoder f \<Longrightarrow> (\<And>x. yields (g x) Q) \<Longrightarrow> yields (\<lambda>buf ctx. dbind (f buf ctx) (\<lambda>(x, ctx). g x buf ctx)) Q"
  by (rule yields_bind [OF yields_decoder])

lemmas yields_bind_vec = yields_bind [OF yields_readVec]

lemmas yields_rules = yields_if yields_return yields_refuse yields_bind_decoder [OF UInt.decoder_axioms]

lemma base_init_ok: "0 < csize \<Longrightarrow> base_ok ptype (StripePattern_initFromPatternType ptype csize)"
  by (simp add: base_ok_def StripePattern_initFromPatternType_def)

lemma yields_raid0:
  "alloc_ok mem \<Longrightarrow> 0 < csize \<Longrightarrow> 
   yields (Raid0Pattern_deserializePattern mem (Raid0Pattern_constructFromChunkSize mem csize)) pattern_ok"
  unfolding Raid0Pattern_deserializePattern_def Raid0Pattern_constructFromChunkSize_def prod.case
  by (intro yields_rules yields_bind_vec) (simp_all add: targets_nonempty base_init_ok)

lemma yields_buddy:
  "alloc_ok mem \<Longrightarrow> 0 < csize \<Longrightarrow>
   
   yields (BuddyMirrorPattern_deserializePattern mem (BuddyMirrorPattern_constructFromChunkSize mem csize)) pattern_ok"
  unfolding BuddyMirrorPattern_deserializePattern_def BuddyMirrorPattern_constructFromChunkSize_def prod.case
  by (intro yields_rules yields_bind_vec) (simp_all add: targets_nonempty base_init_ok)

lemma ucast_of_nat_down: "(ucast (of_nat n :: u64) :: u32) = of_nat n"
  by transfer (simp add: min_def)

lemma ucast_times_down: "(ucast (of_nat n * ucast c :: u64) :: u32) = of_nat n * c" for c :: u32
  unfolding ucast_as_of_nat of_nat_mult [symmetric] ucast_of_nat_down by simp

lemma yields_raid10:
  "alloc_ok mem \<Longrightarrow> 0 < csize \<Longrightarrow> 
   yields (Raid10Pattern_deserializePattern mem (Raid10Pattern_constructFromChunkSize mem csize)) pattern_ok"
  unfolding Raid10Pattern_deserializePattern_def Raid10Pattern_constructFromChunkSize_def prod.case
  by (intro yields_rules yields_bind_vec) (simp_all add: UInt16Vec_length_def ucast_times_down base_init_ok)

lemma yields_header: "yields StripePattern_deserializeHeader (\<lambda>h. 0 < h_chunkSize h)"
  unfolding StripePattern_deserializeHeader_def
  by (intro yields_rules yields_bind_decoder [OF decoder_if] decoder_bind decoder_return StoragePoolId.decoder_axioms)
    (simp add: word_gt_0)

lemma pattern_preprocess:
  assumes ok: "ctx_ok buf ctx"
    and pre: "StripePattern_deserializePatternPreprocess buf ctx = Done ((start, len), ctx')"
  shows "ctx_ok buf ctx'" "ctx_ok buf \<lparr>d_pos = start, d_length = ucast len\<rparr>"
proof -
  have *: "start = d_pos ctx" "ucast len \<le> d_length ctx" "ctx' = advance ctx (ucast len)"
    using pre by (auto simp: StripePattern_deserializePatternPreprocess_def dbind_eq_Done not_less split: if_splits)
  show "ctx_ok buf ctx'" unfolding *(3) by (rule advance_ok(1) [OF ok *(2)])
  show "ctx_ok buf \<lparr>d_pos = start, d_length = ucast len\<rparr>"
    using ok * by (auto simp: ctx_ok_def word_le_nat_alt)
qed

lemma createFromBuf_pattern_ok:
  assumes mem: "alloc_ok mem" and ok: "ctx_ok buf \<lparr>d_pos = start, d_length = ucast len\<rparr>"
  shows "\<exists>p. StripePattern_createFromBuf mem buf start len = Done p \<and> pattern_ok p"
proof -
  let ?invalid = "SimplePattern_construct STRIPEPATTERN_Invalid 0"
  have inv: "pattern_ok ?invalid"
    by (simp add: SimplePattern_construct_def StripePattern_initFromPatternType_def)
  have dec: "decoder StripePattern_deserializeHeader" using yields_header by (simp add: yields_def)
  consider "StripePattern_deserializeHeader buf \<lparr>d_pos = start, d_length = ucast len\<rparr> = Refused"
    | h c where "StripePattern_deserializeHeader buf \<lparr>d_pos = start, d_length = ucast len\<rparr> = Done (h, c)"
    using decoder.in_bounds [OF dec ok] by (metis dres.exhaust surj_pair)
  then show ?thesis
  proof cases
    case 1
    then show ?thesis using inv by (simp add: StripePattern_createFromBuf_def)
  next
    case (2 h c)
    define ptype where "ptype = h_patternType h"
    define des where "des buf ctx =
        (if ptype = STRIPEPATTERN_Raid0 then Raid0Pattern_deserializePattern mem (Raid0Pattern_constructFromChunkSize mem (h_chunkSize h)) buf ctx
         else if ptype = STRIPEPATTERN_Raid10 then Raid10Pattern_deserializePattern mem (Raid10Pattern_constructFromChunkSize mem (h_chunkSize h)) buf ctx
         else if ptype = STRIPEPATTERN_BuddyMirror then BuddyMirrorPattern_deserializePattern mem (BuddyMirrorPattern_constructFromChunkSize mem (h_chunkSize h)) buf ctx
         else Refused)" for buf ctx
    have c: "ctx_ok buf c" by (rule decoder.dec_ok [OF dec ok 2])
    have cs: "0 < h_chunkSize h" using yields_header ok 2 unfolding yields_def by blast
    have y: "yields des pattern_ok"
      unfolding des_def [abs_def]
      by (intro yields_if yields_refuse yields_raid0 yields_raid10 yields_buddy mem cs)
    have res: "StripePattern_createFromBuf mem buf start len =
        (case des buf c of Overrun \<Rightarrow> Overrun | Refused \<Rightarrow> Done ?invalid | Done (p, _) \<Rightarrow> Done p)"
      unfolding StripePattern_createFromBuf_def 2 by (simp add: des_def ptype_def Let_def)
    have "des buf c \<noteq> Overrun" "des buf c = Done (p, c') \<Longrightarrow> pattern_ok p" for p c'
      using y c decoder.in_bounds [of des] unfolding yields_def by blast+
    then show ?thesis
      unfolding res using inv by (cases "des buf c") auto
  qed
qed

lemma chunkIndex_less: "0 < n \<Longrightarrow> unat (chunkIndex pos csize n) < unat n"
  by (simp add: chunkIndex_def unat_mod word_less_nat_alt)

lemma targetID_in_array:
  assumes "pattern_ok p" "StripePattern_getPatternType p \<noteq> STRIPEPATTERN_Raid10"
    and ids: "StripePattern_getStripeTargetIDs p = Some ids"
  shows "\<exists>id \<in> set (vec_list ids). StripePattern_getStripeTargetID p pos = Some id"
proof -
  obtain cs where v: "targets_ok ids" "vec_list ids \<noteq> []"
    and i: "StripePattern_getStripeTargetID p pos = UInt16Vec_at ids (chunkIndex pos cs (UInt16Vec_length ids))"
    using assms by (cases p) (auto simp: StripePattern_getPatternType_def base_ok_def
        Raid0Pattern_getStripeTargetIndex_def BuddyMirrorPattern_getStripeTargetIndex_def
        Raid0Pattern_getStripeTargetID_def BuddyMirrorPattern_getStripeTargetID_def)
  have "0 < UInt16Vec_length ids" using v targets_nonempty(1) [OF v(1)] by (simp add: word_gt_0)
  then have less: "unat (chunkIndex pos cs (UInt16Vec_length ids)) < length (vec_list ids)"
    using chunkIndex_less targets_nonempty(2) [OF v(1)] by metis
  have "vec_ok ids" using v(1) by (simp add: targets_ok_def)
  from vec_at_ok [OF this less] show ?thesis
    using less i by auto
qed

text \<open>C6: Whatever bytes a server sends as a stripe pattern, once the pattern's length has been accepted the rest of the message stays readable inside the buffer, and \<^verbatim>\<open>StripePattern_createFromBuf\<close> reads only the buffer and returns a well-formed pattern (the invalid pattern when it refuses): chunk size positive, vectors in step with their lists. For every pattern but Raid10, every file position is then mapped to a target of the pattern by an access inside the vector's array.\<close>

theorem createFromBuf_well_formed:
  assumes "alloc_ok mem" "ctx_ok buf ctx"
    and "StripePattern_deserializePatternPreprocess buf ctx = Done ((start, len), ctx')"
  shows "ctx_ok buf ctx' \<and> (\<exists>p. StripePattern_createFromBuf mem buf start len = Done p \<and> pattern_ok p \<and>
    (StripePattern_getPatternType p \<noteq> STRIPEPATTERN_Raid10 \<longrightarrow>
     (\<forall>pos ids. StripePattern_getStripeTargetIDs p = Some ids \<longrightarrow>
        (\<exists>id \<in> set (vec_list ids). StripePattern_getStripeTargetID p pos = Some id))))"
  using pattern_preprocess [OF assms(2,3)] createFromBuf_pattern_ok [OF assms(1)] targetID_in_array by blast

definition raid0Bytes :: "byte list" where
  "raid0Bytes = [30,0,0,0, 1,0,0,1, 0,0,8,0, 4,0,0,0, 14,0,0,0, 3,0,0,0, 11,0, 12,0, 13,0, 99]"

theorem createFromBuf_well_formed_witness:
  "\<exists>p. StripePattern_createFromBuf (\<lambda>n. replicate n 0) raid0Bytes 0 30 = Done p \<and> pattern_ok p \<and>
     StripePattern_getPatternType p = STRIPEPATTERN_Raid0 \<and> StripePattern_getStripeTargetID p (4 * 0x80000 + 7) = Some 12"
proof -
  have "alloc_ok (\<lambda>n. replicate n 0)" by (simp add: alloc_ok_def)
  moreover have "ctx_ok raid0Bytes \<lparr>d_pos = 0, d_length = 31\<rparr>" by (simp add: ctx_ok_def raid0Bytes_def)
  moreover have "StripePattern_deserializePatternPreprocess raid0Bytes \<lparr>d_pos = 0, d_length = 31\<rparr>
      = Done ((0, 30), \<lparr>d_pos = 30, d_length = 1\<rparr>)" by code_simp
  ultimately obtain p where p: "StripePattern_createFromBuf (\<lambda>n. replicate n 0) raid0Bytes 0 30 = Done p" "pattern_ok p"
    using createFromBuf_well_formed by blast
  have "(case StripePattern_createFromBuf (\<lambda>n. replicate n 0) raid0Bytes 0 30 of
      Done p \<Rightarrow> StripePattern_getPatternType p = STRIPEPATTERN_Raid0 \<and>
        StripePattern_getStripeTargetID p (4 * 0x80000 + 7) = Some 12 | _ \<Rightarrow> False)" by code_simp
  then show ?thesis using p by auto
qed

section \<open>Chunks and targets\<close>

lemma chunkIndex_unsigned:
  assumes pos: "unat pos < 2 ^ 63"
  shows "unat (chunkIndex pos csize n) = unat pos div unat csize mod unat n"
proof -
  have "uint pos < 2 ^ 63" unfolding uint_nat using pos by (metis of_nat_less_iff of_nat_numeral of_nat_power)
  moreover have "- (2 ^ 63) \<le> uint pos" by (rule order_trans [OF _ uint_ge_0]) simp
  ultimately have "signed_take_bit 63 (uint pos) = uint pos" by (intro signed_take_bit_int_eq_self)
  then have s: "sint pos = int (unat pos)" by (simp add: sint_uint)
  have "sgn (sint pos) * (\<bar>sint pos\<bar> div uint csize) = int (unat pos div unat csize)"
    unfolding s uint_nat zdiv_int by (cases "unat pos") simp_all
  moreover have "unat pos div unat csize < 2 ^ 64"
    by (rule order_le_less_trans [OF div_le_dividend order_less_trans [OF pos]]) simp
  ultimately show ?thesis
    by (simp add: chunkIndex_def unat_mod unat_of_nat64 del: of_nat_div)
qed

lemma mod_div_chunk: "m mod (n * c) div c = m div c mod n" for m n c :: nat
  by (cases "c = 0") (simp_all add: mod_mult2_eq mult.commute [of n c])

lemma raid10_index:
  assumes k: "chunkSize b = 2 ^ k" "k < 32" and setSize: "unat setSize = n * 2 ^ k" and n: "0 < n"
  shows "unat (Raid10Pattern_getStripeTargetIndex b setSize pos) = unat pos mod (n * 2 ^ k) div 2 ^ k"
proof -
  have nz: "setSize \<noteq> 0" using setSize n by auto
  define inner where "inner = (if MathTk_isPowerOfTwo setSize then pos AND ucast (setSize - 1) else pos mod ucast setSize)"
  have "unat inner = unat pos mod unat setSize"
  proof (cases "MathTk_isPowerOfTwo setSize")
    case True
    then obtain j where "j < 32" "setSize = 2 ^ j" using isPowerOfTwo_iff [OF nz] by blast
    then show ?thesis using True unat_and_pred [of j pos] unat_power2 [of j, where 'a = 32] by (simp add: inner_def)
  next
    case False
    then show ?thesis by (simp add: inner_def unat_mod unat_ucast_up)
  qed
  moreover have "unat (drop_bit k inner) = unat inner div 2 ^ k"
    using k(2) by (simp add: drop_bit_eq_div unat_div unat_power2)
  ultimately show ?thesis
    unfolding Raid10Pattern_getStripeTargetIndex_def Let_def inner_def [symmetric] k(1) MathTk_log2Int32_power [OF k(2)]
    by (simp only: setSize)
qed

lemma ucast_down_up: "unat w < 2 ^ 32 \<Longrightarrow> (ucast (ucast w :: u32) :: u64) = w" for w :: u64
  using ucast_of_nat_down [of "unat w"] unat_of_nat32 [of "unat w"] ucast_as_of_nat [of "of_nat (unat w)"] by simp

lemma getChunkStart_eq:
  assumes k: "StripePattern_getChunkSize p = 2 ^ k" "k < 32"
  shows "unat (StripePattern_getChunkStart p pos) = unat pos - unat pos mod 2 ^ k"
proof -
  let ?m = "pos AND ucast (StripePattern_getChunkSize p - 1)"
  have m: "unat ?m = unat pos mod 2 ^ k" using unat_and_pred [OF k(2)] by (simp add: k(1))
  have "unat pos mod 2 ^ k < 2 ^ 32"
    using power_strict_increasing [OF k(2), of "2 :: nat"] by (intro order_less_trans [OF mod_less_divisor]) simp_all
  then have "unat (ucast (ucast ?m :: u32) :: u64) = unat pos mod 2 ^ k"
    unfolding m [symmetric] by (simp only: ucast_down_up)
  moreover have "unat pos mod 2 ^ k \<le> unat pos" by simp
  ultimately show ?thesis
    unfolding StripePattern_getChunkStart_def Let_def
    by (subst unat_sub) (simp_all add: word_le_nat_alt)
qed

lemma raid10_index_facts:
  fixes b :: StripeBase and ids :: UInt16Vec and pos :: u64
  defines "cs \<equiv> unat (chunkSize b)" and "n \<equiv> length (vec_list ids)"
  assumes ok: "pattern_ok (Raid10Pattern b ids mirrors setSize num)"
    and k: "chunkSize b = 2 ^ k" "k < 32" and n: "0 < n" "n * cs < 2 ^ 32" and pos: "unat pos < 2 ^ 63"
  shows "unat (StripePattern_getStripeTargetIndex (Raid10Pattern b ids mirrors setSize num) pos)
      = unat pos mod unat setSize div cs"
    and "StripePattern_getStripeTargetIndex (Raid10Pattern b ids mirrors setSize num) pos
      = StripePattern_getStripeTargetIndex (Raid0Pattern b ids num) pos"
    and "StripePattern_getStripeTargetID (Raid10Pattern b ids mirrors setSize num) pos
      = Some (vec_list ids ! (unat pos div cs mod n))"
    and "unat (StripePattern_getChunkStart (Raid10Pattern b ids mirrors setSize num) pos) = unat pos div cs * cs"
    and "unat (StripePattern_getChunkEnd (Raid10Pattern b ids mirrors setSize num) pos) = (unat pos div cs + 1) * cs - 1"
proof -
  let ?p = "Raid10Pattern b ids mirrors setSize num"
  have cs: "cs = 2 ^ k" using k unat_power2 [of k, where 'a = 32] by (simp add: cs_def)
  have ids: "targets_ok ids" and set: "setSize = of_nat n * chunkSize b"
    using ok by (simp_all add: n_def)
  have "setSize = of_nat (n * cs)" unfolding set cs_def by simp
  then have size: "unat setSize = n * 2 ^ k" using n(2) by (simp only: unat_of_nat32 cs)
  have i: "unat (StripePattern_getStripeTargetIndex ?p pos) = unat pos mod (n * 2 ^ k) div 2 ^ k"
    using raid10_index [OF k size n(1)] by simp
  show "unat (StripePattern_getStripeTargetIndex ?p pos) = unat pos mod unat setSize div cs"
    unfolding i size cs ..
  have j: "unat (StripePattern_getStripeTargetIndex ?p pos) = unat pos div cs mod n"
    unfolding i mod_div_chunk cs ..
  have "unat (StripePattern_getStripeTargetIndex (Raid0Pattern b ids num) pos) = unat pos div cs mod n"
    by (simp add: Raid0Pattern_getStripeTargetIndex_def chunkIndex_unsigned [OF pos] targets_nonempty(2) [OF ids]
        cs_def n_def)
  then show "StripePattern_getStripeTargetIndex ?p pos = StripePattern_getStripeTargetIndex (Raid0Pattern b ids num) pos"
    unfolding word_unat_eq_iff j by simp
  have less: "unat (StripePattern_getStripeTargetIndex ?p pos) < length (vec_list ids)"
    unfolding j using n(1) by (simp add: n_def)
  have "vec_ok ids" using ids by (simp add: targets_ok_def)
  from vec_at_ok [OF this less]
  show "StripePattern_getStripeTargetID ?p pos = Some (vec_list ids ! (unat pos div cs mod n))"
    unfolding j by (simp add: Raid10Pattern_getStripeTargetID_def)
  have c: "StripePattern_getChunkSize ?p = 2 ^ k" using k by (simp add: StripePattern_getChunkSize_def)
  show start: "unat (StripePattern_getChunkStart ?p pos) = unat pos div cs * cs"
    unfolding getChunkStart_eq [OF c k(2)] cs by (simp add: minus_mod_eq_div_mult)
  have "unat pos div cs * cs \<le> unat pos" by (rule div_times_less_eq_dividend)
  moreover have csb: "0 < cs" "cs < 2 ^ 32" 
    unfolding cs using power_strict_increasing [OF k(2), of "2 :: nat"] by simp_all
  ultimately have "unat pos div cs * cs + cs < 2 ^ 63 + 2 ^ 32" using pos by linarith
  then have "unat (StripePattern_getChunkStart ?p pos) + unat (ucast (chunkSize b) :: u64) < 2 ^ 64"
    unfolding start by (simp add: unat_ucast_up cs_def)
  then have "unat (StripePattern_getNextChunkStart ?p pos) = unat pos div cs * cs + cs"
    by (simp add: StripePattern_getNextChunkStart_def StripePattern_getChunkSize_def unat_word_ariths start
        unat_ucast_up cs_def)
  moreover from this have "StripePattern_getNextChunkStart ?p pos \<noteq> 0" using csb by auto
  ultimately show "unat (StripePattern_getChunkEnd ?p pos) = (unat pos div cs + 1) * cs - 1"
    by (simp add: StripePattern_getChunkEnd_def unat_minus_one)
qed

text \<open>C7: The division-free index computation of a Raid10 pattern equals the two lines its comment gives as its meaning, and these equal the index that Raid0 and buddy mirror patterns compute: for a chunk size that is a power of two, at least one target and a stripe set below 4 GiB, a position lies in chunk \<open>pos div chunkSize\<close> and chunks go round the targets; the target returned is the one at that index, and \<^verbatim>\<open>getChunkStart\<close> and \<^verbatim>\<open>getChunkEnd\<close> delimit the chunk of the position.\<close>

theorem raid10_index_equivalence:
  assumes "pattern_ok (Raid10Pattern b ids mirrors setSize num)"
    and "chunkSize b = 2 ^ k" "k < 32" "vec_list ids \<noteq> []"
    and "length (vec_list ids) * unat (chunkSize b) < 2 ^ 32" "unat pos < 2 ^ 63"
  shows "let p = Raid10Pattern b ids mirrors setSize num; cs = unat (chunkSize b);
             chunk = unat pos div cs; n = length (vec_list ids) in
    unat (StripePattern_getStripeTargetIndex p pos) = unat pos mod unat setSize div cs \<and>
    StripePattern_getStripeTargetIndex p pos = StripePattern_getStripeTargetIndex (Raid0Pattern b ids num) pos \<and>
    StripePattern_getStripeTargetID p pos = Some (vec_list ids ! (chunk mod n)) \<and>
    unat (StripePattern_getChunkStart p pos) = chunk * cs \<and>
    unat (StripePattern_getChunkEnd p pos) = (chunk + 1) * cs - 1"
  unfolding Let_def using raid10_index_facts [OF assms(1-3) _ assms(5,6)] assms(4) by blast

theorem raid10_index_equivalence_witness:
  "let v = \<lparr>vec_list = [11, 12, 13], vecArray = [11, 12, 13, 0], vecArrayLen = 4\<rparr>;
       p = Raid10Pattern \<lparr>patternType = 2, chunkSize = 65536, serialPatternLength = 0\<rparr> v v 196608 3 in
   pattern_ok p \<and> StripePattern_getStripeTargetID p (5 * 65536 + 1) = Some 13 \<and>
   unat (StripePattern_getChunkStart p (5 * 65536 + 1)) = 5 * 65536"
proof -
  let ?v = "\<lparr>vec_list = [11, 12, 13], vecArray = [11, 12, 13, 0], vecArrayLen = 4\<rparr>"
  have "pattern_ok (Raid10Pattern \<lparr>patternType = 2, chunkSize = 65536, serialPatternLength = 0\<rparr> ?v ?v 196608 3)"
    by (simp add: base_ok_def targets_ok_def vec_ok_def)
  then show ?thesis
    using raid10_index_equivalence [of _ ?v ?v 196608 3 16 "5 * 65536 + 1"] by (simp add: Let_def)
qed


end
