(* ===== verification/RBTree.thy ===== *)
theory RBTree
  imports Prelude "HOL-Library.Tree"
begin

text \<open>
  Search trees: the functions generated by \<^verbatim>\<open>CONGFS_RBTREE_FUNCTIONS\<close> in \<^verbatim>\<open>common/Common.h\<close> and the
  generic \<^verbatim>\<open>PointerRBTree\<close>. The descents are those of the code. The kernel's \<^verbatim>\<open>rb_insert_color\<close> and
  \<^verbatim>\<open>rb_erase\<close> also rotate the tree; rotations keep the in-order sequence, and every
  observation made by the code depends on that sequence only (\<open>find_inorder\<close> below), so linking and
  unlinking are modelled without them.
\<close>

section \<open>Operations\<close>

definition CONGFS_RB_KEYCMP_LT_INTEGRAL :: "'a::len word \<Rightarrow> 'a word \<Rightarrow> int" where
  "CONGFS_RB_KEYCMP_LT_INTEGRAL lhs rhs = (if lhs < rhs then - 1 else if lhs = rhs then 0 else 1)"

fun rb_find :: "('e \<Rightarrow> 'k) \<Rightarrow> ('k \<Rightarrow> 'k \<Rightarrow> int) \<Rightarrow> 'e tree \<Rightarrow> 'k \<Rightarrow> 'e option" where
  "rb_find elemKey keyCmp Leaf key = None"
| "rb_find elemKey keyCmp (Node l data r) key =
     (let cmp = keyCmp key (elemKey data) in
      if cmp < 0 then rb_find elemKey keyCmp l key
      else if cmp > 0 then rb_find elemKey keyCmp r key
      else Some data)"

text \<open>\<^const>\<open>None\<close> for the result \<^verbatim>\<open>false\<close>: an element with this key exists and the tree stays as it is.\<close>

fun rb_insert :: "('e \<Rightarrow> 'k) \<Rightarrow> ('k \<Rightarrow> 'k \<Rightarrow> int) \<Rightarrow> 'e tree \<Rightarrow> 'e \<Rightarrow> 'e tree option" where
  "rb_insert elemKey keyCmp Leaf data = Some (Node Leaf data Leaf)"
| "rb_insert elemKey keyCmp (Node l cur r) data =
     (let cmp = keyCmp (elemKey data) (elemKey cur) in
      if cmp < 0 then map_option (\<lambda>l'. Node l' cur r) (rb_insert elemKey keyCmp l data)
      else if cmp > 0 then map_option (\<lambda>r'. Node l cur r') (rb_insert elemKey keyCmp r data)
      else None)"

text \<open>\<^verbatim>\<open>rb_replace_node\<close>: the new element takes the place of the existing one with the same key.\<close>

fun rb_replace :: "('e \<Rightarrow> 'k) \<Rightarrow> ('k \<Rightarrow> 'k \<Rightarrow> int) \<Rightarrow> 'e tree \<Rightarrow> 'e \<Rightarrow> 'e tree" where
  "rb_replace elemKey keyCmp Leaf data = Leaf"
| "rb_replace elemKey keyCmp (Node l cur r) data =
     (let cmp = keyCmp (elemKey data) (elemKey cur) in
      if cmp < 0 then Node (rb_replace elemKey keyCmp l data) cur r
      else if cmp > 0 then Node l cur (rb_replace elemKey keyCmp r data)
      else Node l data r)"

definition rb_insertOrReplace ::
    "('e \<Rightarrow> 'k) \<Rightarrow> ('k \<Rightarrow> 'k \<Rightarrow> int) \<Rightarrow> 'e tree \<Rightarrow> 'e \<Rightarrow> 'e tree \<times> 'e option" where
  "rb_insertOrReplace elemKey keyCmp t data =
     (case rb_insert elemKey keyCmp t data of
        Some t' \<Rightarrow> (t', None)
      | None \<Rightarrow> (rb_replace elemKey keyCmp t data, rb_find elemKey keyCmp t (elemKey data)))"

text \<open>\<^verbatim>\<open>rb_erase\<close> of a linked element: its in-order successor takes its place.\<close>

fun rb_split_min :: "'e tree \<Rightarrow> 'e \<Rightarrow> 'e tree \<Rightarrow> 'e \<times> 'e tree" where
  "rb_split_min Leaf x r = (x, r)"
| "rb_split_min (Node l' x' r') x r =
     (let (m, l'') = rb_split_min l' x' r' in (m, Node l'' x r))"

fun rb_join :: "'e tree \<Rightarrow> 'e tree \<Rightarrow> 'e tree" where
  "rb_join l Leaf = l"
| "rb_join l (Node rl x rr) = (let (m, r') = rb_split_min rl x rr in Node l m r')"

fun rb_erase :: "('e \<Rightarrow> 'k) \<Rightarrow> ('k \<Rightarrow> 'k \<Rightarrow> int) \<Rightarrow> 'e tree \<Rightarrow> 'k \<Rightarrow> 'e tree" where
  "rb_erase elemKey keyCmp Leaf key = Leaf"
| "rb_erase elemKey keyCmp (Node l cur r) key =
     (let cmp = keyCmp key (elemKey cur) in
      if cmp < 0 then Node (rb_erase elemKey keyCmp l key) cur r
      else if cmp > 0 then Node l cur (rb_erase elemKey keyCmp r key)
      else rb_join l r)"

section \<open>PointerRBTree\<close>

record ('k, 'v) RBTree =
  treeroot :: "('k \<times> 'v) tree"
  rb_length :: u64

definition PointerRBTree_init :: "('k, 'v) RBTree" where
  "PointerRBTree_init = \<lparr>treeroot = Leaf, rb_length = 0\<rparr>"

definition PointerRBTree_findElem ::
    "('k \<Rightarrow> 'k \<Rightarrow> int) \<Rightarrow> ('k, 'v) RBTree \<Rightarrow> 'k \<Rightarrow> ('k \<times> 'v) option" where
  "PointerRBTree_findElem cmp this searchKey = rb_find fst cmp (treeroot this) searchKey"

definition PointerRBTree_insert ::
    "('k \<Rightarrow> 'k \<Rightarrow> int) \<Rightarrow> ('k, 'v) RBTree \<Rightarrow> 'k \<Rightarrow> 'v \<Rightarrow> bool \<times> ('k, 'v) RBTree" where
  "PointerRBTree_insert cmp this newKey newValue =
     (case rb_insert fst cmp (treeroot this) (newKey, newValue) of
        None \<Rightarrow> (False, this)
      | Some t \<Rightarrow> (True, this\<lparr>treeroot := t, rb_length := rb_length this + 1\<rparr>))"

definition PointerRBTree_erase ::
    "('k \<Rightarrow> 'k \<Rightarrow> int) \<Rightarrow> ('k, 'v) RBTree \<Rightarrow> 'k \<Rightarrow> bool \<times> ('k, 'v) RBTree" where
  "PointerRBTree_erase cmp this eraseKey =
     (case PointerRBTree_findElem cmp this eraseKey of
        None \<Rightarrow> (False, this)
      | Some elem \<Rightarrow>
          (True, this\<lparr>treeroot := rb_erase fst cmp (treeroot this) eraseKey,
                      rb_length := rb_length this - 1\<rparr>))"

definition PointerRBTree_length :: "('k, 'v) RBTree \<Rightarrow> u64" where
  "PointerRBTree_length this = rb_length this"

text \<open>
  \<^verbatim>\<open>while(this->length)\<close> erase the root; \<^const>\<open>None\<close> when the root is a null pointer although the length
  is not zero. The first argument bounds the iterations.
\<close>

fun PointerRBTree_clear ::
    "nat \<Rightarrow> ('k \<Rightarrow> 'k \<Rightarrow> int) \<Rightarrow> ('k, 'v) RBTree \<Rightarrow> ('k, 'v) RBTree option" where
  "PointerRBTree_clear 0 cmp this = (if rb_length this = 0 then Some this else None)"
| "PointerRBTree_clear (Suc n) cmp this =
     (if rb_length this = 0 then Some this
      else (case treeroot this of
              Leaf \<Rightarrow> None
            | Node l root r \<Rightarrow>
                PointerRBTree_clear n cmp (snd (PointerRBTree_erase cmp this (fst root)))))"

definition PointerRBTree_keyCompare :: "u64 \<Rightarrow> u64 \<Rightarrow> int" where
  "PointerRBTree_keyCompare a b = (if a < b then - 1 else if a = b then 0 else 1)"

text \<open>An iterator is the rest of the in-order sequence.\<close>

type_synonym ('k, 'v) RBTreeIter = "('k \<times> 'v) list"

definition PointerRBTree_begin :: "('k, 'v) RBTree \<Rightarrow> ('k, 'v) RBTreeIter" where
  "PointerRBTree_begin this = inorder (treeroot this)"

fun rb_from :: "('e \<Rightarrow> 'k) \<Rightarrow> ('k \<Rightarrow> 'k \<Rightarrow> int) \<Rightarrow> 'e tree \<Rightarrow> 'k \<Rightarrow> 'e list" where
  "rb_from elemKey keyCmp Leaf key = []"
| "rb_from elemKey keyCmp (Node l x r) key =
     (let cmp = keyCmp key (elemKey x) in
      if cmp < 0 then (case rb_from elemKey keyCmp l key of [] \<Rightarrow> [] | xs \<Rightarrow> xs @ x # inorder r)
      else if cmp > 0 then rb_from elemKey keyCmp r key
      else x # inorder r)"

definition PointerRBTree_find ::
    "('k \<Rightarrow> 'k \<Rightarrow> int) \<Rightarrow> ('k, 'v) RBTree \<Rightarrow> 'k \<Rightarrow> ('k, 'v) RBTreeIter" where
  "PointerRBTree_find cmp this searchKey = rb_from fst cmp (treeroot this) searchKey"

definition PointerRBTreeIter_end :: "('k, 'v) RBTreeIter \<Rightarrow> bool" where
  "PointerRBTreeIter_end iter = (iter = [])"

definition PointerRBTreeIter_next :: "('k, 'v) RBTreeIter \<Rightarrow> ('k, 'v) RBTreeIter" where
  "PointerRBTreeIter_next iter = tl iter"

section \<open>Comparators\<close>

locale key_order =
  fixes cmp :: "'k::linorder \<Rightarrow> 'k \<Rightarrow> int"
  assumes cmp_less: "cmp a b < 0 \<longleftrightarrow> a < b"
    and cmp_greater: "cmp a b > 0 \<longleftrightarrow> b < a"

interpretation integral: key_order CONGFS_RB_KEYCMP_LT_INTEGRAL
  by unfold_locales (auto simp: CONGFS_RB_KEYCMP_LT_INTEGRAL_def)

interpretation pointer: key_order PointerRBTree_keyCompare
  by unfold_locales (auto simp: PointerRBTree_keyCompare_def)

text \<open>The search invariant, and what the operations do to the set of elements.\<close>

fun rb_inv :: "('e \<Rightarrow> 'k::linorder) \<Rightarrow> 'e tree \<Rightarrow> bool" where
  "rb_inv key Leaf \<longleftrightarrow> True"
| "rb_inv key (Node l x r) \<longleftrightarrow> rb_inv key l \<and> rb_inv key r \<and>
     (\<forall>y \<in> set_tree l. key y < key x) \<and> (\<forall>y \<in> set_tree r. key x < key y)"

lemma rb_inv_sorted: "rb_inv key t \<longleftrightarrow> sorted_wrt (\<lambda>x y. key x < key y) (inorder t)"
  by (induction t) (auto simp: sorted_wrt_append intro: order.strict_trans)

lemma rb_inv_unique: "rb_inv key t \<Longrightarrow> x \<in> set_tree t \<Longrightarrow> y \<in> set_tree t \<Longrightarrow> key x = key y \<Longrightarrow> x = y"
  by (induction t) fastforce+

lemma rb_inv_distinct: "rb_inv key t \<Longrightarrow> distinct (map key (inorder t))"
  by (induction t) fastforce+

lemma rb_split_min_set: "rb_split_min l x r = (m, t) \<Longrightarrow> insert m (set_tree t) = set_tree (Node l x r)"
  by (induction l x r arbitrary: m t rule: rb_split_min.induct) (force split: prod.splits)+

lemma rb_split_min_inv:
  "rb_split_min l x r = (m, t) \<Longrightarrow> rb_inv key (Node l x r) \<Longrightarrow> rb_inv key t \<and> (\<forall>y \<in> set_tree t. key m < key y)"
proof (induction l x r arbitrary: m t rule: rb_split_min.induct)
  case (2 l' x' r' x r)
  obtain l'' where l: "rb_split_min l' x' r' = (m, l'')" "t = Node l'' x r"
    using "2.prems"(1) by (auto split: prod.splits)
  have "rb_inv key l'' \<and> (\<forall>y \<in> set_tree l''. key m < key y)"
    using "2.IH" [OF l(1)] "2.prems"(2) by simp
  moreover have "set_tree l'' \<subseteq> set_tree (Node l' x' r')" "m \<in> set_tree (Node l' x' r')"
    using rb_split_min_set [OF l(1)] by auto
  moreover have "\<forall>y \<in> set_tree (Node l' x' r'). key y < key x" "\<forall>y \<in> set_tree r. key x < key y"
      "rb_inv key r"
    using "2.prems"(2) by simp_all
  ultimately show ?case
    unfolding l(2) rb_inv.simps tree.set by (blast intro: order.strict_trans)
qed simp

lemma rb_join_set: "set_tree (rb_join l r) = set_tree l \<union> set_tree r"
proof (cases r)
  case (Node rl y rr)
  obtain m t where mt: "rb_split_min rl y rr = (m, t)" by (cases "rb_split_min rl y rr")
  show ?thesis using rb_split_min_set [OF mt] Node mt by auto
qed simp

lemma rb_join_inv:
  assumes "rb_inv key (Node l x r)"
  shows "rb_inv key (rb_join l r)"
proof (cases r)
  case (Node rl y rr)
  obtain m t where mt: "rb_split_min rl y rr = (m, t)" by (cases "rb_split_min rl y rr")
  have "m \<in> set_tree r" using rb_split_min_set [OF mt] Node by auto
  moreover have "rb_inv key t \<and> (\<forall>y \<in> set_tree t. key m < key y)"
    using rb_split_min_inv [OF mt, of key] assms Node by simp
  moreover have "\<forall>y \<in> set_tree l. key y < key x" "\<forall>y \<in> set_tree r. key x < key y" "rb_inv key l"
    using assms by simp_all
  moreover have "rb_join l r = Node l m t" using Node mt by simp
  ultimately show ?thesis
    unfolding rb_inv.simps by (auto intro: order.strict_trans)
qed (use assms in simp)

context key_order
begin

lemma cmp_zero: "\<not> cmp a b < 0 \<Longrightarrow> \<not> cmp a b > 0 \<Longrightarrow> a = b"
  using cmp_less cmp_greater by force

lemma cmp_refl: "\<not> cmp a a < 0" "\<not> cmp a a > 0"
  using cmp_less [of a a] cmp_greater [of a a] by auto

lemma find_iff: "rb_inv key t \<Longrightarrow> rb_find key cmp t k = Some x \<longleftrightarrow> x \<in> set_tree t \<and> key x = k"
  by (induction t) (force simp: cmp_less cmp_greater Let_def)+

lemma find_None: "rb_inv key t \<Longrightarrow> rb_find key cmp t k = None \<longleftrightarrow> (\<forall>x \<in> set_tree t. key x \<noteq> k)"
  using find_iff [of key t k] by (metis not_None_eq)

text \<open>Any two trees with the same in-order sequence answer every lookup alike.\<close>

lemma find_inorder:
  assumes "rb_inv key t" and "inorder t' = inorder t"
  shows "rb_find key cmp t' k = rb_find key cmp t k"
proof -
  have inv: "rb_inv key t'" using assms by (simp add: rb_inv_sorted)
  have "set_tree t' = set_tree t" using assms(2) by (metis set_inorder)
  then have "rb_find key cmp t' k = Some x \<longleftrightarrow> rb_find key cmp t k = Some x" for x
    using find_iff [OF inv] find_iff [OF assms(1)] by simp
  then show ?thesis by (metis not_None_eq)
qed

lemma insert_None: "rb_insert key cmp t x = None \<longleftrightarrow> rb_find key cmp t (key x) \<noteq> None"
  by (induction t) (auto simp: Let_def)

lemma insert_set: "rb_insert key cmp t x = Some t' \<Longrightarrow> set_tree t' = insert x (set_tree t)"
  by (induction t arbitrary: t') (auto simp: Let_def split: if_splits)

lemma insert_inv: "rb_inv key t \<Longrightarrow> rb_insert key cmp t x = Some t' \<Longrightarrow> rb_inv key t'"
proof (induction t arbitrary: t')
  case (Node l y r)
  consider "cmp (key x) (key y) < 0" | "cmp (key x) (key y) > 0"
    | "\<not> cmp (key x) (key y) < 0" "\<not> cmp (key x) (key y) > 0" by blast
  then show ?case
  proof cases
    case 1
    then obtain l' where l': "rb_insert key cmp l x = Some l'" "t' = Node l' y r"
      using Node.prems(2) by auto
    have "rb_inv key l'" using Node.IH(1) [OF _ l'(1)] Node.prems(1) by simp
    then show ?thesis
      using Node.prems(1) 1 insert_set [OF l'(1)] l'(2) by (simp add: cmp_less)
  next
    case 2
    then obtain r' where r': "rb_insert key cmp r x = Some r'" "t' = Node l y r'"
      using Node.prems(2) by auto
    have "rb_inv key r'" using Node.IH(2) [OF _ r'(1)] Node.prems(1) by simp
    then show ?thesis
      using Node.prems(1) 2 insert_set [OF r'(1)] r'(2) by (simp add: cmp_greater)
  next
    case 3
    then show ?thesis using Node.prems(2) by simp
  qed
qed auto

lemma replace_set:
  "rb_inv key t \<Longrightarrow> rb_find key cmp t (key x) \<noteq> None \<Longrightarrow>
   set_tree (rb_replace key cmp t x) = insert x {y \<in> set_tree t. key y \<noteq> key x}"
proof (induction t)
  case (Node l y r)
  consider "cmp (key x) (key y) < 0" | "cmp (key x) (key y) > 0"
    | "\<not> cmp (key x) (key y) < 0" "\<not> cmp (key x) (key y) > 0" by blast
  then show ?case
  proof cases
    case 1
    then show ?thesis using Node cmp_less [THEN iffD1, OF 1] by (auto simp: Let_def)
  next
    case 2
    then show ?thesis using Node cmp_greater [THEN iffD1, OF 2] by (auto simp: Let_def)
  next
    case 3
    then show ?thesis using Node.prems(1) cmp_zero [OF 3] by fastforce
  qed
qed simp

lemma replace_inv: "rb_inv key t \<Longrightarrow> rb_inv key (rb_replace key cmp t x)"
proof (induction t)
  case (Node l y r)
  have sub: "set_tree (rb_replace key cmp t x) \<subseteq> insert x (set_tree t)" for t
    by (induction t) (auto simp: Let_def)
  consider "cmp (key x) (key y) < 0" | "cmp (key x) (key y) > 0"
    | "\<not> cmp (key x) (key y) < 0" "\<not> cmp (key x) (key y) > 0" by blast
  then show ?case
  proof cases
    case 1
    then show ?thesis using Node sub [of l] cmp_less [THEN iffD1, OF 1] by (auto simp: Let_def)
  next
    case 2
    then show ?thesis using Node sub [of r] cmp_greater [THEN iffD1, OF 2] by (auto simp: Let_def)
  next
    case 3
    then show ?thesis using Node.prems cmp_zero [OF 3] by simp
  qed
qed simp

lemma erase_set:
  "rb_inv key t \<Longrightarrow> set_tree (rb_erase key cmp t k) = {y \<in> set_tree t. key y \<noteq> k}"
proof (induction t)
  case (Node l y r)
  consider "cmp k (key y) < 0" | "cmp k (key y) > 0"
    | "\<not> cmp k (key y) < 0" "\<not> cmp k (key y) > 0" by blast
  then show ?case
  proof cases
    case 1
    then show ?thesis using Node cmp_less [THEN iffD1, OF 1] by (auto simp: Let_def)
  next
    case 2
    then show ?thesis using Node cmp_greater [THEN iffD1, OF 2] by (auto simp: Let_def)
  next
    case 3
    then show ?thesis using Node.prems cmp_zero [OF 3] by (fastforce simp: rb_join_set)
  qed
qed simp

lemma erase_inv: "rb_inv key t \<Longrightarrow> rb_inv key (rb_erase key cmp t k)"
proof (induction t)
  case (Node l y r)
  then show ?case
    using rb_join_inv [OF Node.prems] by (auto simp: Let_def erase_set)
qed simp

end

section \<open>The interface of a keyed store\<close>

text \<open>
  What the mappers rely on: lookups after an update or a removal, the invariant, and that walking the
  entries visits exactly what lookups find. Resynchronising a store from a list is an empty store
  with the list's elements put one after the other; the last element of a key wins.
\<close>

locale key_store =
  fixes elemKey :: "'e \<Rightarrow> 'k"
    and inv :: "'s \<Rightarrow> bool"
    and emptyStore :: 's
    and lookup :: "'s \<Rightarrow> 'k \<Rightarrow> 'e option"
    and put :: "'s \<Rightarrow> 'e \<Rightarrow> 's \<times> 'e option"
    and remove :: "'s \<Rightarrow> 'k \<Rightarrow> 's"
    and entries :: "'s \<Rightarrow> 'e list"
  assumes inv_empty: "inv emptyStore" and lookup_empty: "lookup emptyStore k = None"
    and inv_put: "inv s \<Longrightarrow> inv (fst (put s x))"
    and lookup_put: "inv s \<Longrightarrow> lookup (fst (put s x)) = (lookup s)(elemKey x \<mapsto> x)"
    and put_replaced: "inv s \<Longrightarrow> snd (put s x) = lookup s (elemKey x)"
    and inv_remove: "inv s \<Longrightarrow> inv (remove s k)"
    and lookup_remove: "inv s \<Longrightarrow> lookup (remove s k) = (lookup s)(k := None)"
    and entries_lookup: "inv s \<Longrightarrow> set (entries s) = ran (lookup s)"
    and entries_distinct: "inv s \<Longrightarrow> distinct (map elemKey (entries s))"
    and lookup_key: "inv s \<Longrightarrow> lookup s k = Some x \<Longrightarrow> elemKey x = k"
begin

lemma inv_sync: "inv s \<Longrightarrow> inv (foldl (\<lambda>s x. fst (put s x)) s xs)"
  by (induction xs arbitrary: s) (simp_all add: inv_put)

lemma lookup_sync:
  "inv s \<Longrightarrow> lookup (foldl (\<lambda>s x. fst (put s x)) s xs) k =
     (case find (\<lambda>x. elemKey x = k) (rev xs) of None \<Rightarrow> lookup s k | Some x \<Rightarrow> Some x)"
proof (induction xs arbitrary: s)
  case (Cons x xs)
  have "find (\<lambda>x. elemKey x = k) (ys @ [x]) =
      (case find (\<lambda>x. elemKey x = k) ys of None \<Rightarrow> if elemKey x = k then Some x else None | r \<Rightarrow> r)" for ys
    by (induction ys) auto
  then show ?case
    using Cons by (auto simp: inv_put lookup_put split: option.splits)
qed simp

lemma lookup_entries:
  assumes "inv s"
  shows "lookup s k = find (\<lambda>x. elemKey x = k) (entries s)"
proof (cases "lookup s k")
  case None
  then have "x \<in> set (entries s) \<Longrightarrow> elemKey x \<noteq> k" for x
    using entries_lookup [OF assms] lookup_key [OF assms] by (auto simp: ran_def)
  then have "find (\<lambda>x. elemKey x = k) (entries s) = None" unfolding find_None_iff by blast
  with None show ?thesis by simp
next
  case (Some x)
  have "x \<in> set (entries s)" using Some entries_lookup [OF assms] by (auto simp: ran_def)
  then obtain y where y: "find (\<lambda>x. elemKey x = k) (entries s) = Some y" "elemKey y = k"
      "y \<in> set (entries s)"
  proof (cases "find (\<lambda>x. elemKey x = k) (entries s)")
    case None
    then show thesis
      using \<open>x \<in> set (entries s)\<close> lookup_key [OF assms Some] unfolding find_None_iff by blast
  next
    case (Some y)
    then have "elemKey y = k \<and> y \<in> set (entries s)" unfolding find_Some_iff by auto
    with Some that show thesis by blast
  qed
  then have "y = x"
    using entries_distinct [OF assms] \<open>x \<in> set (entries s)\<close> lookup_key [OF assms Some]
    by (metis distinct_map inj_onD)
  with y Some show ?thesis by simp
qed

end

context key_order
begin

lemma ran_find: "rb_inv key t \<Longrightarrow> ran (rb_find key cmp t) = set_tree t"
  by (auto simp: ran_def find_iff)

lemma find_insert:
  assumes "rb_inv key t" and "rb_insert key cmp t x = Some t'"
  shows "rb_find key cmp t' = (rb_find key cmp t)(key x \<mapsto> x)"
proof
  fix k
  have inv: "rb_inv key t'" by (rule insert_inv [OF assms])
  have "rb_find key cmp t (key x) = None" using assms(2) insert_None [of key t x] by auto
  then have "\<forall>y \<in> set_tree t. key y \<noteq> key x" using find_None [OF assms(1)] by blast
  then have "rb_find key cmp t' k = Some y \<longleftrightarrow> ((rb_find key cmp t)(key x \<mapsto> x)) k = Some y" for y
    using find_iff [OF inv] find_iff [OF assms(1)] insert_set [OF assms(2)] by auto
  then show "rb_find key cmp t' k = ((rb_find key cmp t)(key x \<mapsto> x)) k" by (metis not_None_eq)
qed

lemma find_replace:
  assumes "rb_inv key t" and "rb_find key cmp t (key x) \<noteq> None"
  shows "rb_find key cmp (rb_replace key cmp t x) = (rb_find key cmp t)(key x \<mapsto> x)"
proof
  fix k
  have "rb_find key cmp (rb_replace key cmp t x) k = Some y \<longleftrightarrow>
      ((rb_find key cmp t)(key x \<mapsto> x)) k = Some y" for y
    using find_iff [OF replace_inv [OF assms(1)]] find_iff [OF assms(1)] replace_set [OF assms] by auto
  then show "rb_find key cmp (rb_replace key cmp t x) k = ((rb_find key cmp t)(key x \<mapsto> x)) k"
    by (metis not_None_eq)
qed

lemma find_erase:
  assumes "rb_inv key t"
  shows "rb_find key cmp (rb_erase key cmp t k) = (rb_find key cmp t)(k := None)"
proof
  fix j
  have "rb_find key cmp (rb_erase key cmp t k) j = Some y \<longleftrightarrow> ((rb_find key cmp t)(k := None)) j = Some y" for y
    using find_iff [OF erase_inv [OF assms]] find_iff [OF assms] erase_set [OF assms] by auto
  then show "rb_find key cmp (rb_erase key cmp t k) j = ((rb_find key cmp t)(k := None)) j"
    by (metis not_None_eq)
qed

lemma put_laws:
  assumes "rb_inv key t"
  shows "rb_inv key (fst (rb_insertOrReplace key cmp t x))"
    and "rb_find key cmp (fst (rb_insertOrReplace key cmp t x)) = (rb_find key cmp t)(key x \<mapsto> x)"
    and "snd (rb_insertOrReplace key cmp t x) = rb_find key cmp t (key x)"
  using assms insert_inv [OF assms] find_insert [OF assms] replace_inv [OF assms]
    find_replace [OF assms] insert_None [of key t x]
  by (auto simp: rb_insertOrReplace_def split: option.splits)

lemma tree_store:
  "key_store key (rb_inv key) Leaf (rb_find key cmp) (rb_insertOrReplace key cmp) (rb_erase key cmp) inorder"
  by unfold_locales
    (simp_all add: put_laws erase_inv find_erase ran_find rb_inv_distinct find_iff)

end

section \<open>PointerRBTree as a map\<close>

definition pt_ok :: "('k::linorder, 'v) RBTree \<Rightarrow> bool" where
  "pt_ok t \<longleftrightarrow> rb_inv fst (treeroot t) \<and> unat (rb_length t) = size (treeroot t)"

definition pt_lookup :: "('k \<Rightarrow> 'k \<Rightarrow> int) \<Rightarrow> ('k, 'v) RBTree \<Rightarrow> 'k \<Rightarrow> 'v option" where
  "pt_lookup cmp t k = map_option snd (PointerRBTree_findElem cmp t k)"

lemma rb_split_min_size: "rb_split_min l x r = (m, t) \<Longrightarrow> size t = size l + size r"
  by (induction l x r arbitrary: m t rule: rb_split_min.induct) (auto split: prod.splits)

lemma rb_join_size: "size (rb_join l r) = size l + size r"
  by (cases r) (auto split: prod.splits dest: rb_split_min_size)

lemma pt_ok_init [simp]: "pt_ok PointerRBTree_init"
  by (simp add: pt_ok_def PointerRBTree_init_def)

context key_order
begin

lemma insert_size: "rb_insert key cmp t x = Some t' \<Longrightarrow> size t' = Suc (size t)"
  by (induction t arbitrary: t') (auto simp: Let_def split: if_splits)

lemma erase_size: "rb_find key cmp t k \<noteq> None \<Longrightarrow> Suc (size (rb_erase key cmp t k)) = size t"
  by (induction t) (auto simp: Let_def rb_join_size split: if_splits)

lemma find_fst: "rb_inv fst t \<Longrightarrow> rb_find fst cmp t k = Some e \<Longrightarrow> fst e = k"
  by (simp add: find_iff)

lemma pt_insert:
  assumes "pt_ok t" and "rb_length t \<noteq> - 1"
  shows "fst (PointerRBTree_insert cmp t k v) \<longleftrightarrow> pt_lookup cmp t k = None"
    and "pt_ok (snd (PointerRBTree_insert cmp t k v))"
    and "pt_lookup cmp (snd (PointerRBTree_insert cmp t k v)) =
      (if pt_lookup cmp t k = None then (pt_lookup cmp t)(k \<mapsto> v) else pt_lookup cmp t)"
proof -
  have inv: "rb_inv fst (treeroot t)" using assms(1) by (simp add: pt_ok_def)
  have none: "rb_insert fst cmp (treeroot t) (k, v) = None \<longleftrightarrow> pt_lookup cmp t k \<noteq> None"
    using insert_None [of fst "treeroot t" "(k, v)"]
    by (simp add: pt_lookup_def PointerRBTree_findElem_def)
  then show "fst (PointerRBTree_insert cmp t k v) \<longleftrightarrow> pt_lookup cmp t k = None"
    by (auto simp: PointerRBTree_insert_def split: option.splits)
  have suc: "unat (rb_length t + 1) = Suc (unat (rb_length t))"
    using assms(2) by (simp add: unat_plus_one)
  show "pt_ok (snd (PointerRBTree_insert cmp t k v))"
    using assms(1) insert_inv [OF inv] suc
    by (auto simp: PointerRBTree_insert_def pt_ok_def dest: insert_size split: option.splits)
  show "pt_lookup cmp (snd (PointerRBTree_insert cmp t k v)) =
      (if pt_lookup cmp t k = None then (pt_lookup cmp t)(k \<mapsto> v) else pt_lookup cmp t)"
    using none find_insert [OF inv]
    by (auto simp: PointerRBTree_insert_def pt_lookup_def [abs_def] PointerRBTree_findElem_def
        fun_eq_iff split: option.splits)
qed

lemma pt_erase:
  assumes "pt_ok t"
  shows "fst (PointerRBTree_erase cmp t k) \<longleftrightarrow> pt_lookup cmp t k \<noteq> None"
    and "pt_ok (snd (PointerRBTree_erase cmp t k))"
    and "pt_lookup cmp (snd (PointerRBTree_erase cmp t k)) = (pt_lookup cmp t)(k := None)"
proof -
  have inv: "rb_inv fst (treeroot t)" using assms by (simp add: pt_ok_def)
  show "fst (PointerRBTree_erase cmp t k) \<longleftrightarrow> pt_lookup cmp t k \<noteq> None"
    by (auto simp: PointerRBTree_erase_def pt_lookup_def split: option.splits)
  have "unat (rb_length t - 1) = unat (rb_length t) - 1"
    if "rb_find fst cmp (treeroot t) k = Some e" for e
  proof -
    have "size (treeroot t) \<noteq> 0" using that by auto
    then show ?thesis using assms by (intro unat_minus_one) (auto simp: pt_ok_def)
  qed
  then show "pt_ok (snd (PointerRBTree_erase cmp t k))"
    using assms erase_inv [OF inv] erase_size [of fst "treeroot t" k]
    by (auto simp: PointerRBTree_erase_def PointerRBTree_findElem_def pt_ok_def split: option.splits)
  show "pt_lookup cmp (snd (PointerRBTree_erase cmp t k)) = (pt_lookup cmp t)(k := None)"
    using find_erase [OF inv, of k]
    by (auto simp: PointerRBTree_erase_def PointerRBTree_findElem_def pt_lookup_def fun_eq_iff
        split: option.splits)
qed

text \<open>Clearing ends with the empty tree after as many rounds as there are elements.\<close>

lemma pt_clear:
  "pt_ok t \<Longrightarrow> size (treeroot t) \<le> n \<Longrightarrow>
   PointerRBTree_clear n cmp t = Some (t\<lparr>treeroot := Leaf, rb_length := 0\<rparr>)"
proof (induction n arbitrary: t)
  case 0
  then show ?case by (cases t) (simp add: pt_ok_def unat_eq_0)
next
  case (Suc n)
  show ?case
  proof (cases "treeroot t")
    case Leaf
    then show ?thesis using Suc.prems by (cases t) (simp add: pt_ok_def unat_eq_0)
  next
    case (Node l x r)
    let ?t = "snd (PointerRBTree_erase cmp t (fst x))"
    have inv: "rb_inv fst (treeroot t)" using Suc.prems by (simp add: pt_ok_def)
    then have f: "rb_find fst cmp (treeroot t) (fst x) = Some x" using Node cmp_refl by (simp add: Let_def)
    have s: "size (treeroot ?t) \<le> n"
      using erase_size [of fst "treeroot t" "fst x"] f Suc.prems(2)
      by (simp add: PointerRBTree_erase_def PointerRBTree_findElem_def)
    have "rb_length t \<noteq> 0" using Suc.prems(1) Node by (auto simp: pt_ok_def)
    then have "PointerRBTree_clear (Suc n) cmp t = PointerRBTree_clear n cmp ?t"
      using Node by simp
    also have "\<dots> = Some (?t\<lparr>treeroot := Leaf, rb_length := 0\<rparr>)"
      using Suc.IH [OF pt_erase(2) [OF Suc.prems(1)] s] .
    finally show ?thesis by (simp add: PointerRBTree_erase_def split: option.splits)
  qed
qed

text \<open>An iterator returned by a search starts at the element found and goes on in key order.\<close>

lemma rb_from_dropWhile: "rb_inv key t \<Longrightarrow> rb_from key cmp t k = dropWhile (\<lambda>x. key x \<noteq> k) (inorder t)"
proof (induction t)
  case (Node l x r)
  consider "cmp k (key x) < 0" | "cmp k (key x) > 0" | "\<not> cmp k (key x) < 0" "\<not> cmp k (key x) > 0"
    by blast
  then show ?case
  proof cases
    case 1
    then have lt: "k < key x" by (simp add: cmp_less)
    have r: "key y \<noteq> k" if "y \<in> set_tree r" for y using Node.prems lt that by fastforce
    show ?thesis
    proof (cases "\<exists>y \<in> set_tree l. key y = k")
      case True
      then have "dropWhile (\<lambda>x. key x \<noteq> k) (inorder l) \<noteq> []"
        by (metis (mono_tags, lifting) dropWhile_eq_Nil_conv set_inorder)
      moreover have "dropWhile (\<lambda>x. key x \<noteq> k) (inorder (Node l x r)) =
          dropWhile (\<lambda>x. key x \<noteq> k) (inorder l) @ x # inorder r"
      proof -
        obtain y where "y \<in> set (inorder l)" "key y = k" using True by auto
        then show ?thesis using dropWhile_append1 [of y "inorder l" "\<lambda>x. key x \<noteq> k"] by simp
      qed
      ultimately show ?thesis using 1 Node by (auto simp: Let_def split: list.splits)
    next
      case False
      then have "rb_from key cmp l k = []" using Node.IH(1) Node.prems by simp
      moreover have "dropWhile (\<lambda>x. key x \<noteq> k) (inorder (Node l x r)) = []"
        using False r lt by auto
      ultimately show ?thesis using 1 by (simp only: rb_from.simps Let_def if_True list.case)
    qed
  next
    case 2
    then have gt: "key x < k" by (simp add: cmp_greater)
    then have "\<forall>y \<in> set (inorder l). key y \<noteq> k" using Node.prems by fastforce
    then have "dropWhile (\<lambda>x. key x \<noteq> k) (inorder l @ x # inorder r) =
        dropWhile (\<lambda>x. key x \<noteq> k) (x # inorder r)"
      by (intro dropWhile_append2) blast
    then show ?thesis using 2 gt Node by (simp add: Let_def)
  next
    case 3
    then have "key x = k" using cmp_zero by metis
    moreover have "\<forall>y \<in> set (inorder l). key y \<noteq> k" using Node.prems calculation by fastforce
    then have "dropWhile (\<lambda>x. key x \<noteq> k) (inorder l @ x # inorder r) =
        dropWhile (\<lambda>x. key x \<noteq> k) (x # inorder r)"
      by (intro dropWhile_append2) blast
    ultimately show ?thesis using 3 by (simp add: Let_def)
  qed
qed simp

end

section \<open>Properties\<close>

text \<open>C25: On trees generated for integral keys, inserting or replacing an element returns the element it
  displaced, keeps the search order, and changes the lookup of exactly that key; erasing a key
  removes exactly that key.\<close>

theorem rbtree_map:
  assumes "rb_inv key (t :: 'e tree)"
  shows "rb_inv key (fst (rb_insertOrReplace key CONGFS_RB_KEYCMP_LT_INTEGRAL t x))
    \<and> snd (rb_insertOrReplace key CONGFS_RB_KEYCMP_LT_INTEGRAL t x) =
        rb_find key CONGFS_RB_KEYCMP_LT_INTEGRAL t (key x)
    \<and> (\<forall>k. rb_find key CONGFS_RB_KEYCMP_LT_INTEGRAL
          (fst (rb_insertOrReplace key CONGFS_RB_KEYCMP_LT_INTEGRAL t x)) k =
          (if k = key x then Some x else rb_find key CONGFS_RB_KEYCMP_LT_INTEGRAL t k))
    \<and> rb_inv key (rb_erase key CONGFS_RB_KEYCMP_LT_INTEGRAL t k)
    \<and> (\<forall>j. rb_find key CONGFS_RB_KEYCMP_LT_INTEGRAL (rb_erase key CONGFS_RB_KEYCMP_LT_INTEGRAL t k) j =
          (if j = k then None else rb_find key CONGFS_RB_KEYCMP_LT_INTEGRAL t j))"
  using assms by (simp add: integral.put_laws integral.erase_inv integral.find_erase)

theorem rbtree_map_witness:
  "rb_inv fst (fst (rb_insertOrReplace fst CONGFS_RB_KEYCMP_LT_INTEGRAL
      (Node (Node Leaf (1 :: u16, 5 :: nat) Leaf) (3, 6) Leaf) (1, 9)))
   \<and> snd (rb_insertOrReplace fst CONGFS_RB_KEYCMP_LT_INTEGRAL
      (Node (Node Leaf (1 :: u16, 5 :: nat) Leaf) (3, 6) Leaf) (1, 9)) = Some (1, 5)"
proof -
  let ?t = "Node (Node Leaf (1 :: u16, 5 :: nat) Leaf) (3, 6) Leaf"
  have "rb_inv fst ?t" by simp
  note laws = rbtree_map [OF this, of "(1, 9)"]
  have "rb_find fst CONGFS_RB_KEYCMP_LT_INTEGRAL ?t 1 = Some (1, 5)"
    by (simp add: CONGFS_RB_KEYCMP_LT_INTEGRAL_def)
  then show ?thesis using conjunct1 [OF laws] conjunct1 [OF conjunct2 [OF laws]] by (simp only: fst_conv)
qed

text \<open>C28: A pointer tree keeps its length field equal to its number of elements; inserting an existing
  key is refused and changes nothing, and clearing empties the tree within as many rounds as it has
  elements.\<close>

theorem pointerTree_ops:
  assumes "pt_ok t" and "rb_length t \<noteq> - 1"
  shows "pt_ok (snd (PointerRBTree_insert PointerRBTree_keyCompare t k v))
    \<and> (fst (PointerRBTree_insert PointerRBTree_keyCompare t k v) \<longleftrightarrow>
        pt_lookup PointerRBTree_keyCompare t k = None)
    \<and> (\<not> fst (PointerRBTree_insert PointerRBTree_keyCompare t k v) \<longrightarrow>
        snd (PointerRBTree_insert PointerRBTree_keyCompare t k v) = t)
    \<and> pt_ok (snd (PointerRBTree_erase PointerRBTree_keyCompare t k))
    \<and> pt_lookup PointerRBTree_keyCompare (snd (PointerRBTree_erase PointerRBTree_keyCompare t k)) k = None
    \<and> PointerRBTree_clear (unat (PointerRBTree_length t)) PointerRBTree_keyCompare t =
        Some (t\<lparr>treeroot := Leaf, rb_length := 0\<rparr>)"
proof -
  have "PointerRBTree_clear (unat (PointerRBTree_length t)) PointerRBTree_keyCompare t =
      Some (t\<lparr>treeroot := Leaf, rb_length := 0\<rparr>)"
    using assms(1) by (intro pointer.pt_clear) (simp_all add: pt_ok_def PointerRBTree_length_def)
  moreover have "\<not> fst (PointerRBTree_insert PointerRBTree_keyCompare t k v) \<longrightarrow>
      snd (PointerRBTree_insert PointerRBTree_keyCompare t k v) = t"
    by (simp add: PointerRBTree_insert_def split: option.splits)
  ultimately show ?thesis
    using pointer.pt_insert [OF assms] pointer.pt_erase [OF assms(1)] by simp
qed

theorem pointerTree_ops_witness:
  "PointerRBTree_clear 1 PointerRBTree_keyCompare \<lparr>treeroot = Node Leaf (8, True) Leaf, rb_length = 1\<rparr> =
     Some \<lparr>treeroot = Leaf, rb_length = 0\<rparr>
   \<and> \<not> fst (PointerRBTree_insert PointerRBTree_keyCompare
       \<lparr>treeroot = Node Leaf (8, True) Leaf, rb_length = 1\<rparr> 8 False)"
proof -
  let ?t = "\<lparr>treeroot = Node Leaf (8, True) Leaf, rb_length = 1\<rparr> :: (u64, bool) RBTree"
  have "pt_ok ?t" and "rb_length ?t \<noteq> - 1" by (simp_all add: pt_ok_def)
  from pointerTree_ops [OF this, of 8 False] show ?thesis
    by (simp add: PointerRBTree_length_def pt_lookup_def PointerRBTree_findElem_def
        PointerRBTree_keyCompare_def)
qed

end
