(* ===== verification/NodeMaps.thy ===== *)
theory NodeMaps
  imports NodeTypes RBTree
begin

text \<open>
  \<^verbatim>\<open>common/nodes/TargetMapper\<close> and \<^verbatim>\<open>common/nodes/TargetStateStore\<close>: which node serves a target and in
  which state a target is. Every operation runs under the store's read-write lock, so it is one
  atomic step on the store.
\<close>

section \<open>TargetMapper\<close>

record TargetMapper =
  tm_entries :: "TargetMapping tree"

definition TargetMapper_find :: "TargetMapper \<Rightarrow> u16 \<Rightarrow> TargetMapping option" where
  "TargetMapper_find this = rb_find tm_targetID CONGFS_RB_KEYCMP_LT_INTEGRAL (tm_entries this)"

definition TargetMapper_insertOrReplace ::
    "TargetMapper \<Rightarrow> TargetMapping \<Rightarrow> TargetMapper \<times> TargetMapping option" where
  "TargetMapper_insertOrReplace this entry =
     (let (t, replaced) =
        rb_insertOrReplace tm_targetID CONGFS_RB_KEYCMP_LT_INTEGRAL (tm_entries this) entry
      in (this\<lparr>tm_entries := t\<rparr>, replaced))"

definition TargetMapper_init :: TargetMapper where
  "TargetMapper_init = \<lparr>tm_entries = Leaf\<rparr>"

definition TargetMapper_mapTarget ::
    "TargetMapper \<Rightarrow> u16 \<Rightarrow> NumNodeID \<Rightarrow> bool \<times> TargetMapper" where
  "TargetMapper_mapTarget this targetID nodeID =
     (let (this, replaced) =
        TargetMapper_insertOrReplace this \<lparr>tm_targetID = targetID, tm_nodeID = nodeID\<rparr>
      in (replaced = None, this))"

definition TargetMapper_syncTargets :: "TargetMapper \<Rightarrow> TargetMapping list \<Rightarrow> TargetMapper" where
  "TargetMapper_syncTargets this mappings =
     foldl (\<lambda>this elem. fst (TargetMapper_insertOrReplace this elem))
       (this\<lparr>tm_entries := Leaf\<rparr>) mappings"

definition TargetMapper_getTargetIDs :: "TargetMapper \<Rightarrow> u16 list" where
  "TargetMapper_getTargetIDs this = map tm_targetID (inorder (tm_entries this))"

definition TargetMapper_getNodeID :: "TargetMapper \<Rightarrow> u16 \<Rightarrow> NumNodeID" where
  "TargetMapper_getNodeID this targetID =
     (case TargetMapper_find this targetID of
        Some elem \<Rightarrow> tm_nodeID elem
      | None \<Rightarrow> \<lparr>nn_value = 0\<rparr>)"

section \<open>TargetStateStore\<close>

record TargetStateStore =
  ss_states :: "TargetStateInfo tree"

definition TargetStateStore_find :: "TargetStateStore \<Rightarrow> u16 \<Rightarrow> TargetStateInfo option" where
  "TargetStateStore_find this = rb_find si_targetID CONGFS_RB_KEYCMP_LT_INTEGRAL (ss_states this)"

definition TargetStateStore_insertOrReplace ::
    "TargetStateStore \<Rightarrow> TargetStateInfo \<Rightarrow> TargetStateStore \<times> TargetStateInfo option" where
  "TargetStateStore_insertOrReplace this entry =
     (let (t, replaced) =
        rb_insertOrReplace si_targetID CONGFS_RB_KEYCMP_LT_INTEGRAL (ss_states this) entry
      in (this\<lparr>ss_states := t\<rparr>, replaced))"

definition TargetStateStore_init :: TargetStateStore where
  "TargetStateStore_init = \<lparr>ss_states = Leaf\<rparr>"

definition stateInfo_of :: "TargetStateMapping \<Rightarrow> TargetStateInfo" where
  "stateInfo_of state =
     \<lparr>si_targetID = ts_targetID state,
      si_state = \<lparr>reachabilityState = ts_reachabilityState state,
                  consistencyState = ts_consistencyState state\<rparr>\<rparr>"

definition TargetStateStore_syncStatesUnlocked ::
    "TargetStateStore \<Rightarrow> TargetStateMapping list \<Rightarrow> TargetStateStore" where
  "TargetStateStore_syncStatesUnlocked this states =
     foldl (\<lambda>this state. fst (TargetStateStore_insertOrReplace this (stateInfo_of state)))
       (this\<lparr>ss_states := Leaf\<rparr>) states"

definition TargetStateStore_reachabilityStateToStr :: "TargetReachabilityState \<Rightarrow> string" where
  "TargetStateStore_reachabilityStateToStr state =
     (if state = TargetReachabilityState_ONLINE then ''Online''
      else if state = TargetReachabilityState_POFFLINE then ''Probably-offline''
      else if state = TargetReachabilityState_OFFLINE then ''Offline''
      else ''<invalid_value>'')"

definition TargetStateStore_consistencyStateToStr :: "TargetConsistencyState \<Rightarrow> string" where
  "TargetStateStore_consistencyStateToStr state =
     (if state = TargetConsistencyState_GOOD then ''Good''
      else if state = TargetConsistencyState_NEEDS_RESYNC then ''Needs-resync''
      else if state = TargetConsistencyState_BAD then ''Bad''
      else ''<invalid_value>'')"

definition TargetStateStore_getStatesAsLists ::
    "TargetStateStore \<Rightarrow> u16 list \<times> byte list \<times> byte list" where
  "TargetStateStore_getStatesAsLists this =
     (let infos = inorder (ss_states this) in
      (map si_targetID infos, map (reachabilityState \<circ> si_state) infos,
       map (consistencyState \<circ> si_state) infos))"

text \<open>The walk of \<^verbatim>\<open>setAllStates\<close> overwrites elements in place; their keys and links stay.\<close>

definition setReachability :: "TargetReachabilityState \<Rightarrow> TargetStateInfo \<Rightarrow> TargetStateInfo" where
  "setReachability state info =
     (if reachabilityState (si_state info) \<noteq> state
      then info\<lparr>si_state := (si_state info)\<lparr>reachabilityState := state\<rparr>\<rparr> else info)"

definition TargetStateStore_setAllStates ::
    "TargetStateStore \<Rightarrow> TargetReachabilityState \<Rightarrow> bool \<times> TargetStateStore" where
  "TargetStateStore_setAllStates this state =
     (list_ex (\<lambda>info. reachabilityState (si_state info) \<noteq> state) (inorder (ss_states this)),
      this\<lparr>ss_states := map_tree (setReachability state) (ss_states this)\<rparr>)"

definition TargetStateStore_getState ::
    "TargetStateStore \<Rightarrow> u16 \<Rightarrow> bool \<times> CombinedTargetState" where
  "TargetStateStore_getState this targetID =
     (case TargetStateStore_find this targetID of
        Some stateInfo \<Rightarrow> (True, si_state stateInfo)
      | None \<Rightarrow> (False, \<lparr>reachabilityState = TargetReachabilityState_OFFLINE,
                         consistencyState = TargetConsistencyState_GOOD\<rparr>))"

section \<open>Both stores are keyed stores\<close>

interpretation mapperTree: key_store tm_targetID "rb_inv tm_targetID" Leaf
    "rb_find tm_targetID CONGFS_RB_KEYCMP_LT_INTEGRAL"
    "rb_insertOrReplace tm_targetID CONGFS_RB_KEYCMP_LT_INTEGRAL"
    "rb_erase tm_targetID CONGFS_RB_KEYCMP_LT_INTEGRAL" inorder
  by (rule integral.tree_store)

interpretation stateTree: key_store si_targetID "rb_inv si_targetID" Leaf
    "rb_find si_targetID CONGFS_RB_KEYCMP_LT_INTEGRAL"
    "rb_insertOrReplace si_targetID CONGFS_RB_KEYCMP_LT_INTEGRAL"
    "rb_erase si_targetID CONGFS_RB_KEYCMP_LT_INTEGRAL" inorder
  by (rule integral.tree_store)

definition mapper_ok :: "TargetMapper \<Rightarrow> bool" where
  "mapper_ok this \<longleftrightarrow> rb_inv tm_targetID (tm_entries this)"

definition states_ok :: "TargetStateStore \<Rightarrow> bool" where
  "states_ok this \<longleftrightarrow> rb_inv si_targetID (ss_states this)"

lemma mapper_put:
  "fst (TargetMapper_insertOrReplace this e) =
     this\<lparr>tm_entries := fst (rb_insertOrReplace tm_targetID CONGFS_RB_KEYCMP_LT_INTEGRAL (tm_entries this) e)\<rparr>"
  "snd (TargetMapper_insertOrReplace this e) =
     snd (rb_insertOrReplace tm_targetID CONGFS_RB_KEYCMP_LT_INTEGRAL (tm_entries this) e)"
  by (simp_all add: TargetMapper_insertOrReplace_def split: prod.splits)

lemma states_put:
  "fst (TargetStateStore_insertOrReplace this e) =
     this\<lparr>ss_states := fst (rb_insertOrReplace si_targetID CONGFS_RB_KEYCMP_LT_INTEGRAL (ss_states this) e)\<rparr>"
  by (simp add: TargetStateStore_insertOrReplace_def split: prod.splits)

lemma syncTargets_tree:
  "tm_entries (TargetMapper_syncTargets this xs) =
     foldl (\<lambda>t x. fst (rb_insertOrReplace tm_targetID CONGFS_RB_KEYCMP_LT_INTEGRAL t x)) Leaf xs"
proof -
  have "tm_entries (foldl (\<lambda>this elem. fst (TargetMapper_insertOrReplace this elem)) this xs) =
      foldl (\<lambda>t x. fst (rb_insertOrReplace tm_targetID CONGFS_RB_KEYCMP_LT_INTEGRAL t x)) (tm_entries this) xs"
    for this :: TargetMapper
    by (induction xs arbitrary: this) (simp_all add: mapper_put)
  then show ?thesis by (simp add: TargetMapper_syncTargets_def)
qed

lemma syncStates_tree:
  "ss_states (TargetStateStore_syncStatesUnlocked this xs) =
     foldl (\<lambda>t x. fst (rb_insertOrReplace si_targetID CONGFS_RB_KEYCMP_LT_INTEGRAL t x)) Leaf
       (map stateInfo_of xs)"
proof -
  have "ss_states (foldl (\<lambda>this state. fst (TargetStateStore_insertOrReplace this (stateInfo_of state))) this xs) =
      foldl (\<lambda>t x. fst (rb_insertOrReplace si_targetID CONGFS_RB_KEYCMP_LT_INTEGRAL t x)) (ss_states this)
        (map stateInfo_of xs)"
    for this :: TargetStateStore
    by (induction xs arbitrary: this) (simp_all add: states_put)
  then show ?thesis by (simp add: TargetStateStore_syncStatesUnlocked_def)
qed

lemma setReachability_key: "si_targetID (setReachability s i) = si_targetID i"
  by (simp add: setReachability_def)

lemma rb_inv_map_tree: "(\<And>x. key (f x) = key x) \<Longrightarrow> rb_inv key (map_tree f t) = rb_inv key t"
  by (induction t) (simp_all add: tree.set_map)

lemma rb_find_map_tree:
  "(\<And>x. key (f x) = key x) \<Longrightarrow> rb_find key cmp (map_tree f t) k = map_option f (rb_find key cmp t k)"
  by (induction t) (simp_all add: Let_def)

lemma inorder_map_tree: "inorder (map_tree f t) = map f (inorder t)"
  by (induction t) simp_all

lemma sync_ids:
  "set (inorder (foldl (\<lambda>t x. fst (rb_insertOrReplace tm_targetID CONGFS_RB_KEYCMP_LT_INTEGRAL t x)) Leaf xs))
     \<subseteq> set xs"
proof
  let ?t = "foldl (\<lambda>t x. fst (rb_insertOrReplace tm_targetID CONGFS_RB_KEYCMP_LT_INTEGRAL t x)) Leaf xs"
  fix e
  assume e: "e \<in> set (inorder ?t)"
  have inv: "rb_inv tm_targetID ?t" by (rule mapperTree.inv_sync) simp
  from e have "rb_find tm_targetID CONGFS_RB_KEYCMP_LT_INTEGRAL ?t (tm_targetID e) = Some e"
    by (simp add: integral.find_iff [OF inv])
  then have "find (\<lambda>x. tm_targetID x = tm_targetID e) (rev xs) = Some e"
    using mapperTree.lookup_sync [where s = Leaf and xs = xs and k = "tm_targetID e"]
    by (simp split: option.splits)
  then show "e \<in> set xs" unfolding find_Some_iff by (metis nth_mem set_rev)
qed

section \<open>Properties\<close>

text \<open>Mapping a target reports whether the target was unmapped before, makes lookups of that target
  return the new node and leaves every other lookup as it was.\<close>

theorem mapTarget_getNodeID:
  assumes "mapper_ok this"
  shows "mapper_ok (snd (TargetMapper_mapTarget this t n))
    \<and> (fst (TargetMapper_mapTarget this t n) \<longleftrightarrow> TargetMapper_find this t = None)
    \<and> (\<forall>j. TargetMapper_getNodeID (snd (TargetMapper_mapTarget this t n)) j =
          (if j = t then n else TargetMapper_getNodeID this j))"
proof -
  let ?e = "\<lparr>tm_targetID = t, tm_nodeID = n\<rparr>"
  have inv: "rb_inv tm_targetID (tm_entries this)" using assms by (simp add: mapper_ok_def)
  have 1: "snd (TargetMapper_mapTarget this t n) = fst (TargetMapper_insertOrReplace this ?e)"
    and 2: "fst (TargetMapper_mapTarget this t n) \<longleftrightarrow> snd (TargetMapper_insertOrReplace this ?e) = None"
    by (simp_all add: TargetMapper_mapTarget_def split: prod.splits)
  show ?thesis
    unfolding 1 2 mapper_put mapper_ok_def TargetMapper_getNodeID_def TargetMapper_find_def
    using inv by (simp add: mapperTree.inv_put mapperTree.lookup_put mapperTree.put_replaced)
qed

theorem mapTarget_getNodeID_witness:
  "TargetMapper_getNodeID (snd (TargetMapper_mapTarget TargetMapper_init 5 \<lparr>nn_value = 2\<rparr>)) 5 = \<lparr>nn_value = 2\<rparr>
   \<and> TargetMapper_getNodeID (snd (TargetMapper_mapTarget TargetMapper_init 5 \<lparr>nn_value = 2\<rparr>)) 6 = \<lparr>nn_value = 0\<rparr>"
proof -
  have "mapper_ok TargetMapper_init" by (simp add: mapper_ok_def TargetMapper_init_def)
  moreover have "TargetMapper_getNodeID TargetMapper_init 6 = \<lparr>nn_value = 0\<rparr>"
    by (simp add: TargetMapper_getNodeID_def TargetMapper_find_def TargetMapper_init_def)
  ultimately show ?thesis
    using mapTarget_getNodeID [of TargetMapper_init 5 "\<lparr>nn_value = 2\<rparr>"] by simp
qed

text \<open>C13: After synchronising with a list of mappings, whatever the mapper held before, a lookup returns
  the node of the last mapping of that target, or node 0 when the list has none; the reported target
  ids are strictly ascending and are exactly the targets of the list.\<close>

theorem syncTargets_getNodeID:
  "TargetMapper_getNodeID (TargetMapper_syncTargets this xs) t =
     (case find (\<lambda>m. tm_targetID m = t) (rev xs) of None \<Rightarrow> \<lparr>nn_value = 0\<rparr> | Some m \<Rightarrow> tm_nodeID m)
   \<and> sorted_wrt (<) (TargetMapper_getTargetIDs (TargetMapper_syncTargets this xs))
   \<and> set (TargetMapper_getTargetIDs (TargetMapper_syncTargets this xs)) = tm_targetID ` set xs"
proof -
  let ?t = "foldl (\<lambda>t x. fst (rb_insertOrReplace tm_targetID CONGFS_RB_KEYCMP_LT_INTEGRAL t x)) Leaf xs"
  have inv: "rb_inv tm_targetID ?t" by (rule mapperTree.inv_sync) simp
  have l: "rb_find tm_targetID CONGFS_RB_KEYCMP_LT_INTEGRAL ?t k = find (\<lambda>m. tm_targetID m = k) (rev xs)" for k
    using mapperTree.lookup_sync [where s = Leaf and xs = xs and k = k] by (simp split: option.splits)
  have "tm_targetID m \<in> tm_targetID ` set (inorder ?t)" if "m \<in> set xs" for m
  proof -
    have "find (\<lambda>x. tm_targetID x = tm_targetID m) (rev xs) \<noteq> None"
      using that unfolding find_None_iff by auto
    then obtain e where "rb_find tm_targetID CONGFS_RB_KEYCMP_LT_INTEGRAL ?t (tm_targetID m) = Some e"
      using l by auto
    then have "e \<in> set (inorder ?t)" and "tm_targetID e = tm_targetID m"
      by (simp_all add: integral.find_iff [OF inv])
    then show ?thesis by (metis imageI)
  qed
  then have ids: "tm_targetID ` set (inorder ?t) = tm_targetID ` set xs"
    using sync_ids by blast
  have "sorted_wrt (<) (map tm_targetID (inorder ?t))"
    using inv by (simp add: rb_inv_sorted sorted_wrt_map)
  with ids l show ?thesis
    by (simp add: TargetMapper_getNodeID_def TargetMapper_find_def TargetMapper_getTargetIDs_def
        syncTargets_tree)
qed

text \<open>C27: After synchronising the target states, a lookup reports the last state received for the target;
  a target that was not in the list is reported as unknown, offline and good.\<close>

theorem syncStates_getState:
  "TargetStateStore_getState (TargetStateStore_syncStatesUnlocked this xs) t =
     (case find (\<lambda>m. ts_targetID m = t) (rev xs) of
        None \<Rightarrow> (False, \<lparr>reachabilityState = TargetReachabilityState_OFFLINE,
                        consistencyState = TargetConsistencyState_GOOD\<rparr>)
      | Some m \<Rightarrow> (True, \<lparr>reachabilityState = ts_reachabilityState m,
                         consistencyState = ts_consistencyState m\<rparr>))"
proof -
  have f: "find (\<lambda>x. si_targetID x = t) (map stateInfo_of ys) =
      map_option stateInfo_of (find (\<lambda>m. ts_targetID m = t) ys)" for ys
    by (induction ys) (simp_all add: stateInfo_of_def)
  have "TargetStateStore_find (TargetStateStore_syncStatesUnlocked this xs) t =
      map_option stateInfo_of (find (\<lambda>m. ts_targetID m = t) (rev xs))"
    using stateTree.lookup_sync [where s = Leaf and xs = "map stateInfo_of xs" and k = t]
    by (simp add: TargetStateStore_find_def syncStates_tree rev_map f split: option.splits)
  then show ?thesis
    by (simp add: TargetStateStore_getState_def stateInfo_of_def split: option.splits)
qed

text \<open>Setting all states changes the reachability of every known target and nothing else, and
  reports whether any target was in another state.\<close>

theorem setAllStates_getState:
  assumes "states_ok this"
  shows "states_ok (snd (TargetStateStore_setAllStates this r))
    \<and> (\<forall>t. TargetStateStore_getState (snd (TargetStateStore_setAllStates this r)) t =
          (case TargetStateStore_getState this t of
             (True, s) \<Rightarrow> (True, s\<lparr>reachabilityState := r\<rparr>)
           | (False, s) \<Rightarrow> (False, s)))
    \<and> (fst (TargetStateStore_setAllStates this r) \<longleftrightarrow>
        (\<exists>t s. TargetStateStore_getState this t = (True, s) \<and> reachabilityState s \<noteq> r))"
proof -
  have inv: "rb_inv si_targetID (ss_states this)" using assms by (simp add: states_ok_def)
  have eq: "si_state (setReachability r i) = (si_state i)\<lparr>reachabilityState := r\<rparr>" for i
    by (cases "si_state i") (simp add: setReachability_def)
  have get: "TargetStateStore_getState (snd (TargetStateStore_setAllStates this r)) t =
      (case TargetStateStore_getState this t of
         (True, s) \<Rightarrow> (True, s\<lparr>reachabilityState := r\<rparr>) | (False, s) \<Rightarrow> (False, s))" for t
    by (simp add: TargetStateStore_setAllStates_def TargetStateStore_getState_def eq
        TargetStateStore_find_def rb_find_map_tree setReachability_key split: option.splits)
  have "(\<exists>i \<in> set_tree (ss_states this). reachabilityState (si_state i) \<noteq> r) \<longleftrightarrow>
      (\<exists>t i. TargetStateStore_find this t = Some i \<and> reachabilityState (si_state i) \<noteq> r)"
    unfolding TargetStateStore_find_def integral.find_iff [OF inv] by blast
  also have "\<dots> \<longleftrightarrow> (\<exists>t s. TargetStateStore_getState this t = (True, s) \<and> reachabilityState s \<noteq> r)"
    by (auto simp: TargetStateStore_getState_def split: option.splits)
  finally show ?thesis
    using inv get
    by (simp add: TargetStateStore_setAllStates_def states_ok_def rb_inv_map_tree
        setReachability_key list_ex_iff)
qed

theorem setAllStates_getState_witness:
  "let s = \<lparr>ss_states = Node Leaf \<lparr>si_targetID = 4,
            si_state = \<lparr>reachabilityState = 0, consistencyState = 1\<rparr>\<rparr> Leaf\<rparr> in
   fst (TargetStateStore_setAllStates s 2)
   \<and> TargetStateStore_getState (snd (TargetStateStore_setAllStates s 2)) 4 =
       (True, \<lparr>reachabilityState = 2, consistencyState = 1\<rparr>)"
proof -
  let ?s = "\<lparr>ss_states = Node Leaf \<lparr>si_targetID = 4,
      si_state = \<lparr>reachabilityState = 0, consistencyState = 1\<rparr>\<rparr> Leaf\<rparr>"
  have ok: "states_ok ?s" by (simp add: states_ok_def)
  have g: "TargetStateStore_getState ?s 4 = (True, \<lparr>reachabilityState = 0, consistencyState = 1\<rparr>)"
    by (simp add: TargetStateStore_getState_def TargetStateStore_find_def
        CONGFS_RB_KEYCMP_LT_INTEGRAL_def)
  then have "\<exists>t s. TargetStateStore_getState ?s t = (True, s) \<and> reachabilityState s \<noteq> 2"
    by (intro exI conjI) (assumption, simp)
  then show ?thesis using setAllStates_getState [OF ok, of 2] g by (simp add: Let_def)
qed

end
