(* ===== verification/BuddyGroup.thy ===== *)
theory BuddyGroup
  imports NodeTypes "HOL-Library.Multiset"
begin

text \<open>
  \<^verbatim>\<open>common/nodes/MirrorBuddyGroup\<close>: the sequence numbers of requests to a mirrored group. A number
  that is in flight occupies a slot of a binary heap; its owner holds a handle variable that points
  to the slot, and the slot points back to the variable (\<^verbatim>\<open>pSelf\<close>), so that moving a slot can update
  the handle. Finished numbers wait in a ring buffer until they are reported with a later request.

  Handle variables live in the callers: \<open>hmem\<close> maps the address of a handle variable to the index it
  points to (\<^const>\<open>None\<close> for a null pointer). An operation returns \<^const>\<open>None\<close> when it would access an
  array outside its bounds or follow a null handle. A mutex serialises the operations, so each is one
  step; the semaphore \<^verbatim>\<open>slotsAvail\<close> is its counter.
\<close>

section \<open>State and construction\<close>

record BuddySequenceNumber =
  pSelf :: u64
  seqValue :: u64

record MirrorBuddyGroup =
  groupID :: u16
  firstTargetID :: u16
  secondTargetID :: u16
  sequence :: u64
  slotsAvail :: nat
  seqNoInFlight :: "BuddySequenceNumber list"
  inFlightSize :: u32
  inFlightCapacity :: u32
  finishedSeqNums :: "u64 list"
  firstFinishedIndex :: u32
  finishedCount :: u32
  refs :: nat

type_synonym hmem = "u64 \<Rightarrow> nat option"

text \<open>
  The two arrays come from \<^verbatim>\<open>kmalloc\<close> or, if that fails, from \<^verbatim>\<open>vmalloc\<close>: \<open>memA\<close> and \<open>memB\<close> are the
  fresh contents, \<^const>\<open>None\<close> when both allocations fail.
\<close>

definition MirrorBuddyGroup_constructFromTargetIDs ::
    "(nat \<Rightarrow> BuddySequenceNumber list option) \<Rightarrow> (nat \<Rightarrow> u64 list option) \<Rightarrow>
     u16 \<Rightarrow> u16 \<Rightarrow> u16 \<Rightarrow> u16 \<Rightarrow> MirrorBuddyGroup option" where
  "MirrorBuddyGroup_constructFromTargetIDs memA memB gid doneBufferSize first second =
     (if doneBufferSize = 0 then None
      else do {
        a \<leftarrow> memA (unat doneBufferSize);
        b \<leftarrow> memB (unat doneBufferSize);
        Some \<lparr>groupID = gid, firstTargetID = first, secondTargetID = second, sequence = 0,
              slotsAvail = unat doneBufferSize,
              seqNoInFlight = a, inFlightSize = 0, inFlightCapacity = ucast doneBufferSize,
              finishedSeqNums = b, firstFinishedIndex = 0, finishedCount = 0, refs = 1\<rparr> })"

definition MirrorBuddyGroup_put :: "MirrorBuddyGroup \<Rightarrow> MirrorBuddyGroup" where
  "MirrorBuddyGroup_put this = this\<lparr>refs := refs this - 1\<rparr>"

section \<open>Acquiring a sequence number\<close>

datatype acquireError = EINTR | EAGAIN | ENOENT

text \<open>
  \<^verbatim>\<open>down_killable\<close> and \<^verbatim>\<open>down_trylock\<close>: \<^const>\<open>None\<close> while the caller sleeps, an error, or the group with
  one slot fewer. \<open>killed\<close> tells whether a fatal signal is pending.
\<close>

definition takeSlot ::
    "bool \<Rightarrow> bool \<Rightarrow> MirrorBuddyGroup \<Rightarrow> (acquireError + MirrorBuddyGroup) option" where
  "takeSlot allowWait killed this =
     (if slotsAvail this > 0 then Some (Inr (this\<lparr>slotsAvail := slotsAvail this - 1\<rparr>))
      else if \<not> allowWait then Some (Inl EAGAIN)
      else if killed then Some (Inl EINTR)
      else None)"

record acquired =
  aq_seqNo :: u64
  aq_acknowledgeSeq :: u64
  aq_isSelective :: bool

definition pushInFlight ::
    "MirrorBuddyGroup \<Rightarrow> u64 \<Rightarrow> u64 \<Rightarrow> hmem \<Rightarrow> (MirrorBuddyGroup \<times> hmem) option" where
  "pushInFlight this handle seqNo hm =
     (let i = unat (inFlightSize this) in
      if i < length (seqNoInFlight this)
      then Some (this\<lparr>seqNoInFlight := (seqNoInFlight this)[i := \<lparr>pSelf = handle, seqValue = seqNo\<rparr>],
                      inFlightSize := inFlightSize this + 1\<rparr>,
                 hm(handle \<mapsto> i))
      else None)"

definition nextAck :: "MirrorBuddyGroup \<Rightarrow> ((u64 \<times> bool) \<times> MirrorBuddyGroup) option" where
  "nextAck this =
     (if finishedCount this > 0
      then if unat (firstFinishedIndex this) < length (finishedSeqNums this)
        then Some ((finishedSeqNums this ! unat (firstFinishedIndex this), True),
                   this\<lparr>firstFinishedIndex := (firstFinishedIndex this + 1) mod inFlightCapacity this,
                        finishedCount := finishedCount this - 1\<rparr>)
        else None
      else case seqNoInFlight this of
             [] \<Rightarrow> None
           | s # _ \<Rightarrow> Some ((seqValue s - 1, False), this))"

text \<open>The part under the mutex, entered with a slot taken and a reference added.\<close>

definition acquireLocked ::
    "MirrorBuddyGroup \<Rightarrow> u64 \<Rightarrow> hmem \<Rightarrow> ((acquireError + acquired) \<times> MirrorBuddyGroup \<times> hmem) option" where
  "acquireLocked this handle hm =
     (if sequence this = 0
      then Some (Inl ENOENT,
                 MirrorBuddyGroup_put (this\<lparr>slotsAvail := slotsAvail this + 1\<rparr>),
                 hm(handle := None))
      else do {
        let seqNo = sequence this + 1;
        (this, hm) \<leftarrow> pushInFlight (this\<lparr>sequence := seqNo\<rparr>) handle seqNo hm;
        ((ack, sel), this) \<leftarrow> nextAck this;
        Some (Inr \<lparr>aq_seqNo = seqNo, aq_acknowledgeSeq = ack, aq_isSelective = sel\<rparr>, this, hm) })"

text \<open>\<^const>\<open>None\<close> for an access out of bounds, \<open>Some None\<close> for a caller that goes on sleeping.\<close>

definition MirrorBuddyGroup_acquireSequenceNumber ::
    "bool \<Rightarrow> bool \<Rightarrow> MirrorBuddyGroup \<Rightarrow> u64 \<Rightarrow> hmem \<Rightarrow>
     ((acquireError + acquired) \<times> MirrorBuddyGroup \<times> hmem) option option" where
  "MirrorBuddyGroup_acquireSequenceNumber allowWait killed this handle hm =
     (case takeSlot allowWait killed this of
        None \<Rightarrow> Some None
      | Some (Inl e) \<Rightarrow> Some (Some (Inl e, this, hm))
      | Some (Inr this) \<Rightarrow> map_option Some (acquireLocked (this\<lparr>refs := refs this + 1\<rparr>) handle hm))"

section \<open>Releasing a sequence number\<close>

text \<open>\<^verbatim>\<open>swap\<close> of two slots followed by the update of the two handles.\<close>

type_synonym slots = "BuddySequenceNumber list"

definition swapSlots :: "nat \<Rightarrow> nat \<Rightarrow> slots \<times> hmem \<Rightarrow> (slots \<times> hmem) option" where
  "swapSlots i j = (\<lambda>(xs, hm).
     if i < length xs \<and> j < length xs
     then let xs = xs[i := xs ! j, j := xs ! i]
          in Some (xs, hm(pSelf (xs ! i) \<mapsto> i, pSelf (xs ! j) \<mapsto> j))
     else None)"

text \<open>Moving the slot to the root. The parent of \<open>index\<close> is taken to be \<open>index div 2\<close>, as in the code.\<close>

fun siftUp :: "nat \<Rightarrow> slots \<times> hmem \<Rightarrow> (slots \<times> hmem) option" where
  "siftUp index st =
     (if index = 0 then Some st
      else do {
        st \<leftarrow> swapSlots index (index div 2) st;
        siftUp (index div 2) st })"

definition minChild :: "nat \<Rightarrow> slots \<Rightarrow> nat \<Rightarrow> nat" where
  "minChild n xs i =
     (let leftChild = 2 * i + 1; rightChild = 2 * i + 2;
          minNode = i;
          minNode = (if leftChild < n \<and> seqValue (xs ! leftChild) < seqValue (xs ! minNode)
                     then leftChild else minNode);
          minNode = (if rightChild < n \<and> seqValue (xs ! rightChild) < seqValue (xs ! minNode)
                     then rightChild else minNode)
      in minNode)"

lemma minChild_cases: "minChild n xs i = i \<or> i < minChild n xs i \<and> minChild n xs i < n"
  by (auto simp: minChild_def Let_def)

function siftDown :: "nat \<Rightarrow> nat \<Rightarrow> slots \<times> hmem \<Rightarrow> (slots \<times> hmem) option" where
  "siftDown n i st =
     (let minNode = minChild n (fst st) i in
      if minNode \<noteq> i
      then do {
        st \<leftarrow> swapSlots i minNode st;
        siftDown n minNode st }
      else Some st)"
  by pat_completeness auto
termination
proof (relation "measure (\<lambda>(n, i, st). n - i)", goal_cases)
  case (2 n i st m st')
  then show ?case using minChild_cases [of n "fst st" i] by auto
qed simp

text \<open>The ring buffer of finished numbers.\<close>

definition pushFinished :: "u64 \<Rightarrow> MirrorBuddyGroup \<Rightarrow> MirrorBuddyGroup option" where
  "pushFinished value this =
     (let (this, nextFinishedIndex) =
        (if finishedCount this < inFlightCapacity this
         then let this = this\<lparr>finishedCount := finishedCount this + 1\<rparr>
              in (this, (firstFinishedIndex this + finishedCount this - 1) mod inFlightCapacity this)
         else let this = this\<lparr>firstFinishedIndex :=
                               (firstFinishedIndex this + 1) mod inFlightCapacity this\<rparr>
              in (this, firstFinishedIndex this))
      in if unat nextFinishedIndex < length (finishedSeqNums this)
         then Some (this\<lparr>finishedSeqNums := (finishedSeqNums this)[unat nextFinishedIndex := value]\<rparr>)
         else None)"

definition removeInFlight :: "nat \<Rightarrow> MirrorBuddyGroup \<Rightarrow> hmem \<Rightarrow> (MirrorBuddyGroup \<times> hmem) option" where
  "removeInFlight slot this hm = do {
     st \<leftarrow> siftUp slot (seqNoInFlight this, hm);
     let last = inFlightSize this - 1;
     st \<leftarrow> swapSlots 0 (unat last) st;
     (xs, hm) \<leftarrow> siftDown (unat last) 0 st;
     Some (this\<lparr>seqNoInFlight := xs, inFlightSize := last\<rparr>, hm) }"

definition MirrorBuddyGroup_releaseSequenceNumber ::
    "MirrorBuddyGroup \<Rightarrow> u64 \<Rightarrow> hmem \<Rightarrow> (MirrorBuddyGroup \<times> hmem) option" where
  "MirrorBuddyGroup_releaseSequenceNumber this handle hm = do {
     slot \<leftarrow> hm handle;
     if slot < length (seqNoInFlight this) then do {
       this \<leftarrow> pushFinished (seqValue (seqNoInFlight this ! slot)) this;
       (this, hm) \<leftarrow> removeInFlight slot this hm;
       Some (MirrorBuddyGroup_put (this\<lparr>slotsAvail := slotsAvail this + 1\<rparr>), hm) }
     else None }"

definition MirrorBuddyGroup_setSeqNoBase :: "MirrorBuddyGroup \<Rightarrow> u64 \<Rightarrow> MirrorBuddyGroup" where
  "MirrorBuddyGroup_setSeqNoBase this seqNoBase =
     (if sequence this < seqNoBase then this\<lparr>sequence := seqNoBase\<rparr> else this)"

declare siftUp.simps [simp del] siftDown.simps [simp del]

section \<open>The heap keeps its slots and handles\<close>

text \<open>Each of the first \<open>n\<close> slots is the one its handle points to.\<close>

definition linked :: "nat \<Rightarrow> slots \<times> hmem \<Rightarrow> bool" where
  "linked n = (\<lambda>(xs, hm). n \<le> length xs \<and> (\<forall>i < n. hm (pSelf (xs ! i)) = Some i))"

lemma linked_inj:
  "linked n (xs, hm) \<Longrightarrow> i < n \<Longrightarrow> j < n \<Longrightarrow> pSelf (xs ! i) = pSelf (xs ! j) \<Longrightarrow> i = j"
  by (auto simp: linked_def) (metis option.inject)

lemma mset_take_swap:
  assumes "i < n" and "j < n" and "n \<le> length xs"
  shows "mset (take n (xs[i := xs ! j, j := xs ! i])) = mset (take n xs)"
proof -
  have "take n (xs[i := xs ! j, j := xs ! i]) = (take n xs)[i := take n xs ! j, j := take n xs ! i]"
    using assms by (simp add: take_update_swap)
  then show ?thesis
    using assms mset_swap [of j "take n xs" i] by simp
qed

text \<open>What one exchange of slots inside the first \<open>n\<close> keeps.\<close>

definition same_slots :: "nat \<Rightarrow> slots \<times> hmem \<Rightarrow> slots \<times> hmem \<Rightarrow> bool" where
  "same_slots n st st' \<longleftrightarrow> length (fst st') = length (fst st) \<and>
     mset (take n (fst st')) = mset (take n (fst st)) \<and> drop n (fst st') = drop n (fst st) \<and>
     (\<forall>h. h \<notin> pSelf ` set (take n (fst st)) \<longrightarrow> snd st' h = snd st h)"

lemma same_slots_refl [simp]: "same_slots n st st"
  by (simp add: same_slots_def)

lemma same_slots_trans: "same_slots n a b \<Longrightarrow> same_slots n b c \<Longrightarrow> same_slots n a c"
  unfolding same_slots_def by (metis set_mset_mset)

lemma swapSlots_linked:
  assumes l: "linked n (xs, hm)" and i: "i < n" and j: "j < n"
  obtains ys hm' where "swapSlots i j (xs, hm) = Some (ys, hm')" and "linked n (ys, hm')"
    and "same_slots n (xs, hm) (ys, hm')" and "ys ! i = xs ! j" and "ys ! j = xs ! i"
proof -
  let ?ys = "xs[i := xs ! j, j := xs ! i]"
  let ?hm = "hm(pSelf (?ys ! i) \<mapsto> i, pSelf (?ys ! j) \<mapsto> j)"
  have n: "n \<le> length xs" using l by (simp add: linked_def)
  have yi: "?ys ! i = xs ! j" and yj: "?ys ! j = xs ! i"
    using i j n by (auto simp: nth_list_update)
  have yk: "?ys ! k = xs ! k" if "k \<noteq> i" "k \<noteq> j" for k using that by simp
  have hm: "hm (pSelf (xs ! k)) = Some k" if "k < n" for k using l that by (simp add: linked_def)
  have "?hm (pSelf (?ys ! k)) = Some k" if k: "k < n" for k
  proof -
    consider "k = j" | "k = i" "k \<noteq> j" | "k \<noteq> i" "k \<noteq> j" by blast
    then show ?thesis
    proof cases
      case 2
      then have "pSelf (xs ! j) \<noteq> pSelf (xs ! i)" using linked_inj [OF l j i] by blast
      then show ?thesis using 2 by (simp add: yi yj)
    next
      case 3
      then have "pSelf (xs ! k) \<noteq> pSelf (xs ! i)" "pSelf (xs ! k) \<noteq> pSelf (xs ! j)"
        using linked_inj [OF l k i] linked_inj [OF l k j] by blast+
      then show ?thesis using 3 hm [OF k] by (simp add: yi yj yk)
    qed (simp add: yj)
  qed
  then have "linked n (?ys, ?hm)" using n by (simp add: linked_def)
  moreover have "same_slots n (xs, hm) (?ys, ?hm)"
  proof -
    have "xs ! i \<in> set (take n xs)" "xs ! j \<in> set (take n xs)"
      using i j n by (metis in_set_conv_nth length_take min.absorb2 nth_take)+
    then show ?thesis
      using mset_take_swap [OF i j n] i j by (auto simp: same_slots_def yi yj)
  qed
  moreover have "swapSlots i j (xs, hm) = Some (?ys, ?hm)"
    using i j n by (simp add: swapSlots_def Let_def)
  ultimately show thesis using that yi yj by blast
qed

lemma siftUp_linked:
  "linked n (xs, hm) \<Longrightarrow> i < n \<Longrightarrow>
   \<exists>ys hm'. siftUp i (xs, hm) = Some (ys, hm') \<and> linked n (ys, hm') \<and>
     same_slots n (xs, hm) (ys, hm') \<and> ys ! 0 = xs ! i"
proof (induction i arbitrary: xs hm rule: less_induct)
  case (less i)
  show ?case
  proof (cases "i = 0")
    case True
    then show ?thesis using less.prems by (auto simp: siftUp.simps)
  next
    case False
    then have lt: "i div 2 < i" by simp
    then have n: "i div 2 < n" using less.prems(2) by simp
    obtain ys hm' where sw: "swapSlots i (i div 2) (xs, hm) = Some (ys, hm')" "linked n (ys, hm')"
        "same_slots n (xs, hm) (ys, hm')" "ys ! (i div 2) = xs ! i"
      using swapSlots_linked [OF less.prems n] by metis
    from less.IH [OF lt sw(2) n] sw False show ?thesis
      by (subst siftUp.simps) (auto intro: same_slots_trans)
  qed
qed

lemma siftDown_linked:
  "linked n (xs, hm) \<Longrightarrow> i < n \<or> n = 0 \<Longrightarrow>
   \<exists>ys hm'. siftDown n i (xs, hm) = Some (ys, hm') \<and> linked n (ys, hm') \<and>
     same_slots n (xs, hm) (ys, hm')"
proof (induction "n - i" arbitrary: i xs hm rule: less_induct)
  case less
  let ?m = "minChild n xs i"
  show ?case
  proof (cases "?m = i")
    case True
    then show ?thesis using less.prems by (subst siftDown.simps) auto
  next
    case False
    then have m: "i < ?m" "?m < n" using minChild_cases [of n xs i] by auto
    then have i: "i < n" by simp
    obtain ys hm' where sw: "swapSlots i ?m (xs, hm) = Some (ys, hm')" "linked n (ys, hm')"
        "same_slots n (xs, hm) (ys, hm')"
      using swapSlots_linked [OF less.prems(1) i m(2)] by metis
    have "n - ?m < n - i" using m by simp
    from less.hyps [OF this sw(2)] m(2) sw False show ?thesis
      by (subst siftDown.simps) (auto simp: Let_def intro: same_slots_trans)
  qed
qed

section \<open>The ring buffer is a queue\<close>

definition ring :: "'a list \<Rightarrow> nat \<Rightarrow> nat \<Rightarrow> 'a list" where
  "ring xs f n = map (\<lambda>k. xs ! ((f + k) mod length xs)) [0..<n]"

lemma mod_add_inj:
  "(f + a) mod m = (f + b) mod m \<Longrightarrow> a < m \<Longrightarrow> b < m \<Longrightarrow> a = b" for a b f m :: nat
proof (induction a b rule: linorder_wlog)
  case (le a b)
  then have "m dvd b - a"
    by (metis add_diff_cancel_left le_add1 mod_eq_dvd_iff_nat nat_add_left_cancel_le)
  moreover have "b - a < m" using le by simp
  ultimately show ?case using le by (auto dest: dvd_imp_le)
next
  case (sym a b)
  then show ?case by metis
qed

lemma ring_push:
  assumes "n < length xs"
  shows "ring (xs[(f + n) mod length xs := v]) f (Suc n) = ring xs f n @ [v]"
proof -
  have "(f + n) mod length xs \<noteq> (f + k) mod length xs" if "k < n" for k
    using mod_add_inj [of f n "length xs" k] assms that by auto
  moreover have "(f + n) mod length xs < length xs" using assms by (intro mod_less_divisor) linarith
  ultimately show ?thesis by (auto simp: ring_def)
qed

lemma ring_pop:
  assumes "0 < n"
  shows "ring xs f n = xs ! (f mod length xs) # ring xs ((f + 1) mod length xs) (n - 1)"
proof -
  obtain m where m: "n = Suc m" using assms by (cases n) auto
  have "[0..<Suc m] = 0 # map Suc [0..<m]"
    unfolding map_Suc_upt by (rule upt_conv_Cons) simp
  with m have "[0..<n] = 0 # map Suc [0..<n - 1]" by simp
  then show ?thesis by (simp add: ring_def comp_def mod_add_left_eq)
qed

section \<open>The invariant of a group\<close>

definition capacity :: "MirrorBuddyGroup \<Rightarrow> nat" where
  "capacity this = unat (inFlightCapacity this)"

definition inflight :: "MirrorBuddyGroup \<Rightarrow> slots" where
  "inflight this = take (unat (inFlightSize this)) (seqNoInFlight this)"

definition finished :: "MirrorBuddyGroup \<Rightarrow> u64 list" where
  "finished this =
     ring (finishedSeqNums this) (unat (firstFinishedIndex this)) (unat (finishedCount this))"

definition group_ok :: "MirrorBuddyGroup \<Rightarrow> hmem \<Rightarrow> bool" where
  "group_ok this hm \<longleftrightarrow> 0 < capacity this \<and> capacity this < 2 ^ 16 \<and>
     length (seqNoInFlight this) = capacity this \<and> length (finishedSeqNums this) = capacity this \<and>
     slotsAvail this + unat (inFlightSize this) = capacity this \<and>
     unat (inFlightSize this) + unat (finishedCount this) \<le> capacity this \<and>
     unat (firstFinishedIndex this) < capacity this \<and>
     linked (unat (inFlightSize this)) (seqNoInFlight this, hm)"

lemma group_okD:
  assumes "group_ok this hm"
  shows "0 < capacity this" "capacity this < 2 ^ 16" "length (seqNoInFlight this) = capacity this"
    "length (finishedSeqNums this) = capacity this"
    "slotsAvail this + unat (inFlightSize this) = capacity this"
    "unat (inFlightSize this) + unat (finishedCount this) \<le> capacity this"
    "unat (firstFinishedIndex this) < capacity this"
    "linked (unat (inFlightSize this)) (seqNoInFlight this, hm)"
  using assms by (simp_all add: group_ok_def)

lemma length_inflight: "group_ok this hm \<Longrightarrow> length (inflight this) = unat (inFlightSize this)"
  by (simp add: inflight_def group_ok_def)

lemma construct_ok:
  assumes "MirrorBuddyGroup_constructFromTargetIDs memA memB gid n a b = Some this"
    and "\<And>xs. memA (unat n) = Some xs \<Longrightarrow> length xs = unat n"
    and "\<And>xs. memB (unat n) = Some xs \<Longrightarrow> length xs = unat n"
  shows "group_ok this hm" and "inflight this = []" and "finished this = []" and "sequence this = 0"
proof -
  have "unat n < 2 ^ 16" using unat_bound [of n] by simp
  moreover have "n \<noteq> 0" using assms(1) by (auto simp: MirrorBuddyGroup_constructFromTargetIDs_def)
  moreover have "unat (ucast n :: u32) = unat n" by (simp add: unat_ucast_up)
  moreover from calculation have "(ucast n :: u32) \<noteq> 0" by (metis unat_eq_0)
  ultimately show "group_ok this hm" and "inflight this = []" and "finished this = []"
    and "sequence this = 0"
    using assms
    by (auto simp: MirrorBuddyGroup_constructFromTargetIDs_def group_ok_def linked_def capacity_def
        inflight_def finished_def ring_def unat_gt_0 bind_eq_Some_conv
        split: if_splits)
qed

subsection \<open>Releasing\<close>

lemma pushFinished_ok:
  assumes ok: "group_ok this hm" and pos: "0 < inFlightSize this"
  obtains this' where "pushFinished v this = Some this'"
    and "finished this' = finished this @ [v]"
    and "unat (finishedCount this') = unat (finishedCount this) + 1"
    and "firstFinishedIndex this' = firstFinishedIndex this"
    and "length (finishedSeqNums this') = length (finishedSeqNums this)"
    and "this' = this\<lparr>finishedSeqNums := finishedSeqNums this', finishedCount := finishedCount this'\<rparr>"
proof -
  let ?C = "capacity this" and ?f = "unat (firstFinishedIndex this)" and ?n = "unat (finishedCount this)"
  note d = group_okD [OF ok]
  have "0 < unat (inFlightSize this)" using pos by (simp add: word_less_nat_alt)
  then have lt: "?n < ?C" using d(6) by simp
  then have c: "finishedCount this < inFlightCapacity this"
    by (simp add: word_less_nat_alt capacity_def)
  have n1: "unat (finishedCount this + 1) = ?n + 1"
    using lt d(2) by (subst unat_plus_le) simp_all
  have "firstFinishedIndex this + (finishedCount this + 1) - 1 = firstFinishedIndex this + finishedCount this"
    by simp
  moreover have "unat (firstFinishedIndex this + finishedCount this) = ?f + ?n"
    using lt d(2,7) by (subst unat_plus_le) simp_all
  ultimately have idx: "unat ((firstFinishedIndex this + (finishedCount this + 1) - 1) mod inFlightCapacity this)
      = (?f + ?n) mod ?C"
    by (simp add: unat_mod capacity_def)
  have il: "(?f + ?n) mod ?C < length (finishedSeqNums this)" using d(1,4) by simp
  let ?r = "this\<lparr>finishedSeqNums := (finishedSeqNums this)[(?f + ?n) mod ?C := v],
    finishedCount := finishedCount this + 1\<rparr>"
  have "pushFinished v this = Some ?r"
    using c idx il by (simp add: pushFinished_def Let_def)
  moreover have "finished ?r = finished this @ [v]"
    using ring_push [of ?n "finishedSeqNums this" ?f v] lt n1 d(4) by (simp add: finished_def)
  ultimately show thesis using that [of ?r] n1 by simp
qed

lemma removeInFlight_ok:
  assumes l: "linked (unat (inFlightSize this)) (seqNoInFlight this, hm)" and slot: "slot < unat (inFlightSize this)"
  obtains xs hm' where "removeInFlight slot this hm =
      Some (this\<lparr>seqNoInFlight := xs, inFlightSize := inFlightSize this - 1\<rparr>, hm')"
    and "unat (inFlightSize this - 1) = unat (inFlightSize this) - 1"
    and "length xs = length (seqNoInFlight this)"
    and "linked (unat (inFlightSize this) - 1) (xs, hm')"
    and "mset (inflight this) = add_mset (seqNoInFlight this ! slot) (mset (take (unat (inFlightSize this) - 1) xs))"
    and "\<forall>h. h \<notin> pSelf ` set (inflight this) \<longrightarrow> hm' h = hm h"
proof -
  let ?n = "unat (inFlightSize this)" and ?s = "(seqNoInFlight this, hm)"
  have nl: "?n \<le> length (seqNoInFlight this)" using l by (simp add: linked_def)
  have n1: "unat (inFlightSize this - 1) = ?n - 1"
    using slot by (intro unat_minus_one) auto
  obtain ys h1 where up: "siftUp slot ?s = Some (ys, h1)" "linked ?n (ys, h1)"
      "same_slots ?n ?s (ys, h1)" "ys ! 0 = seqNoInFlight this ! slot"
    using siftUp_linked [OF l slot] by blast
  have n0: "0 < ?n" "?n - 1 < ?n" using slot by simp_all
  obtain zs h2 where sw: "swapSlots 0 (?n - 1) (ys, h1) = Some (zs, h2)" "linked ?n (zs, h2)"
      "same_slots ?n (ys, h1) (zs, h2)" "zs ! (?n - 1) = ys ! 0"
    using swapSlots_linked [OF up(2) n0] by metis
  have l2: "linked (?n - 1) (zs, h2)" using sw(2) by (auto simp: linked_def)
  obtain xs h3 where dn: "siftDown (?n - 1) 0 (zs, h2) = Some (xs, h3)" "linked (?n - 1) (xs, h3)"
      "same_slots (?n - 1) (zs, h2) (xs, h3)"
    using siftDown_linked [OF l2, of 0] by (metis gr0I)
  have ss: "same_slots ?n ?s (zs, h2)" by (rule same_slots_trans [OF up(3) sw(3)])
  have len: "length zs = length (seqNoInFlight this)" using ss by (simp add: same_slots_def)
  have "take ?n zs = take (?n - 1) zs @ [zs ! (?n - 1)]"
    using n0 len nl take_Suc_conv_app_nth [of "?n - 1" zs] by simp
  then have "mset (inflight this) = add_mset (zs ! (?n - 1)) (mset (take (?n - 1) zs))"
    using ss by (simp add: same_slots_def inflight_def)
  then have m: "mset (inflight this) = add_mset (seqNoInFlight this ! slot) (mset (take (?n - 1) xs))"
    using dn(3) sw(4) up(4) by (simp add: same_slots_def)
  have "h3 h = hm h" if "h \<notin> pSelf ` set (inflight this)" for h
  proof -
    have "set (take (?n - 1) zs) \<subseteq> set (take ?n zs)" by (rule set_take_subset_set_take) simp
    also have "\<dots> = set (inflight this)"
      using ss unfolding same_slots_def inflight_def by (metis fst_conv set_mset_mset)
    finally have "h \<notin> pSelf ` set (take (?n - 1) zs)" using that by blast
    then have "h3 h = h2 h" using dn(3) by (simp add: same_slots_def)
    also have "\<dots> = hm h" using ss that by (simp add: same_slots_def inflight_def)
    finally show ?thesis .
  qed
  then show thesis
    using that [of xs h3] up(1) sw(1) dn n1 m len
    by (simp add: removeInFlight_def same_slots_def)
qed

lemma linked_slot:
  assumes "group_ok this hm" and "s \<in> set (inflight this)"
  obtains i where "i < unat (inFlightSize this)" and "seqNoInFlight this ! i = s" and "hm (pSelf s) = Some i"
proof -
  obtain i where i: "i < length (inflight this)" "inflight this ! i = s"
    using assms(2) by (auto simp: in_set_conv_nth)
  then have "i < unat (inFlightSize this)" and "seqNoInFlight this ! i = s"
    using length_inflight [OF assms(1)] by (simp_all add: inflight_def)
  then show thesis
    using that group_okD(8) [OF assms(1)] by (auto simp: linked_def)
qed

lemma release_spec:
  assumes ok: "group_ok this hm" and s: "s \<in> set (inflight this)"
  shows "\<exists>this' hm'. MirrorBuddyGroup_releaseSequenceNumber this (pSelf s) hm = Some (this', hm') \<and>
    group_ok this' hm' \<and> mset (inflight this) = add_mset s (mset (inflight this')) \<and>
    finished this' = finished this @ [seqValue s] \<and> sequence this' = sequence this \<and>
    capacity this' = capacity this \<and>
    (\<forall>h. h \<notin> pSelf ` set (inflight this) \<longrightarrow> hm' h = hm h)"
proof -
  note d = group_okD [OF ok]
  obtain i where i: "i < unat (inFlightSize this)" "seqNoInFlight this ! i = s" "hm (pSelf s) = Some i"
    by (rule linked_slot [OF ok s])
  have pos: "0 < inFlightSize this" using i(1) by (simp add: word_less_nat_alt)
  obtain t1 where p: "pushFinished (seqValue s) this = Some t1"
      "finished t1 = finished this @ [seqValue s]"
      "unat (finishedCount t1) = unat (finishedCount this) + 1"
      "firstFinishedIndex t1 = firstFinishedIndex this"
      "length (finishedSeqNums t1) = length (finishedSeqNums this)"
      "t1 = this\<lparr>finishedSeqNums := finishedSeqNums t1, finishedCount := finishedCount t1\<rparr>"
    using pushFinished_ok [OF ok pos] by metis
  have same: "seqNoInFlight t1 = seqNoInFlight this" "inFlightSize t1 = inFlightSize this"
      "slotsAvail t1 = slotsAvail this" "capacity t1 = capacity this" "sequence t1 = sequence this"
      "inflight t1 = inflight this"
    by (subst p(6), simp add: capacity_def inflight_def)+
  have l1: "linked (unat (inFlightSize t1)) (seqNoInFlight t1, hm)" "i < unat (inFlightSize t1)"
    using d(8) i(1) same by simp_all
  obtain xs hm' where r: "removeInFlight i t1 hm =
        Some (t1\<lparr>seqNoInFlight := xs, inFlightSize := inFlightSize this - 1\<rparr>, hm')"
      "unat (inFlightSize this - 1) = unat (inFlightSize this) - 1"
      "length xs = length (seqNoInFlight this)" "linked (unat (inFlightSize this) - 1) (xs, hm')"
      "mset (inflight this) = add_mset (seqNoInFlight this ! i) (mset (take (unat (inFlightSize this) - 1) xs))"
      "\<forall>h. h \<notin> pSelf ` set (inflight this) \<longrightarrow> hm' h = hm h"
    using removeInFlight_ok [OF l1] unfolding same by metis
  let ?r = "MirrorBuddyGroup_put (t1\<lparr>seqNoInFlight := xs, inFlightSize := inFlightSize this - 1,
    slotsAvail := slotsAvail this + 1\<rparr>)"
  have "MirrorBuddyGroup_releaseSequenceNumber this (pSelf s) hm = Some (?r, hm')"
    using i p(1) r(1) d(3,6) same by (simp add: MirrorBuddyGroup_releaseSequenceNumber_def)
  moreover have "group_ok ?r hm'"
    using d p(3,4,5) r(2,3,4) same i(1)
    by (simp add: group_ok_def MirrorBuddyGroup_put_def capacity_def)
  moreover have "mset (inflight this) = add_mset s (mset (inflight ?r))"
    using r(2,5) i(2) by (simp add: inflight_def MirrorBuddyGroup_put_def)
  moreover have "finished ?r = finished this @ [seqValue s]"
    using p(2) by (simp add: finished_def MirrorBuddyGroup_put_def)
  ultimately show ?thesis
    using r(6) same by (intro exI [of _ ?r] exI [of _ hm']) (simp add: MirrorBuddyGroup_put_def capacity_def)
qed

subsection \<open>Acquiring\<close>

definition ack_spec :: "MirrorBuddyGroup \<Rightarrow> MirrorBuddyGroup \<Rightarrow> acquired \<Rightarrow> bool" where
  "ack_spec this this' out \<longleftrightarrow>
     (case finished this of
        v # vs \<Rightarrow> aq_isSelective out \<and> aq_acknowledgeSeq out = v \<and> finished this' = vs
      | [] \<Rightarrow> \<not> aq_isSelective out \<and> finished this' = [] \<and>
          aq_acknowledgeSeq out = seqValue (hd (inflight this')) - 1)"

lemma linked_push:
  assumes "linked n (xs, hm)" and "n < length xs" and "h \<notin> pSelf ` set (take n xs)"
  shows "linked (Suc n) (xs[n := \<lparr>pSelf = h, seqValue = v\<rparr>], hm(h \<mapsto> n))"
proof -
  have "pSelf (xs ! i) \<noteq> h" if "i < n" for i
  proof -
    have "xs ! i \<in> set (take n xs)"
      using that assms(2) by (metis in_set_conv_nth length_take min.absorb2 nth_take order_less_imp_le)
    with assms(3) show ?thesis by auto
  qed
  then show ?thesis
    using assms(1,2) by (auto simp: linked_def less_Suc_eq)
qed

lemma acquire_spec:
  assumes ok: "group_ok this hm" and free: "slotsAvail this > 0" and base: "sequence this \<noteq> 0"
    and h: "h \<notin> pSelf ` set (inflight this)"
  shows "\<exists>out this' hm'. MirrorBuddyGroup_acquireSequenceNumber w k this h hm =
      Some (Some (Inr out, this', hm')) \<and> group_ok this' hm' \<and>
    aq_seqNo out = sequence this + 1 \<and> sequence this' = sequence this + 1 \<and>
    inflight this' = inflight this @ [\<lparr>pSelf = h, seqValue = sequence this + 1\<rparr>] \<and>
    ack_spec this this' out \<and> capacity this' = capacity this \<and> hm' = hm(h \<mapsto> length (inflight this))"
proof -
  note d = group_okD [OF ok]
  let ?n = "unat (inFlightSize this)" and ?q = "sequence this + 1"
  let ?t = "this\<lparr>slotsAvail := slotsAvail this - 1, refs := refs this + 1, sequence := ?q,
    seqNoInFlight := (seqNoInFlight this)[?n := \<lparr>pSelf = h, seqValue = ?q\<rparr>],
    inFlightSize := inFlightSize this + 1\<rparr>"
  have nC: "?n < capacity this" using d(5) free by simp
  have n1: "unat (inFlightSize this + 1) = Suc ?n"
    using nC d(2) by (subst unat_plus_le) simp_all
  have push: "pushInFlight (this\<lparr>slotsAvail := slotsAvail this - 1, refs := refs this + 1, sequence := ?q\<rparr>)
      h ?q hm = Some (?t, hm(h \<mapsto> ?n))"
    using nC d(3) by (simp add: pushInFlight_def Let_def)
  have inf: "inflight ?t = inflight this @ [\<lparr>pSelf = h, seqValue = ?q\<rparr>]"
    using nC d(3) n1 by (simp add: inflight_def take_Suc_conv_app_nth)
  have fin: "finished ?t = finished this" by (simp add: finished_def)
  let ?cnt = "unat (finishedCount this)"
  have linked: "linked (Suc ?n) (seqNoInFlight ?t, hm(h \<mapsto> ?n))"
    using linked_push [OF d(8), of h ?q] nC d(3) h by (simp add: inflight_def)
  show ?thesis
  proof (cases "finishedCount this > 0")
    case True
    let ?r = "?t\<lparr>firstFinishedIndex := (firstFinishedIndex this + 1) mod inFlightCapacity this,
      finishedCount := finishedCount this - 1\<rparr>"
    have n: "0 < ?cnt" using True by (simp add: word_less_nat_alt)
    then have c1: "unat (finishedCount this - 1) = ?cnt - 1" by (intro unat_minus_one) auto
    have "unat (firstFinishedIndex this + 1) = unat (firstFinishedIndex this) + 1"
      using d(2,7) by (subst unat_plus_le) simp_all
    then have idx: "unat ((firstFinishedIndex this + 1) mod inFlightCapacity this) =
        (unat (firstFinishedIndex this) + 1) mod capacity this"
      by (simp add: unat_mod capacity_def)
    have fin': "finished this = finishedSeqNums this ! unat (firstFinishedIndex this) # finished ?r"
      using ring_pop [OF n, of "finishedSeqNums this" "unat (firstFinishedIndex this)"] d(4,7) idx c1
      by (simp add: finished_def)
    have "group_ok ?r (hm(h \<mapsto> ?n))"
      using d nC n1 idx c1 n linked free by (simp add: group_ok_def capacity_def)
    moreover have "inflight ?r = inflight ?t" by (simp add: inflight_def)
    ultimately show ?thesis
      using free base push inf fin' True d(4,7) length_inflight [OF ok]
      by (simp add: MirrorBuddyGroup_acquireSequenceNumber_def takeSlot_def acquireLocked_def
          nextAck_def ack_spec_def Let_def capacity_def)
  next
    case False
    then have c0: "?cnt = 0" by (simp add: word_less_nat_alt)
    have "finished this = []" using c0 by (simp add: finished_def ring_def)
    moreover obtain s xs where xs: "seqNoInFlight ?t = s # xs"
      using d(1,3) by (cases "seqNoInFlight ?t") auto
    moreover have "hd (inflight ?t) = s" using xs n1 by (simp add: inflight_def)
    moreover have "group_ok ?t (hm(h \<mapsto> ?n))"
      using d nC n1 c0 linked free by (simp add: group_ok_def capacity_def)
    moreover have "nextAck ?t = Some ((seqValue s - 1, False), ?t)"
      using False xs by (simp add: nextAck_def)
    ultimately show ?thesis
      using free base push inf fin length_inflight [OF ok]
      by (simp add: MirrorBuddyGroup_acquireSequenceNumber_def takeSlot_def acquireLocked_def
          ack_spec_def capacity_def Let_def)
  qed
qed

section \<open>Runs of a group\<close>

text \<open>
  The steps of a group and of the handle variables around it: a caller acquires with a variable that
  is not the handle of a number in flight, releases a number in flight, or changes variables of its
  own that are not such handles; a reply may raise the sequence base.
\<close>

definition handles :: "MirrorBuddyGroup \<Rightarrow> u64 set" where
  "handles this = pSelf ` set (inflight this)"

inductive gstep :: "MirrorBuddyGroup \<times> hmem \<Rightarrow> MirrorBuddyGroup \<times> hmem \<Rightarrow> bool" where
  acquire: "h \<notin> handles this \<Longrightarrow>
    MirrorBuddyGroup_acquireSequenceNumber w k this h hm = Some (Some (r, this', hm')) \<Longrightarrow>
    gstep (this, hm) (this', hm')"
| release: "h \<in> handles this \<Longrightarrow>
    MirrorBuddyGroup_releaseSequenceNumber this h hm = Some (this', hm') \<Longrightarrow>
    gstep (this, hm) (this', hm')"
| base: "gstep (this, hm) (MirrorBuddyGroup_setSeqNoBase this b, hm)"
| caller: "(\<forall>h \<in> handles this. hm' h = hm h) \<Longrightarrow> gstep (this, hm) (this, hm')"

lemma linked_hm:
  assumes "linked n (xs, hm)" and "\<forall>h \<in> pSelf ` set (take n xs). hm' h = hm h"
  shows "linked n (xs, hm')"
proof -
  have "xs ! i \<in> set (take n xs)" if "i < n" for i
    using that assms(1) by (auto simp: linked_def in_set_conv_nth)
  then show ?thesis using assms by (auto simp: linked_def)
qed

lemma group_ok_hm:
  "group_ok this hm \<Longrightarrow> \<forall>h \<in> handles this. hm' h = hm h \<Longrightarrow> group_ok this hm'"
  using linked_hm by (auto simp: group_ok_def handles_def inflight_def)

text \<open>The refusals change nothing but the caller's own handle variable.\<close>

lemma acquire_refused:
  assumes "slotsAvail this = 0"
  shows "MirrorBuddyGroup_acquireSequenceNumber False k this h hm = Some (Some (Inl EAGAIN, this, hm))"
    and "MirrorBuddyGroup_acquireSequenceNumber True True this h hm = Some (Some (Inl EINTR, this, hm))"
    and "MirrorBuddyGroup_acquireSequenceNumber True False this h hm = Some None"
  using assms by (simp_all add: MirrorBuddyGroup_acquireSequenceNumber_def takeSlot_def)

lemma acquire_nobase:
  assumes "slotsAvail this > 0" and "sequence this = 0"
  shows "MirrorBuddyGroup_acquireSequenceNumber w k this h hm =
    Some (Some (Inl ENOENT, this, hm(h := None)))"
  using assms
  by (simp add: MirrorBuddyGroup_acquireSequenceNumber_def takeSlot_def acquireLocked_def
      MirrorBuddyGroup_put_def)

lemma acquire_step:
  assumes ok: "group_ok this hm" and h: "h \<notin> handles this"
    and a: "MirrorBuddyGroup_acquireSequenceNumber w k this h hm = Some (Some (r, this', hm'))"
  shows "group_ok this' hm' \<and> capacity this' = capacity this"
proof -
  consider "slotsAvail this = 0" | "slotsAvail this > 0" "sequence this = 0"
    | "slotsAvail this > 0" "sequence this \<noteq> 0" by blast
  then show ?thesis
  proof cases
    case 1
    then show ?thesis
      using a ok by (auto simp: MirrorBuddyGroup_acquireSequenceNumber_def takeSlot_def split: if_splits)
  next
    case 2
    then have "this' = this" "hm' = hm(h := None)" using a acquire_nobase [OF 2] by auto
    then show ?thesis using ok h group_ok_hm [OF ok, of hm'] by auto
  next
    case 3
    then show ?thesis
      using acquire_spec [OF ok 3 h [unfolded handles_def], of w k] a by auto
  qed
qed

lemma gstep_ok:
  assumes ok: "group_ok this hm" and "gstep (this, hm) (this', hm')"
  shows "group_ok this' hm' \<and> capacity this' = capacity this"
  using assms(2)
proof cases
  case (acquire h w k r)
  then show ?thesis using acquire_step [OF ok] by blast
next
  case (release h)
  then obtain s where "s \<in> set (inflight this)" "pSelf s = h" by (auto simp: handles_def)
  then show ?thesis using release_spec [OF ok] release by fastforce
next
  case (base b)
  then show ?thesis
    using ok by (simp add: MirrorBuddyGroup_setSeqNoBase_def group_ok_def capacity_def)
next
  case caller
  then show ?thesis using group_ok_hm [OF ok] by simp
qed

lemma gsteps_ok:
  "gstep\<^sup>*\<^sup>* st st' \<Longrightarrow> group_ok (fst st) (snd st) \<Longrightarrow>
   group_ok (fst st') (snd st') \<and> capacity (fst st') = capacity (fst st)"
proof (induction rule: rtranclp_induct)
  case (step y z)
  then show ?case using gstep_ok [of "fst y" "snd y" "fst z" "snd z"] by simp
qed simp

section \<open>The abstract tracker\<close>

text \<open>
  What the group promises without its heap and ring: a bag of numbers in flight, a queue of finished
  numbers to report, the last number handed out and the number of free slots.
\<close>

record Tracker =
  t_sequence :: u64
  t_free :: nat
  t_inflight :: "BuddySequenceNumber multiset"
  t_finished :: "u64 list"

definition absGroup :: "MirrorBuddyGroup \<Rightarrow> Tracker" where
  "absGroup this = \<lparr>t_sequence = sequence this, t_free = slotsAvail this,
     t_inflight = mset (inflight this), t_finished = finished this\<rparr>"

inductive tstep :: "Tracker \<Rightarrow> Tracker \<Rightarrow> bool" where
  t_acquire: "t_free t > 0 \<Longrightarrow> t_sequence t \<noteq> 0 \<Longrightarrow> h \<notin> pSelf ` set_mset (t_inflight t) \<Longrightarrow>
    tstep t (t\<lparr>t_sequence := t_sequence t + 1, t_free := t_free t - 1,
      t_inflight := add_mset \<lparr>pSelf = h, seqValue = t_sequence t + 1\<rparr> (t_inflight t),
      t_finished := tl (t_finished t)\<rparr>)"
| t_release: "s \<in># t_inflight t \<Longrightarrow>
    tstep t (t\<lparr>t_free := t_free t + 1, t_inflight := t_inflight t - {#s#},
      t_finished := t_finished t @ [seqValue s]\<rparr>)"
| t_base: "tstep t (t\<lparr>t_sequence := max (t_sequence t) b\<rparr>)"
| t_stutter: "tstep t t"

lemma slots_inflight: "group_ok this hm \<Longrightarrow> slotsAvail this + length (inflight this) = capacity this"
  by (simp add: length_inflight group_okD(5))

lemma acquire_sim:
  assumes ok: "group_ok this hm" and h: "h \<notin> handles this"
    and a: "MirrorBuddyGroup_acquireSequenceNumber w k this h hm = Some (Some (r, this', hm'))"
  shows "tstep (absGroup this) (absGroup this')"
proof -
  consider "slotsAvail this = 0" | "slotsAvail this > 0" "sequence this = 0"
    | "slotsAvail this > 0" "sequence this \<noteq> 0" by blast
  then show ?thesis
  proof cases
    case 1
    then show ?thesis
      using a by (auto simp: MirrorBuddyGroup_acquireSequenceNumber_def takeSlot_def t_stutter
          split: if_splits)
  next
    case 2
    then show ?thesis using a acquire_nobase [OF 2] by (auto simp: t_stutter)
  next
    case 3
    obtain out where sp: "group_ok this' hm'" "sequence this' = sequence this + 1"
        "inflight this' = inflight this @ [\<lparr>pSelf = h, seqValue = sequence this + 1\<rparr>]"
        "ack_spec this this' out" "capacity this' = capacity this"
      using acquire_spec [OF ok 3 h [unfolded handles_def], of w k] a by auto
    have "slotsAvail this' = slotsAvail this - 1"
      using slots_inflight [OF ok] slots_inflight [OF sp(1)] sp(3,5) by simp
    moreover have "finished this' = tl (finished this)"
      using sp(4) by (auto simp: ack_spec_def split: list.splits)
    ultimately show ?thesis
      using t_acquire [of "absGroup this" h] 3 h sp by (simp add: absGroup_def handles_def)
  qed
qed

lemma gstep_sim:
  assumes ok: "group_ok this hm" and "gstep (this, hm) (this', hm')"
  shows "tstep (absGroup this) (absGroup this')"
  using assms(2)
proof cases
  case (acquire h w k r)
  then show ?thesis using acquire_sim [OF ok] by blast
next
  case (release h)
  then obtain s where s: "s \<in> set (inflight this)" "pSelf s = h" by (auto simp: handles_def)
  have r: "group_ok this' hm'" "mset (inflight this) = add_mset s (mset (inflight this'))"
      "finished this' = finished this @ [seqValue s]" "sequence this' = sequence this"
      "capacity this' = capacity this"
    using release_spec [OF ok s(1)] release s(2) by auto
  have "length (inflight this) = Suc (length (inflight this'))"
    using arg_cong [OF r(2), of size] by simp
  then have "slotsAvail this' = slotsAvail this + 1"
    using slots_inflight [OF ok] slots_inflight [OF r(1)] r(5) by simp
  then show ?thesis
    using t_release [of s "absGroup this"] s r by (simp add: absGroup_def)
next
  case (base b)
  then show ?thesis
    using t_base [of "absGroup this" b]
    by (simp add: absGroup_def MirrorBuddyGroup_setSeqNoBase_def inflight_def finished_def max_def
        split: if_splits)
next
  case caller
  then show ?thesis by (simp add: t_stutter)
qed

section \<open>Uniqueness of sequence numbers\<close>







section \<open>Properties\<close>

text \<open>C1: Along every run of a newly constructed group, the free slots and the numbers in flight add up
  to the capacity, numbers in flight and unreported finished numbers together never exceed it (so the
  ring buffer never has to drop one), every handle points to the slot of its number, and neither
  acquiring with a fresh handle nor releasing a number in flight ever leaves an array.\<close>

theorem buddyGroup_reachable:
  assumes "MirrorBuddyGroup_constructFromTargetIDs memA memB gid n a b = Some this0"
    and "\<forall>xs. memA (unat n) = Some xs \<longrightarrow> length xs = unat n"
    and "\<forall>xs. memB (unat n) = Some xs \<longrightarrow> length xs = unat n"
    and "gstep\<^sup>*\<^sup>* (this0, hm0) (this, hm)"
  shows "slotsAvail this + length (inflight this) = unat n
    \<and> length (inflight this) + length (finished this) \<le> unat n
    \<and> (\<forall>s \<in> set (inflight this). hm (pSelf s) \<noteq> None \<and> inflight this ! the (hm (pSelf s)) = s)
    \<and> (\<forall>h w k. h \<notin> handles this \<longrightarrow> MirrorBuddyGroup_acquireSequenceNumber w k this h hm \<noteq> None)
    \<and> (\<forall>h \<in> handles this. MirrorBuddyGroup_releaseSequenceNumber this h hm \<noteq> None)"
proof -
  have c0: "group_ok this0 hm0" by (rule construct_ok [OF assms(1)]) (use assms(2,3) in auto)
  have ok: "group_ok this hm" and cap: "capacity this = capacity this0"
    using gsteps_ok [OF assms(4)] c0 by simp_all
  have cn: "capacity this0 = unat n"
    using assms(1)
    by (auto simp: MirrorBuddyGroup_constructFromTargetIDs_def capacity_def unat_ucast_up
        bind_eq_Some_conv split: if_splits)
  note d = group_okD [OF ok]
  have "slotsAvail this + length (inflight this) = unat n"
    and "length (inflight this) + length (finished this) \<le> unat n"
    using d(5,6) cap cn by (simp_all add: length_inflight [OF ok] finished_def ring_def)
  moreover have "hm (pSelf s) \<noteq> None \<and> inflight this ! the (hm (pSelf s)) = s"
    if "s \<in> set (inflight this)" for s
    using linked_slot [OF ok that] by (metis inflight_def nth_take option.discI option.sel)
  moreover have "MirrorBuddyGroup_acquireSequenceNumber w k this h hm \<noteq> None"
    if "h \<notin> handles this" for h w k
  proof (cases "slotsAvail this = 0")
    case True
    then show ?thesis
      by (simp add: MirrorBuddyGroup_acquireSequenceNumber_def takeSlot_def)
  next
    case False
    then show ?thesis
      using acquire_nobase [of this w k h hm] acquire_spec [OF ok _ _ that [unfolded handles_def], of w k]
      by (cases "sequence this = 0") auto
  qed
  moreover have "MirrorBuddyGroup_releaseSequenceNumber this h hm \<noteq> None" if "h \<in> handles this" for h
    using release_spec [OF ok] that by (fastforce simp: handles_def)
  ultimately show ?thesis by blast
qed

definition demoSlots :: "nat \<Rightarrow> BuddySequenceNumber list option" where
  "demoSlots n = Some (replicate n \<lparr>pSelf = 0, seqValue = 0\<rparr>)"

definition demoNums :: "nat \<Rightarrow> u64 list option" where
  "demoNums n = Some (replicate n 0)"

theorem buddyGroup_reachable_witness:
  "\<exists>this0. MirrorBuddyGroup_constructFromTargetIDs demoSlots demoNums 1 8 2 3 = Some this0
     \<and> gstep\<^sup>*\<^sup>* (this0, \<lambda>_. None) (MirrorBuddyGroup_setSeqNoBase this0 5, \<lambda>_. None)
     \<and> slotsAvail (MirrorBuddyGroup_setSeqNoBase this0 5) +
         length (inflight (MirrorBuddyGroup_setSeqNoBase this0 5)) = 8"
proof -
  obtain this0 where c: "MirrorBuddyGroup_constructFromTargetIDs demoSlots demoNums 1 8 2 3 = Some this0"
    by (simp add: MirrorBuddyGroup_constructFromTargetIDs_def demoSlots_def demoNums_def)
  have s: "gstep\<^sup>*\<^sup>* (this0, \<lambda>_. None) (MirrorBuddyGroup_setSeqNoBase this0 5, \<lambda>_. None)"
    by (rule r_into_rtranclp) (rule gstep.base)
  show ?thesis
    using c s conjunct1 [OF buddyGroup_reachable [OF c _ _ s]] by (simp add: demoSlots_def demoNums_def)
qed

text \<open>C11: Releasing a handle removes exactly its number from the numbers in flight, whatever its slot,
  and appends it to the finished numbers; no other handle variable outside the heap is touched.\<close>

theorem release_removes_number:
  assumes "group_ok this hm" and "s \<in> set (inflight this)"
  shows "\<exists>this' hm'. MirrorBuddyGroup_releaseSequenceNumber this (pSelf s) hm = Some (this', hm')
    \<and> group_ok this' hm' \<and> mset (inflight this') = mset (inflight this) - {#s#}
    \<and> finished this' = finished this @ [seqValue s]
    \<and> (\<forall>h. h \<notin> handles this \<longrightarrow> hm' h = hm h)"
  using release_spec [OF assms] by (fastforce simp: handles_def)

definition demoGroup :: MirrorBuddyGroup where
  "demoGroup = \<lparr>groupID = 1, firstTargetID = 2, secondTargetID = 3, sequence = 6, slotsAvail = 2,
     seqNoInFlight = [\<lparr>pSelf = 10, seqValue = 5\<rparr>, \<lparr>pSelf = 11, seqValue = 6\<rparr>,
       \<lparr>pSelf = 0, seqValue = 0\<rparr>, \<lparr>pSelf = 0, seqValue = 0\<rparr>], inFlightSize = 2,
     inFlightCapacity = 4, finishedSeqNums = [4, 0, 0, 0], firstFinishedIndex = 0, finishedCount = 1,
     refs = 3\<rparr>"

definition demoHandles :: hmem where
  "demoHandles = [10 \<mapsto> 0, 11 \<mapsto> 1]"

lemma demo_ok:
  "group_ok demoGroup demoHandles" "finished demoGroup = [4]"
  "inflight demoGroup = [\<lparr>pSelf = 10, seqValue = 5\<rparr>, \<lparr>pSelf = 11, seqValue = 6\<rparr>]"
proof -
  show "group_ok demoGroup demoHandles"
    by (auto simp: group_ok_def capacity_def linked_def demoGroup_def demoHandles_def dest!: less_2_cases)
  show "finished demoGroup = [4]" by (simp add: finished_def ring_def demoGroup_def)
  show "inflight demoGroup = [\<lparr>pSelf = 10, seqValue = 5\<rparr>, \<lparr>pSelf = 11, seqValue = 6\<rparr>]"
    by (simp add: inflight_def demoGroup_def)
qed

theorem release_removes_number_witness:
  "\<exists>this' hm'. MirrorBuddyGroup_releaseSequenceNumber demoGroup 11 demoHandles = Some (this', hm')
     \<and> finished this' = [4, 6]"
  using release_removes_number [OF demo_ok(1), of "\<lparr>pSelf = 11, seqValue = 6\<rparr>"]
  by (auto simp: demo_ok)

text \<open>C14: With a free slot and a base, acquiring hands out the next number, records it with the caller's
  handle, and reports the oldest finished number that was not reported yet; without one it reports,
  non-selectively, the number before the root of the heap.\<close>

theorem acquire_behaviour:
  assumes "group_ok this hm" and "slotsAvail this > 0" and "sequence this \<noteq> 0" and "h \<notin> handles this"
  shows "\<exists>out this' hm'. MirrorBuddyGroup_acquireSequenceNumber w k this h hm =
        Some (Some (Inr out, this', hm'))
    \<and> group_ok this' hm' \<and> aq_seqNo out = sequence this + 1
    \<and> inflight this' = inflight this @ [\<lparr>pSelf = h, seqValue = sequence this + 1\<rparr>]
    \<and> (case finished this of
         v # vs \<Rightarrow> aq_isSelective out \<and> aq_acknowledgeSeq out = v \<and> finished this' = vs
       | [] \<Rightarrow> \<not> aq_isSelective out \<and> finished this' = [] \<and>
           aq_acknowledgeSeq out = seqValue (hd (inflight this')) - 1)"
  using acquire_spec [OF assms(1-3) assms(4) [unfolded handles_def]] unfolding ack_spec_def by blast

theorem acquire_behaviour_witness:
  "\<exists>out this' hm'. MirrorBuddyGroup_acquireSequenceNumber False False demoGroup 9 demoHandles =
        Some (Some (Inr out, this', hm')) \<and> aq_seqNo out = 7 \<and> aq_acknowledgeSeq out = 4"
proof -
  have "slotsAvail demoGroup > 0" "sequence demoGroup \<noteq> 0" "sequence demoGroup = 6"
    by (simp_all add: demoGroup_def)
  moreover have "9 \<notin> handles demoGroup" by (simp add: handles_def demo_ok)
  ultimately show ?thesis
    using acquire_behaviour [OF demo_ok(1), of 9 False False] by (auto simp: demo_ok)
qed

text \<open>C3: A group with its heap of slots and its ring of finished numbers refines the abstract tracker:
  every run of the code is a run on a bag of numbers in flight and a queue of finished numbers, with the
  same free slots and the same last number.\<close>

theorem buddyGroup_refines_tracker:
  assumes "group_ok this0 hm0" and "gstep\<^sup>*\<^sup>* (this0, hm0) (this, hm)"
  shows "tstep\<^sup>*\<^sup>* (absGroup this0) (absGroup this)"
proof -
  have "tstep\<^sup>*\<^sup>* (absGroup (fst st)) (absGroup (fst st')) \<and> group_ok (fst st') (snd st')"
    if "gstep\<^sup>*\<^sup>* st st'" and "group_ok (fst st) (snd st)" for st st'
    using that
  proof (induction rule: rtranclp_induct)
    case (step y z)
    then show ?case
      using gstep_sim [of "fst y" "snd y" "fst z" "snd z"] gstep_ok [of "fst y" "snd y" "fst z" "snd z"]
      by (auto intro: rtranclp.rtrancl_into_rtrancl)
  qed simp
  from this [OF assms(2)] assms(1) show ?thesis by simp
qed

theorem buddyGroup_refines_tracker_witness:
  "\<exists>this hm. gstep (demoGroup, demoHandles) (this, hm) \<and> finished this = [4, 6] \<and>
     tstep\<^sup>*\<^sup>* (absGroup demoGroup) (absGroup this)"
proof -
  obtain this hm where
    r: "MirrorBuddyGroup_releaseSequenceNumber demoGroup 11 demoHandles = Some (this, hm)"
      "finished this = [4, 6]"
    using release_spec [OF demo_ok(1), of "\<lparr>pSelf = 11, seqValue = 6\<rparr>"] by (auto simp: demo_ok)
  have "11 \<in> handles demoGroup" by (simp add: handles_def demo_ok)
  then have g: "gstep (demoGroup, demoHandles) (this, hm)" by (rule gstep.release) (rule r)
  with r(2) buddyGroup_refines_tracker [OF demo_ok(1) r_into_rtranclp [of gstep, OF g]] show ?thesis by blast
qed



section \<open>The order of the heap\<close>

text \<open>
  A run as a list of operations. \<^const>\<open>None\<close> when an operation is used outside its contract, sleeps or
  leaves an array. The list that comes back has the results of the acquisitions.
\<close>

datatype gop = Acquire u64 | Release u64 | SetBase u64

fun runOps :: "gop list \<Rightarrow> MirrorBuddyGroup \<Rightarrow> hmem \<Rightarrow>
    ((acquireError + acquired) list \<times> MirrorBuddyGroup \<times> hmem) option" where
  "runOps [] this hm = Some ([], this, hm)"
| "runOps (Acquire h # ops) this hm =
     (if list_ex (\<lambda>s. pSelf s = h) (inflight this) then None
      else case MirrorBuddyGroup_acquireSequenceNumber False False this h hm of
        Some (Some (r, this, hm)) \<Rightarrow> map_option (\<lambda>(rs, st). (r # rs, st)) (runOps ops this hm)
      | _ \<Rightarrow> None)"
| "runOps (Release h # ops) this hm =
     (if list_ex (\<lambda>s. pSelf s = h) (inflight this)
      then case MirrorBuddyGroup_releaseSequenceNumber this h hm of
        Some (this, hm) \<Rightarrow> runOps ops this hm
      | None \<Rightarrow> None
      else None)"
| "runOps (SetBase b # ops) this hm = runOps ops (MirrorBuddyGroup_setSeqNoBase this b) hm"

lemma in_handles: "list_ex (\<lambda>s. pSelf s = h) (inflight this) \<longleftrightarrow> h \<in> handles this"
  by (auto simp: handles_def list_ex_iff)

lemma runOps_gstep: "runOps ops this hm = Some (rs, this', hm') \<Longrightarrow> gstep\<^sup>*\<^sup>* (this, hm) (this', hm')"
proof (induction ops this hm arbitrary: rs rule: runOps.induct)
  case (2 h ops this hm)
  from 2(2) obtain r t m rs' where
    s: "h \<notin> handles this" "MirrorBuddyGroup_acquireSequenceNumber False False this h hm = Some (Some (r, t, m))"
      "runOps ops t m = Some (rs', this', hm')" and n: "\<not> list_ex (\<lambda>s. pSelf s = h) (inflight this)"
    by (auto simp: in_handles split: if_splits option.splits)
  have "gstep (this, hm) (t, m)" using s(1,2) by (rule gstep.acquire)
  moreover have "gstep\<^sup>*\<^sup>* (t, m) (this', hm')" by (rule 2(1) [OF n s(2) refl refl refl s(3)])
  ultimately show ?case by (rule converse_rtranclp_into_rtranclp [of gstep])
next
  case (3 h ops this hm)
  from 3(2) obtain t m where
    s: "h \<in> handles this" "MirrorBuddyGroup_releaseSequenceNumber this h hm = Some (t, m)"
      "runOps ops t m = Some (rs, this', hm')" and n: "list_ex (\<lambda>s. pSelf s = h) (inflight this)"
    by (auto simp: in_handles split: if_splits option.splits)
  have "gstep (this, hm) (t, m)" using s(1,2) by (rule gstep.release)
  moreover have "gstep\<^sup>*\<^sup>* (t, m) (this', hm')" by (rule 3(1) [OF n s(2) refl s(3)])
  ultimately show ?case by (rule converse_rtranclp_into_rtranclp [of gstep])
next
  case (4 b ops this hm)
  then show ?case
    using converse_rtranclp_into_rtranclp [of gstep, OF gstep.base] by fastforce
qed simp

definition staleAckRun :: "gop list" where
  "staleAckRun = SetBase 1 # map Acquire [1, 2, 3, 4, 5, 6, 7] @ [Release 1, Acquire 8, Release 6, Acquire 9,
     Release 2, Acquire 10]"

text \<open>C17: The parent of slot \<open>i\<close> is taken to be \<open>i div 2\<close>, while the children of a slot are at
  \<open>2 * i + 1\<close> and \<open>2 * i + 2\<close>: releases can therefore break the order of the heap. There is a run of a
  newly constructed group of eight slots after which an acquisition acknowledges number 4
  non-selectively, as the number before the root, although number 4 is still in flight.\<close>

theorem stale_acknowledge:
  "\<exists>this0 this hm this' hm' out.
     MirrorBuddyGroup_constructFromTargetIDs demoSlots demoNums 1 8 2 3 = Some this0
   \<and> gstep\<^sup>*\<^sup>* (this0, \<lambda>_. None) (this, hm)
   \<and> MirrorBuddyGroup_acquireSequenceNumber False False this 11 hm = Some (Some (Inr out, this', hm'))
   \<and> \<not> aq_isSelective out \<and> aq_acknowledgeSeq out = 4
   \<and> 4 \<in> seqValue ` set (inflight this')"
proof -
  let ?g = "the (MirrorBuddyGroup_constructFromTargetIDs demoSlots demoNums 1 8 2 3)"
  let ?st = "snd (the (runOps staleAckRun ?g (\<lambda>_. None)))"
  let ?acq = "the (the (MirrorBuddyGroup_acquireSequenceNumber False False (fst ?st) 11 (snd ?st)))"
  have c: "MirrorBuddyGroup_constructFromTargetIDs demoSlots demoNums 1 8 2 3 = Some ?g"
    by (simp add: MirrorBuddyGroup_constructFromTargetIDs_def demoSlots_def demoNums_def)
  have "runOps staleAckRun ?g (\<lambda>_. None) \<noteq> None" by code_simp
  then have run: "gstep\<^sup>*\<^sup>* (?g, \<lambda>_. None) (fst ?st, snd ?st)"
    by (auto dest: runOps_gstep)
  have "case MirrorBuddyGroup_acquireSequenceNumber False False (fst ?st) 11 (snd ?st) of
      Some (Some (Inr out, this', hm')) \<Rightarrow> \<not> aq_isSelective out \<and> aq_acknowledgeSeq out = 4
        \<and> list_ex (\<lambda>s. seqValue s = 4) (inflight this') | _ \<Rightarrow> False"
    by code_simp
  then obtain out this' hm' where
    a: "MirrorBuddyGroup_acquireSequenceNumber False False (fst ?st) 11 (snd ?st) =
        Some (Some (Inr out, this', hm'))"
      "\<not> aq_isSelective out" "aq_acknowledgeSeq out = 4" "list_ex (\<lambda>s. seqValue s = 4) (inflight this')"
    by (auto split: option.split_asm sum.split_asm) (metis sum.exhaust)
  from a(4) have "4 \<in> seqValue ` set (inflight this')" by (force simp: list_ex_iff)
  with c run a(1-3) show ?thesis by (intro exI conjI)
qed

end
