(* ===== verification/StorageErrors.thy ===== *)
theory StorageErrors
  imports Prelude
begin

text \<open>
  \<^verbatim>\<open>common/storage/StorageErrors\<close>: the result codes of file system operations and their translation to
  Linux error numbers and messages. A code that was received from a server may be any C \<^verbatim>\<open>int\<close>, so it
  is an integer here and the enumerators are named constants.
\<close>

type_synonym FhgfsOpsErr = int

abbreviation (input) FhgfsOpsErr_SUCCESS :: FhgfsOpsErr where "FhgfsOpsErr_SUCCESS \<equiv> 0"
abbreviation (input) FhgfsOpsErr_INTERNAL :: FhgfsOpsErr where "FhgfsOpsErr_INTERNAL \<equiv> 1"
abbreviation (input) FhgfsOpsErr_INTERRUPTED :: FhgfsOpsErr where "FhgfsOpsErr_INTERRUPTED \<equiv> 2"
abbreviation (input) FhgfsOpsErr_COMMUNICATION :: FhgfsOpsErr where "FhgfsOpsErr_COMMUNICATION \<equiv> 3"
abbreviation (input) FhgfsOpsErr_COMMTIMEDOUT :: FhgfsOpsErr where "FhgfsOpsErr_COMMTIMEDOUT \<equiv> 4"
abbreviation (input) FhgfsOpsErr_UNKNOWNNODE :: FhgfsOpsErr where "FhgfsOpsErr_UNKNOWNNODE \<equiv> 5"
abbreviation (input) FhgfsOpsErr_EXISTS :: FhgfsOpsErr where "FhgfsOpsErr_EXISTS \<equiv> 7"
abbreviation (input) FhgfsOpsErr_INUSE :: FhgfsOpsErr where "FhgfsOpsErr_INUSE \<equiv> 9"
abbreviation (input) FhgfsOpsErr_UNKNOWNTARGET :: FhgfsOpsErr where "FhgfsOpsErr_UNKNOWNTARGET \<equiv> 15"
abbreviation (input) FhgfsOpsErr_INVAL :: FhgfsOpsErr where "FhgfsOpsErr_INVAL \<equiv> 20"
abbreviation (input) FhgfsOpsErr_AGAIN :: FhgfsOpsErr where "FhgfsOpsErr_AGAIN \<equiv> 22"
abbreviation (input) FhgfsOpsErr_OUTOFMEM :: FhgfsOpsErr where "FhgfsOpsErr_OUTOFMEM \<equiv> 26"

text \<open>The Linux error numbers of the table.\<close>

abbreviation (input) EREMOTEIO :: int where "EREMOTEIO \<equiv> 121"
abbreviation (input) EPERM :: int where "EPERM \<equiv> 1"

definition FHGFSOPS_ERRLIST :: "(string \<times> int) list" where
  "FHGFSOPS_ERRLIST =
    [(''Success'', 0),
     (''Internal error'', EREMOTEIO),
     (''Interrupted system call'', 4),
     (''Communication error'', 70),
     (''Communication timeout'', 110),
     (''Unknown node'', EREMOTEIO),
     (''Node is not owner of entry'', EREMOTEIO),
     (''Entry exists already'', 17),
     (''Path does not exist'', 2),
     (''Entry is in use'', 16),
     (''Dynamic attributes of entry are outdated'', EREMOTEIO),
     (''Removed'', 999),
     (''Entry is not a directory'', 20),
     (''Directory is not empty'', 39),
     (''No space left'', 28),
     (''Unknown storage target'', EREMOTEIO),
     (''Operation would block'', 11),
     (''Inode not inlined'', EREMOTEIO),
     (''Underlying file system error'', EREMOTEIO),
     (''Argument too large'', 27),
     (''Invalid argument'', 22),
     (''Bad memory address'', 14),
     (''Try again'', 11),
     (''Potential cache loss for open file handle. (Server crash detected.)'', EREMOTEIO),
     (''Permission denied'', EPERM),
     (''Quota exceeded'', 122),
     (''Out of memory'', 12),
     (''Numerical result out of range'', 34),
     (''No data available'', 61),
     (''Operation not supported'', 95),
     (''Argument list too long'', 7)]"

text \<open>The conversion of an \<^verbatim>\<open>int\<close> to \<^verbatim>\<open>size_t\<close> wraps modulo \<open>2 ^ 64\<close>.\<close>

definition errIndex :: "FhgfsOpsErr \<Rightarrow> nat" where
  "errIndex errCode = nat (errCode mod 2 ^ 64)"

definition FhgfsOpsErr_toErrString :: "FhgfsOpsErr \<Rightarrow> string" where
  "FhgfsOpsErr_toErrString errCode =
     (if errIndex errCode < length FHGFSOPS_ERRLIST
      then fst (FHGFSOPS_ERRLIST ! errIndex errCode) else ''Unknown error code'')"

definition FhgfsOpsErr_toSysErr :: "FhgfsOpsErr \<Rightarrow> int" where
  "FhgfsOpsErr_toSysErr errCode =
     (if errIndex errCode < length FHGFSOPS_ERRLIST
      then - snd (FHGFSOPS_ERRLIST ! errIndex errCode) else - EPERM)"

lemma errIndex_small: "0 \<le> e \<Longrightarrow> e < 2 ^ 64 \<Longrightarrow> errIndex e = nat e"
  by (simp add: errIndex_def)

lemma errlist_positive: "0 < i \<Longrightarrow> i < length FHGFSOPS_ERRLIST \<Longrightarrow> 0 < snd (FHGFSOPS_ERRLIST ! i)"
proof -
  assume i: "0 < i" "i < length FHGFSOPS_ERRLIST"
  have "list_all (\<lambda>e. 0 < snd e) (tl FHGFSOPS_ERRLIST)" by (simp add: FHGFSOPS_ERRLIST_def)
  then show ?thesis
    using i by (auto simp: list_all_length nth_tl dest: spec [of _ "i - 1"])
qed

text \<open>C38: Whatever code a server sends, its translation is a negative Linux error number unless the
  code is success, and codes outside the list, negative ones included, become a permission error with
  a defined message: the table is never read out of bounds.\<close>

theorem toSysErr_sound:
  assumes "- (2 ^ 31) \<le> e" and "e < 2 ^ 31"
  shows "FhgfsOpsErr_toSysErr e \<le> 0
    \<and> (FhgfsOpsErr_toSysErr e = 0 \<longleftrightarrow> e = FhgfsOpsErr_SUCCESS)
    \<and> (\<not> (0 \<le> e \<and> e < 31) \<longrightarrow> FhgfsOpsErr_toSysErr e = - EPERM \<and>
        FhgfsOpsErr_toErrString e = ''Unknown error code'')"
proof -
  have len: "length FHGFSOPS_ERRLIST = 31" by (simp add: FHGFSOPS_ERRLIST_def)
  have out: "\<not> errIndex e < 31" if "\<not> (0 \<le> e \<and> e < 31)"
  proof (cases "0 \<le> e")
    case True
    then show ?thesis using that assms by (simp add: errIndex_small)
  next
    case False
    then have "e mod 2 ^ 64 = e + 2 ^ 64"
      using assms mod_pos_pos_trivial [of "e + 2 ^ 64" "2 ^ 64"] by simp
    then show ?thesis using assms by (simp add: errIndex_def)
  qed
  show ?thesis
  proof (cases "0 \<le> e \<and> e < 31")
    case True
    then have i: "errIndex e = nat e" "nat e < 31" by (auto simp: errIndex_small)
    show ?thesis
    proof (cases "e = 0")
      case True
      then show ?thesis
        by (simp add: FhgfsOpsErr_toSysErr_def errIndex_def FHGFSOPS_ERRLIST_def)
    next
      case False
      then have "0 < snd (FHGFSOPS_ERRLIST ! nat e)"
        using True i by (intro errlist_positive) (simp_all add: len)
      then show ?thesis using i True False by (simp add: FhgfsOpsErr_toSysErr_def len)
    qed
  next
    case False
    then show ?thesis
      using out by (auto simp: FhgfsOpsErr_toSysErr_def FhgfsOpsErr_toErrString_def len)
  qed
qed

theorem toSysErr_sound_witness:
  "FhgfsOpsErr_toSysErr (- 1) = - 1 \<and> FhgfsOpsErr_toErrString (- 1) = ''Unknown error code''
   \<and> FhgfsOpsErr_toSysErr 14 < 0"
  using toSysErr_sound [of "- 1"] toSysErr_sound [of 14] by simp

end
