(* ===== verification/BuddyGroupMapper.thy ===== *)
theory BuddyGroupMapper
  imports NodeMaps BuddyGroup StorageErrors
begin

text \<open>
  \<^verbatim>\<open>common/nodes/MirrorBuddyGroupMapper\<close>: the buddy groups by id, with their reference counts. A group
  lives at an address of a store and is freed with its last reference; addresses are never used twice,
  so that an access to a freed group is an access to \<^const>\<open>None\<close>. References are held by the mapper's
  tree, by the numbers in flight and by callers that wait for a free slot.

  An operation returns \<^const>\<open>None\<close> when it accesses a freed group, a null pointer or an array outside its
  bounds. Operations run under the mapper's lock and are one step, except that a caller that has to
  wait for a slot goes on without the lock: that part is a step of its own.
\<close>

section \<open>Groups in memory\<close>

type_synonym gaddr = nat

record World =
  w_groups :: "gaddr \<Rightarrow> MirrorBuddyGroup option"
  w_next :: gaddr
  w_handles :: hmem

text \<open>Allocation of a group; \<open>mem\<close> gives the fresh contents of its arrays, if they can be allocated.\<close>

type_synonym groupMem = "gaddr \<Rightarrow> (nat \<Rightarrow> slots option) \<times> (nat \<Rightarrow> u64 list option)"

definition newGroup :: "groupMem \<Rightarrow> u32 \<Rightarrow> u16 \<Rightarrow> u16 \<Rightarrow> u16 \<Rightarrow> World \<Rightarrow> gaddr option \<times> World" where
  "newGroup mem connMaxInternodeNum gid primary secondary w =
     (case MirrorBuddyGroup_constructFromTargetIDs (fst (mem (w_next w))) (snd (mem (w_next w)))
             gid (ucast connMaxInternodeNum) primary secondary of
        None \<Rightarrow> (None, w)
      | Some g \<Rightarrow> (Some (w_next w),
                   w\<lparr>w_groups := (w_groups w)(w_next w \<mapsto> g), w_next := w_next w + 1\<rparr>))"

definition storeGroup :: "gaddr \<Rightarrow> MirrorBuddyGroup \<Rightarrow> World \<Rightarrow> World" where
  "storeGroup a g w = w\<lparr>w_groups := (w_groups w)(a := if refs g = 0 then None else Some g)\<rparr>"

text \<open>\<^verbatim>\<open>kref_get\<close>, and \<^verbatim>\<open>MirrorBuddyGroup_put\<close> with the destructor that \<^verbatim>\<open>kref_put\<close> calls.\<close>

definition getGroup :: "gaddr \<Rightarrow> World \<Rightarrow> World option" where
  "getGroup a w = do {
     g \<leftarrow> w_groups w a;
     Some (storeGroup a (g\<lparr>refs := refs g + 1\<rparr>) w) }"

definition putGroup :: "gaddr \<Rightarrow> World \<Rightarrow> World option" where
  "putGroup a w = do {
     g \<leftarrow> w_groups w a;
     Some (storeGroup a (MirrorBuddyGroup_put g) w) }"

definition acquireAt ::
    "bool \<Rightarrow> bool \<Rightarrow> gaddr \<Rightarrow> u64 \<Rightarrow> World \<Rightarrow> ((acquireError + acquired) \<times> World) option option" where
  "acquireAt allowWait killed a handle w = do {
     g \<leftarrow> w_groups w a;
     r \<leftarrow> MirrorBuddyGroup_acquireSequenceNumber allowWait killed g handle (w_handles w);
     Some (map_option (\<lambda>(r, g, hm). (r, (storeGroup a g w)\<lparr>w_handles := hm\<rparr>)) r) }"

definition releaseAt :: "gaddr \<Rightarrow> u64 \<Rightarrow> World \<Rightarrow> World option" where
  "releaseAt a handle w = do {
     g \<leftarrow> w_groups w a;
     (g, hm) \<leftarrow> MirrorBuddyGroup_releaseSequenceNumber g handle (w_handles w);
     Some ((storeGroup a g w)\<lparr>w_handles := hm\<rparr>) }"

section \<open>The mapper\<close>

record MirrorBuddyGroupMapper =
  mirrorBuddyGroups :: "gaddr tree"

text \<open>The key of a tree node is the \<^verbatim>\<open>groupID\<close> of the group it is embedded in.\<close>

definition gkey :: "World \<Rightarrow> gaddr \<Rightarrow> u16" where
  "gkey w a = (case w_groups w a of Some g \<Rightarrow> groupID g | None \<Rightarrow> 0)"

definition MirrorBuddyGroupMapper_find :: "MirrorBuddyGroupMapper \<Rightarrow> World \<Rightarrow> u16 \<Rightarrow> gaddr option" where
  "MirrorBuddyGroupMapper_find this w =
     rb_find (gkey w) CONGFS_RB_KEYCMP_LT_INTEGRAL (mirrorBuddyGroups this)"

definition MirrorBuddyGroupMapper_init :: MirrorBuddyGroupMapper where
  "MirrorBuddyGroupMapper_init = \<lparr>mirrorBuddyGroups = Leaf\<rparr>"

fun putAll :: "gaddr list \<Rightarrow> World \<Rightarrow> World option" where
  "putAll [] w = Some w"
| "putAll (pos # ps) w = putGroup pos w \<bind> putAll ps"

definition MirrorBuddyGroupMapper_clear ::
    "MirrorBuddyGroupMapper \<Rightarrow> World \<Rightarrow> (MirrorBuddyGroupMapper \<times> World) option" where
  "MirrorBuddyGroupMapper_clear this w = do {
     w \<leftarrow> putAll (postorder (mirrorBuddyGroups this)) w;
     Some (this\<lparr>mirrorBuddyGroups := Leaf\<rparr>, w) }"

definition MirrorBuddyGroupMapper_getPrimaryTargetID :: "MirrorBuddyGroupMapper \<Rightarrow> World \<Rightarrow> u16 \<Rightarrow> u16" where
  "MirrorBuddyGroupMapper_getPrimaryTargetID this w mirrorBuddyGroupID =
     (case MirrorBuddyGroupMapper_find this w mirrorBuddyGroupID \<bind> w_groups w of
        Some buddyGroup \<Rightarrow> firstTargetID buddyGroup
      | None \<Rightarrow> 0)"

definition MirrorBuddyGroupMapper_getSecondaryTargetID :: "MirrorBuddyGroupMapper \<Rightarrow> World \<Rightarrow> u16 \<Rightarrow> u16" where
  "MirrorBuddyGroupMapper_getSecondaryTargetID this w mirrorBuddyGroupID =
     (case MirrorBuddyGroupMapper_find this w mirrorBuddyGroupID \<bind> w_groups w of
        Some buddyGroup \<Rightarrow> secondTargetID buddyGroup
      | None \<Rightarrow> 0)"

text \<open>
  \<^verbatim>\<open>acquireSequenceNumber\<close>. The first part runs under the lock. It returns an error, or the group with a
  number (no number when the group has no base yet, which counts as success), or it takes a reference
  and goes on to wait; the second part is what happens after the lock was released.
\<close>

datatype acquireReply = Returns "acquireError + gaddr \<times> acquired option" | Waits gaddr

definition replyOf :: "gaddr \<Rightarrow> acquireError + acquired \<Rightarrow> acquireError + gaddr \<times> acquired option" where
  "replyOf a r = (case r of
     Inr out \<Rightarrow> Inr (a, Some out)
   | Inl e \<Rightarrow> if e = ENOENT then Inr (a, None) else Inl e)"

definition MirrorBuddyGroupMapper_acquireSequenceNumber ::
    "MirrorBuddyGroupMapper \<Rightarrow> u16 \<Rightarrow> u64 \<Rightarrow> World \<Rightarrow> (acquireReply \<times> World) option" where
  "MirrorBuddyGroupMapper_acquireSequenceNumber this mirrorBuddyGroupID handle w =
     (case MirrorBuddyGroupMapper_find this w mirrorBuddyGroupID of
        None \<Rightarrow> Some (Returns (Inl ENOENT), w)
      | Some a \<Rightarrow>
          (case acquireAt False False a handle w of
             Some (Some (r, w)) \<Rightarrow>
               (case replyOf a r of
                  Inr reply \<Rightarrow> Some (Returns (Inr reply), w)
                | Inl e \<Rightarrow> map_option (Pair (Waits a)) (getGroup a w))
           | _ \<Rightarrow> None))"

definition MirrorBuddyGroupMapper_acquireWait ::
    "bool \<Rightarrow> gaddr \<Rightarrow> u64 \<Rightarrow> World \<Rightarrow> ((acquireError + gaddr \<times> acquired option) \<times> World) option option" where
  "MirrorBuddyGroupMapper_acquireWait killed a handle w =
     (case acquireAt True killed a handle w of
        None \<Rightarrow> None
      | Some None \<Rightarrow> Some None
      | Some (Some (r, w)) \<Rightarrow> map_option (\<lambda>w. Some (replyOf a r, w)) (putGroup a w))"

text \<open>
  \<^verbatim>\<open>syncGroups\<close>: known groups are updated and moved to a list, unknown ones are constructed, the rest of
  the tree is released, and the list becomes the new tree. A group that cannot be constructed is
  appended to the list as a null pointer.
\<close>

fun collectGroups ::
    "groupMem \<Rightarrow> u32 \<Rightarrow> BuddyGroupMapping list \<Rightarrow> MirrorBuddyGroupMapper \<times> gaddr list \<times> World \<Rightarrow>
     (MirrorBuddyGroupMapper \<times> gaddr list \<times> World) option" where
  "collectGroups mem cap [] st = Some st"
| "collectGroups mem cap (mapping # rest) (this, newGroups, w) =
     (case MirrorBuddyGroupMapper_find this w (bg_groupID mapping) of
        Some a \<Rightarrow> do {
          g \<leftarrow> w_groups w a;
          let w = w\<lparr>w_groups := (w_groups w)(a \<mapsto> g\<lparr>firstTargetID := bg_primaryTargetID mapping,
                                                secondTargetID := bg_secondaryTargetID mapping\<rparr>)\<rparr>;
          let this = this\<lparr>mirrorBuddyGroups :=
                rb_erase (gkey w) CONGFS_RB_KEYCMP_LT_INTEGRAL (mirrorBuddyGroups this) (gkey w a)\<rparr>;
          collectGroups mem cap rest (this, newGroups @ [a], w) }
      | None \<Rightarrow>
          (case newGroup mem cap (bg_groupID mapping) (bg_primaryTargetID mapping)
                  (bg_secondaryTargetID mapping) w of
             (None, _) \<Rightarrow> None
           | (Some a, w) \<Rightarrow> collectGroups mem cap rest (this, newGroups @ [a], w)))"

fun insertGroups ::
    "gaddr list \<Rightarrow> MirrorBuddyGroupMapper \<times> World \<Rightarrow> (MirrorBuddyGroupMapper \<times> World) option" where
  "insertGroups [] st = Some st"
| "insertGroups (pos # ps) (this, w) =
     (let (t, replaced) =
        rb_insertOrReplace (gkey w) CONGFS_RB_KEYCMP_LT_INTEGRAL (mirrorBuddyGroups this) pos;
          this = this\<lparr>mirrorBuddyGroups := t\<rparr>
      in case replaced of
           None \<Rightarrow> insertGroups ps (this, w)
         | Some a \<Rightarrow> do { w \<leftarrow> putGroup a w; insertGroups ps (this, w) })"

definition MirrorBuddyGroupMapper_syncGroupsUnlocked ::
    "groupMem \<Rightarrow> u32 \<Rightarrow> BuddyGroupMapping list \<Rightarrow> MirrorBuddyGroupMapper \<Rightarrow> World \<Rightarrow>
     (MirrorBuddyGroupMapper \<times> World) option" where
  "MirrorBuddyGroupMapper_syncGroupsUnlocked mem cap groups this w = do {
     (this, newGroups, w) \<leftarrow> collectGroups mem cap groups (this, [], w);
     (this, w) \<leftarrow> MirrorBuddyGroupMapper_clear this w;
     insertGroups newGroups (this, w) }"

definition MirrorBuddyGroupMapper_getBuddyGroupIDUnlocked ::
    "MirrorBuddyGroupMapper \<Rightarrow> World \<Rightarrow> u16 \<Rightarrow> u16" where
  "MirrorBuddyGroupMapper_getBuddyGroupIDUnlocked this w targetID =
     (case find (\<lambda>a. case w_groups w a of
                       Some g \<Rightarrow> firstTargetID g = targetID \<or> secondTargetID g = targetID
                     | None \<Rightarrow> False) (inorder (mirrorBuddyGroups this)) of
        Some a \<Rightarrow> gkey w a
      | None \<Rightarrow> 0)"

text \<open>\<^verbatim>\<open>addGroup\<close>, whose call of \<^verbatim>\<open>insert\<close> ignores the result.\<close>

definition MirrorBuddyGroupMapper_addGroup ::
    "groupMem \<Rightarrow> u32 \<Rightarrow> TargetMapper option \<Rightarrow> u16 \<Rightarrow> u16 \<Rightarrow> u16 \<Rightarrow> bool \<Rightarrow>
     MirrorBuddyGroupMapper \<Rightarrow> World \<Rightarrow> FhgfsOpsErr \<times> MirrorBuddyGroupMapper \<times> World" where
  "MirrorBuddyGroupMapper_addGroup mem cap targetMapper buddyGroupID primary secondary allowUpdate this w =
     (let inGroup = MirrorBuddyGroupMapper_getBuddyGroupIDUnlocked this w in
      if buddyGroupID = 0 then (FhgfsOpsErr_INVAL, this, w)
      else if \<not> allowUpdate \<and> MirrorBuddyGroupMapper_find this w buddyGroupID \<noteq> None
      then (FhgfsOpsErr_EXISTS, this, w)
      else if case targetMapper of
                Some tm \<Rightarrow> NumNodeID_isZero (TargetMapper_getNodeID tm primary)
                         \<or> NumNodeID_isZero (TargetMapper_getNodeID tm secondary)
              | None \<Rightarrow> False
      then (FhgfsOpsErr_UNKNOWNTARGET, this, w)
      else if inGroup primary \<noteq> 0 \<and> inGroup primary \<noteq> buddyGroupID
            \<or> inGroup secondary \<noteq> 0 \<and> inGroup secondary \<noteq> buddyGroupID
      then (FhgfsOpsErr_INUSE, this, w)
      else (case newGroup mem cap buddyGroupID primary secondary w of
              (None, w) \<Rightarrow> (FhgfsOpsErr_OUTOFMEM, this, w)
            | (Some a, w) \<Rightarrow>
                (FhgfsOpsErr_SUCCESS,
                 (case rb_insert (gkey w) CONGFS_RB_KEYCMP_LT_INTEGRAL (mirrorBuddyGroups this) a of
                    Some t \<Rightarrow> this\<lparr>mirrorBuddyGroups := t\<rparr>
                  | None \<Rightarrow> this), w)))"

text \<open>\<^verbatim>\<open>TargetStateStore_syncStatesAndGroupsFromLists\<close> holds both locks: one step on both stores.\<close>

definition TargetStateStore_syncStatesAndGroupsFromLists ::
    "groupMem \<Rightarrow> u32 \<Rightarrow> TargetStateMapping list \<Rightarrow> BuddyGroupMapping list \<Rightarrow>
     TargetStateStore \<Rightarrow> MirrorBuddyGroupMapper \<Rightarrow> World \<Rightarrow>
     (TargetStateStore \<times> MirrorBuddyGroupMapper \<times> World) option" where
  "TargetStateStore_syncStatesAndGroupsFromLists mem cap states groups this buddyGroups w = do {
     let this = TargetStateStore_syncStatesUnlocked this states;
     (buddyGroups, w) \<leftarrow> MirrorBuddyGroupMapper_syncGroupsUnlocked mem cap groups buddyGroups w;
     Some (this, buddyGroups, w) }"

section \<open>What the group operations keep\<close>

definition ident :: "MirrorBuddyGroup \<Rightarrow> u16 \<times> u16 \<times> u16" where
  "ident g = (groupID g, firstTargetID g, secondTargetID g)"

lemma acquire_frame:
  assumes "MirrorBuddyGroup_acquireSequenceNumber w k g h hm = Some (Some (r, g', hm'))"
  shows "ident g' = ident g" and "refs g' = (case r of Inr _ \<Rightarrow> refs g + 1 | Inl _ \<Rightarrow> refs g)"
  using assms
  by (auto simp: MirrorBuddyGroup_acquireSequenceNumber_def takeSlot_def acquireLocked_def
      pushInFlight_def nextAck_def MirrorBuddyGroup_put_def ident_def bind_eq_Some_conv Let_def
      split: if_splits option.splits list.splits)

lemma release_frame:
  assumes "MirrorBuddyGroup_releaseSequenceNumber g h hm = Some (g', hm')"
  shows "ident g' = ident g" and "refs g' = refs g - 1"
  using assms
  by (auto simp: MirrorBuddyGroup_releaseSequenceNumber_def pushFinished_def removeInFlight_def
      MirrorBuddyGroup_put_def ident_def bind_eq_Some_conv Let_def split: if_splits)

text \<open>One acquisition: the numbers in flight grow exactly when it succeeds.\<close>

lemma acquire_inflight:
  assumes ok: "group_ok g hm" and h: "h \<notin> handles g"
    and a: "MirrorBuddyGroup_acquireSequenceNumber w k g h hm = Some (Some (r, g', hm'))"
  shows "group_ok g' hm'" and "handles g' \<subseteq> insert h (handles g)"
    and "length (inflight g') = length (inflight g) + (case r of Inr _ \<Rightarrow> 1 | Inl _ \<Rightarrow> 0)"
    and "\<And>x. x \<noteq> h \<Longrightarrow> hm' x = hm x"
proof -
  show "group_ok g' hm'" using acquire_step [OF ok h a] by blast
  consider "slotsAvail g = 0" | "slotsAvail g > 0" "sequence g = 0"
    | "slotsAvail g > 0" "sequence g \<noteq> 0" by blast
  then have "handles g' \<subseteq> insert h (handles g)
    \<and> length (inflight g') = length (inflight g) + (case r of Inr _ \<Rightarrow> 1 | Inl _ \<Rightarrow> 0)
    \<and> (\<forall>x. x \<noteq> h \<longrightarrow> hm' x = hm x)"
  proof cases
    case 1
    then show ?thesis
      using a by (auto simp: MirrorBuddyGroup_acquireSequenceNumber_def takeSlot_def split: if_splits)
  next
    case 2
    then show ?thesis using a acquire_nobase [OF 2] by auto
  next
    case 3
    then show ?thesis
      using acquire_spec [OF ok 3 h [unfolded handles_def], of w k] a by (auto simp: handles_def)
  qed
  then show "handles g' \<subseteq> insert h (handles g)"
    and "length (inflight g') = length (inflight g) + (case r of Inr _ \<Rightarrow> 1 | Inl _ \<Rightarrow> 0)"
    and "\<And>x. x \<noteq> h \<Longrightarrow> hm' x = hm x" by blast+
qed

lemma release_inflight:
  assumes ok: "group_ok g hm" and h: "h \<in> handles g"
  shows "\<exists>g' hm'. MirrorBuddyGroup_releaseSequenceNumber g h hm = Some (g', hm') \<and> group_ok g' hm'
    \<and> handles g' \<subseteq> handles g \<and> length (inflight g) = Suc (length (inflight g'))
    \<and> (\<forall>x. x \<notin> handles g \<longrightarrow> hm' x = hm x)"
proof -
  obtain s where s: "s \<in> set (inflight g)" "pSelf s = h" using h by (auto simp: handles_def)
  obtain g' hm' where r: "MirrorBuddyGroup_releaseSequenceNumber g h hm = Some (g', hm')"
      "group_ok g' hm'" "mset (inflight g) = add_mset s (mset (inflight g'))"
      "\<forall>x. x \<notin> handles g \<longrightarrow> hm' x = hm x"
    using release_spec [OF ok s(1)] s(2) by (auto simp: handles_def)
  have "set (inflight g') \<subseteq> set (inflight g)" using arg_cong [OF r(3), of set_mset] by auto
  then have "handles g' \<subseteq> handles g" by (auto simp: handles_def)
  moreover have "length (inflight g) = Suc (length (inflight g'))"
    using arg_cong [OF r(3), of size] by simp
  ultimately show ?thesis using r by blast
qed

lemma release_capacity:
  assumes "group_ok g hm" and "h \<in> handles g"
    and "MirrorBuddyGroup_releaseSequenceNumber g h hm = Some (g', hm')"
  shows "capacity g' = capacity g"
proof -
  obtain s where "s \<in> set (inflight g)" "pSelf s = h" using assms(2) by (auto simp: handles_def)
  then show ?thesis using release_spec [OF assms(1)] assms(3) by fastforce
qed

section \<open>Ownership of references\<close>

text \<open>
  \<open>own\<close> is the bag of references that the tree, a list or a waiting caller holds. The count of every
  group is the number of references in the bag and of numbers in flight, and never 0.
\<close>

definition entry_ok :: "World \<Rightarrow> gaddr multiset \<Rightarrow> gaddr \<Rightarrow> bool" where
  "entry_ok w own a = (case w_groups w a of
     None \<Rightarrow> a \<notin># own
   | Some g \<Rightarrow> refs g = count own a + length (inflight g) \<and> refs g > 0 \<and> a < w_next w
             \<and> group_ok g (w_handles w))"

definition owned :: "World \<Rightarrow> gaddr multiset \<Rightarrow> bool" where
  "owned w own \<longleftrightarrow> (\<forall>a. entry_ok w own a) \<and>
     (\<forall>a b g g'. a \<noteq> b \<longrightarrow> w_groups w a = Some g \<longrightarrow> w_groups w b = Some g' \<longrightarrow>
        handles g \<inter> handles g' = {})"

definition allHandles :: "World \<Rightarrow> u64 set" where
  "allHandles w = {h. \<exists>a g. w_groups w a = Some g \<and> h \<in> handles g}"

lemma owned_entry: "owned w own \<Longrightarrow> entry_ok w own a"
  by (simp add: owned_def)

lemma ownedD:
  assumes "owned w own" and "w_groups w a = Some g"
  shows "refs g = count own a + length (inflight g)" and "refs g > 0" and "a < w_next w"
    and "group_ok g (w_handles w)"
  using owned_entry [OF assms(1), of a] unfolding entry_ok_def assms(2) option.case by blast+

lemma owned_live: "owned w own \<Longrightarrow> a \<in># own \<Longrightarrow> \<exists>g. w_groups w a = Some g"
  using owned_entry [of w own a] by (auto simp: entry_ok_def split: option.splits)

lemma owned_disjoint:
  "owned w own \<Longrightarrow> a \<noteq> b \<Longrightarrow> w_groups w a = Some g \<Longrightarrow> w_groups w b = Some g' \<Longrightarrow>
   handles g \<inter> handles g' = {}"
  unfolding owned_def by blast

lemma owned_store:
  assumes w: "owned w own" and a: "w_groups w a = Some g"
    and ok: "group_ok g' hm'" and hs: "handles g' \<subseteq> H \<union> handles g" and h: "H \<inter> allHandles w = {}"
    and hm: "\<And>b f x. b \<noteq> a \<Longrightarrow> w_groups w b = Some f \<Longrightarrow> x \<in> handles f \<Longrightarrow> hm' x = w_handles w x"
    and refs: "refs g' = count own' a + length (inflight g')"
    and own: "\<And>b. b \<noteq> a \<Longrightarrow> count own' b = count own b"
  shows "owned ((storeGroup a g' w)\<lparr>w_handles := hm'\<rparr>) own'"
proof -
  let ?w = "(storeGroup a g' w)\<lparr>w_handles := hm'\<rparr>"
  have other: "group_ok f hm'" if "b \<noteq> a" "w_groups w b = Some f" for b f
    using group_ok_hm [OF ownedD(4) [OF w that(2)]] hm [OF that] by blast
  have one: "entry_ok ?w own' b" for b
  proof (cases "b = a")
    case True
    then show ?thesis
      using refs ok ownedD(3) [OF w a] by (auto simp: entry_ok_def storeGroup_def not_in_iff)
  next
    case False
    then show ?thesis
      using own [OF False] other [OF False] owned_entry [OF w, of b]
      by (auto simp: entry_ok_def storeGroup_def not_in_iff split: option.splits)
  qed
  note dis = owned_disjoint [OF w]
  have new: "handles g' \<inter> handles f = {}" if "b \<noteq> a" "w_groups w b = Some f" for b f
    using hs h dis [OF that(1) that(2) a] that(2) by (auto simp: allHandles_def)
  have "handles f \<inter> handles f' = {}"
    if "b \<noteq> c" "w_groups ?w b = Some f" "w_groups ?w c = Some f'" for b c f f'
    using that new [of b f] new [of c f'] dis [of b c f f']
    by (auto simp: storeGroup_def split: if_splits)
  with one show ?thesis unfolding owned_def by blast
qed

text \<open>The contents of a group apart from its reference count.\<close>

definition about :: "World \<Rightarrow> gaddr \<Rightarrow> MirrorBuddyGroup option" where
  "about w a = map_option (\<lambda>g. g\<lparr>refs := 0\<rparr>) (w_groups w a)"

lemma about_Some: "about w a = Some g \<longleftrightarrow> (\<exists>f. w_groups w a = Some f \<and> g = f\<lparr>refs := 0\<rparr>)"
  by (auto simp: about_def)

lemma gkey_about: "about w' a = about w a \<Longrightarrow> gkey w' a = gkey w a"
  by (auto simp: about_def gkey_def split: option.splits)
    (metis MirrorBuddyGroup.select_convs(1) MirrorBuddyGroup.surjective MirrorBuddyGroup.update_convs(12))

lemma put_fields [simp]:
  "inflight (g\<lparr>refs := n\<rparr>) = inflight g" "handles (g\<lparr>refs := n\<rparr>) = handles g"
  "group_ok (g\<lparr>refs := n\<rparr>) hm = group_ok g hm" "ident (g\<lparr>refs := n\<rparr>) = ident g"
  "absGroup (g\<lparr>refs := n\<rparr>) = absGroup g"
  by (simp_all add: inflight_def handles_def group_ok_def capacity_def ident_def absGroup_def finished_def)

lemma putGroup_owned:
  assumes w: "owned w own" and a: "a \<in># own"
  shows "\<exists>w'. putGroup a w = Some w' \<and> owned w' (own - {#a#}) \<and>
    (\<forall>b. b \<in># own - {#a#} \<or> b \<noteq> a \<longrightarrow> about w' b = about w b) \<and> w_handles w' = w_handles w"
proof -
  obtain g where g: "w_groups w a = Some g" using owned_live [OF w a] by blast
  note d = ownedD [OF w g]
  let ?g = "MirrorBuddyGroup_put g" and ?w = "storeGroup a (MirrorBuddyGroup_put g) w"
  have "owned (?w\<lparr>w_handles := w_handles w\<rparr>) (own - {#a#})"
    using d(1) a by (intro owned_store [OF w g, where H = "{}"]) (auto simp: MirrorBuddyGroup_put_def d(4))
  moreover have "about ?w b = about w b" if "b \<in># own - {#a#} \<or> b \<noteq> a" for b
  proof (cases "b = a")
    case True
    then have "count own a > 1" using that by (metis count_diff count_greater_zero_iff count_single zero_less_diff)
    then show ?thesis
      using True g d(1) by (auto simp: about_def storeGroup_def MirrorBuddyGroup_put_def)
  qed (simp add: about_def storeGroup_def)
  moreover have "?w\<lparr>w_handles := w_handles w\<rparr> = ?w" by (simp add: storeGroup_def)
  ultimately show ?thesis using g by (auto simp: putGroup_def storeGroup_def)
qed

lemma getGroup_owned:
  assumes w: "owned w own" and a: "w_groups w a = Some g"
  shows "\<exists>w'. getGroup a w = Some w' \<and> owned w' (add_mset a own) \<and> about w' = about w"
proof -
  note d = ownedD [OF w a]
  let ?w = "storeGroup a (g\<lparr>refs := refs g + 1\<rparr>) w"
  have "owned (?w\<lparr>w_handles := w_handles w\<rparr>) (add_mset a own)"
    using d(1) by (intro owned_store [OF w a, where H = "{}"]) (auto simp: d(4))
  moreover have "about ?w = about w" using a by (auto simp: about_def storeGroup_def)
  ultimately show ?thesis using a by (auto simp: getGroup_def storeGroup_def)
qed

lemma acquireAt_owned:
  assumes w: "owned w own" and a: "w_groups w a = Some g" and h: "h \<notin> allHandles w"
    and q: "acquireAt v k a h w = Some (Some (r, w'))"
  shows "owned w' own" and "\<exists>g'. w_groups w' a = Some g' \<and> ident g' = ident g"
    and "\<And>b. b \<noteq> a \<Longrightarrow> w_groups w' b = w_groups w b"
proof -
  note d = ownedD [OF w a]
  have hg: "h \<notin> handles g" using h a by (auto simp: allHandles_def)
  obtain g' hm' where q': "MirrorBuddyGroup_acquireSequenceNumber v k g h (w_handles w) = Some (Some (r, g', hm'))"
      "w' = (storeGroup a g' w)\<lparr>w_handles := hm'\<rparr>"
    using q a by (auto simp: acquireAt_def bind_eq_Some_conv)
  note f = acquire_frame [OF q'(1)] and i = acquire_inflight [OF d(4) hg q'(1)]
  have keep: "hm' x = w_handles w x" if "w_groups w b = Some f" "x \<in> handles f" for b f x
    using i(4) [of x] that h by (auto simp: allHandles_def)
  show "owned w' own" unfolding q'(2)
  proof (rule owned_store [OF w a i(1), where H = "{h}"])
    show "refs g' = count own a + length (inflight g')"
      using d(1) f(2) i(3) by (auto split: sum.splits)
  qed (use i(2) h keep in auto)
  have "refs g' \<noteq> 0" using f(2) d(2) by (auto split: sum.splits)
  then show "\<exists>g'. w_groups w' a = Some g' \<and> ident g' = ident g"
    using q'(2) f(1) by (simp add: storeGroup_def)
  show "\<And>b. b \<noteq> a \<Longrightarrow> w_groups w' b = w_groups w b"
    using q'(2) by (simp add: storeGroup_def)
qed

lemma acquireAt_defined:
  assumes w: "owned w own" and a: "w_groups w a = Some g" and h: "h \<notin> allHandles w"
  shows "acquireAt v k a h w \<noteq> None" and "acquireAt False k a h w \<noteq> Some None"
    and "slotsAvail g > 0 \<or> k \<Longrightarrow> acquireAt v k a h w \<noteq> Some None"
proof -
  note ok = ownedD(4) [OF w a]
  have hg: "h \<notin> handles g" using h a by (auto simp: allHandles_def)
  consider "slotsAvail g = 0" | "slotsAvail g > 0" "sequence g = 0"
    | "slotsAvail g > 0" "sequence g \<noteq> 0" by blast
  note cases3 = this
  show "acquireAt v k a h w \<noteq> None" using cases3
  proof cases
    case 3
    then show ?thesis
      using acquire_spec [OF ok 3 hg [unfolded handles_def], of v k] a
      by (auto simp: acquireAt_def bind_eq_None_conv)
  next
    case 2
    then show ?thesis using a by (simp add: acquireAt_def acquire_nobase)
  next
    case 1
    then show ?thesis
      using a by (simp add: acquireAt_def MirrorBuddyGroup_acquireSequenceNumber_def takeSlot_def)
  qed
  show "acquireAt False k a h w \<noteq> Some None" and "slotsAvail g > 0 \<or> k \<Longrightarrow> acquireAt v k a h w \<noteq> Some None"
    using a by (auto simp: acquireAt_def bind_eq_Some_conv MirrorBuddyGroup_acquireSequenceNumber_def
        takeSlot_def split: option.splits)
qed

lemma releaseAt_owned:
  assumes w: "owned w own" and a: "w_groups w a = Some g" and h: "h \<in> handles g"
  shows "\<exists>w'. releaseAt a h w = Some w' \<and> owned w' own
    \<and> (\<forall>g'. w_groups w' a = Some g' \<longrightarrow> ident g' = ident g \<and> slotsAvail g' > 0)
    \<and> (\<forall>b. b \<noteq> a \<longrightarrow> w_groups w' b = w_groups w b)"
proof -
  note d = ownedD [OF w a]
  obtain g' hm' where r: "MirrorBuddyGroup_releaseSequenceNumber g h (w_handles w) = Some (g', hm')"
      "group_ok g' hm'" "handles g' \<subseteq> handles g" "length (inflight g) = Suc (length (inflight g'))"
      "\<forall>x. x \<notin> handles g \<longrightarrow> hm' x = w_handles w x"
    using release_inflight [OF d(4) h] by blast
  note f = release_frame [OF r(1)]
  let ?w = "(storeGroup a g' w)\<lparr>w_handles := hm'\<rparr>"
  have "owned ?w own"
  proof (rule owned_store [OF w a r(2), where H = "{}"])
    show "hm' x = w_handles w x" if "b \<noteq> a" "w_groups w b = Some f" "x \<in> handles f" for b f x
      using r(5) owned_disjoint [OF w that(1,2) a] that(3) by blast
    show "refs g' = count own a + length (inflight g')" using f(2) d(1) r(4) by simp
  qed (use r(3) in auto)
  moreover have "slotsAvail g' > 0"
    using slots_inflight [OF r(2)] r(4) group_okD(1) [OF r(2)] slots_inflight [OF d(4)]
      release_capacity [OF d(4) h r(1)] by linarith
  ultimately show ?thesis using r(1) f(1) a by (auto simp: releaseAt_def storeGroup_def)
qed

text \<open>Allocation.\<close>

definition mem_ok :: "groupMem \<Rightarrow> bool" where
  "mem_ok mem \<longleftrightarrow> (\<forall>a n. (\<forall>xs. fst (mem a) n = Some xs \<longrightarrow> length xs = n) \<and>
     (\<forall>xs. snd (mem a) n = Some xs \<longrightarrow> length xs = n))"

definition mem_avail :: "groupMem \<Rightarrow> u32 \<Rightarrow> bool" where
  "mem_avail mem cap \<longleftrightarrow> (ucast cap :: u16) \<noteq> 0 \<and>
     (\<forall>a. fst (mem a) (unat (ucast cap :: u16)) \<noteq> None \<and> snd (mem a) (unat (ucast cap :: u16)) \<noteq> None)"

lemma newGroup_None:
  assumes "newGroup mem cap i p s w = (None, w')"
  shows "w' = w" and "\<not> mem_avail mem cap"
  using assms
  by (auto simp: newGroup_def mem_avail_def MirrorBuddyGroup_constructFromTargetIDs_def bind_eq_None_conv
      split: option.splits if_splits)

lemma newGroup_Some:
  assumes w: "owned w own" and m: "mem_ok mem" and n: "newGroup mem cap i p s w = (Some a, w')"
  shows "owned w' (add_mset a own)" and "w_groups w a = None"
    and "\<exists>g. w_groups w' a = Some g \<and> ident g = (i, p, s)"
    and "\<And>b. b \<noteq> a \<Longrightarrow> w_groups w' b = w_groups w b" and "w_handles w' = w_handles w"
proof -
  obtain g where g: "MirrorBuddyGroup_constructFromTargetIDs (fst (mem (w_next w))) (snd (mem (w_next w)))
      i (ucast cap) p s = Some g"
    and a: "a = w_next w" and w': "w' = w\<lparr>w_groups := (w_groups w)(a \<mapsto> g), w_next := w_next w + 1\<rparr>"
    using n by (auto simp: newGroup_def split: option.splits)
  have c: "group_ok g (w_handles w)" "inflight g = []"
    by (rule construct_ok [OF g]; use m in \<open>auto simp: mem_ok_def\<close>)+
  have id: "ident g = (i, p, s)" "refs g = 1"
    using g by (auto simp: MirrorBuddyGroup_constructFromTargetIDs_def ident_def bind_eq_Some_conv split: if_splits)
  show fresh: "w_groups w a = None" using owned_entry [OF w, of a] a by (auto simp: entry_ok_def split: option.splits)
  then have notin: "a \<notin># own" using owned_entry [OF w, of a] by (simp add: entry_ok_def)
  have "entry_ok w' (add_mset a own) b" for b
    using owned_entry [OF w, of b] c id notin w' a
    by (auto simp: entry_ok_def not_in_iff split: option.splits)
  moreover have "handles f \<inter> handles f' = {}"
    if "b \<noteq> b'" "w_groups w' b = Some f" "w_groups w' b' = Some f'" for b b' f f'
    using that owned_disjoint [OF w that(1)] c(2) w' by (auto simp: handles_def split: if_splits)
  ultimately show "owned w' (add_mset a own)" unfolding owned_def by blast
  show "\<exists>g. w_groups w' a = Some g \<and> ident g = (i, p, s)" using w' id by simp
  show "\<And>b. b \<noteq> a \<Longrightarrow> w_groups w' b = w_groups w b" and "w_handles w' = w_handles w"
    using w' by simp_all
qed

section \<open>Trees whose keys are read from memory\<close>

abbreviation cmpId :: "u16 \<Rightarrow> u16 \<Rightarrow> int" where
  "cmpId \<equiv> CONGFS_RB_KEYCMP_LT_INTEGRAL"

lemma rb_find_cong: "(\<And>x. x \<in> set_tree t \<Longrightarrow> f x = g x) \<Longrightarrow> rb_find f c t k = rb_find g c t k"
  by (induction t) (simp_all add: Let_def)

lemma rb_insert_cong:
  "f x = g x \<Longrightarrow> \<forall>y \<in> set_tree t. f y = g y \<Longrightarrow> rb_insert f c t x = rb_insert g c t x"
  by (induction t) (simp_all add: Let_def)

lemma rb_replace_cong:
  "f x = g x \<Longrightarrow> \<forall>y \<in> set_tree t. f y = g y \<Longrightarrow> rb_replace f c t x = rb_replace g c t x"
  by (induction t) (simp_all add: Let_def)

lemma rb_put_cong:
  assumes "\<And>y. y \<in> insert x (set_tree t) \<Longrightarrow> f y = g y"
  shows "rb_insertOrReplace f c t x = rb_insertOrReplace g c t x"
proof -
  have "rb_insert f c t x = rb_insert g c t x" by (rule rb_insert_cong) (use assms in simp_all)
  moreover have "rb_replace f c t x = rb_replace g c t x" by (rule rb_replace_cong) (use assms in simp_all)
  moreover have "rb_find f c t (f x) = rb_find g c t (g x)"
    using assms rb_find_cong [of t f g c "g x"] by simp
  ultimately show ?thesis by (simp add: rb_insertOrReplace_def split: option.split)
qed

lemma rb_inv_cong: "(\<And>x. x \<in> set_tree t \<Longrightarrow> f x = g x) \<Longrightarrow> rb_inv f t = rb_inv g t"
  by (induction t) simp_all

lemma put_set:
  assumes "rb_inv key t"
  shows "set_tree (fst (rb_insertOrReplace key cmpId t x)) = insert x {y \<in> set_tree t. key y \<noteq> key x}"
proof -
  have r: "set_tree u = ran (rb_find key cmpId u)" if "rb_inv key u" for u
    using integral.ran_find [OF that] by simp
  have "set_tree (fst (rb_insertOrReplace key cmpId t x)) = ran ((rb_find key cmpId t)(key x \<mapsto> x))"
    using r [OF integral.put_laws(1) [OF assms]] integral.put_laws(2) [OF assms] by simp
  also have "\<dots> = insert x {y \<in> set_tree t. key y \<noteq> key x}"
    using integral.find_iff [OF assms] by (auto simp: ran_def split: if_splits)
  finally show ?thesis .
qed

lemma sync_cong:
  assumes "\<And>y. y \<in> set xs \<union> set_tree t \<Longrightarrow> f y = g y" and "rb_inv f t"
  shows "foldl (\<lambda>t x. fst (rb_insertOrReplace f cmpId t x)) t xs =
    foldl (\<lambda>t x. fst (rb_insertOrReplace g cmpId t x)) t xs"
  using assms
proof (induction xs arbitrary: t)
  case (Cons x xs)
  have e: "rb_insertOrReplace f cmpId t x = rb_insertOrReplace g cmpId t x"
    using Cons.prems by (intro rb_put_cong) auto
  have "set_tree (fst (rb_insertOrReplace f cmpId t x)) \<subseteq> insert x (set_tree t)"
    using put_set [OF Cons.prems(2), of x] by auto
  then have "foldl (\<lambda>t x. fst (rb_insertOrReplace f cmpId t x)) (fst (rb_insertOrReplace f cmpId t x)) xs =
      foldl (\<lambda>t x. fst (rb_insertOrReplace g cmpId t x)) (fst (rb_insertOrReplace f cmpId t x)) xs"
    using Cons.prems integral.put_laws(1) [OF Cons.prems(2), of x] by (intro Cons.IH) auto
  then show ?case by (simp add: e)
qed simp

lemma sync_subset:
  "rb_inv f t \<Longrightarrow> set_tree (foldl (\<lambda>t x. fst (rb_insertOrReplace f cmpId t x)) t xs) \<subseteq> set_tree t \<union> set xs"
proof (induction xs arbitrary: t)
  case (Cons x xs)
  show ?case
    using Cons.IH [OF integral.put_laws(1) [OF Cons.prems, of x]] put_set [OF Cons.prems, of x] by auto
qed simp

section \<open>Releasing and inserting lists of groups\<close>

lemma putAll_owned:
  "owned w (mset ps + R) \<Longrightarrow>
   \<exists>w'. putAll ps w = Some w' \<and> owned w' R \<and> (\<forall>b. b \<in># R \<or> b \<notin> set ps \<longrightarrow> about w' b = about w b)
     \<and> w_handles w' = w_handles w"
proof (induction ps arbitrary: w)
  case (Cons a ps)
  obtain w1 where w1: "putGroup a w = Some w1" "owned w1 (mset ps + R)"
      "\<forall>b. b \<in># mset ps + R \<or> b \<noteq> a \<longrightarrow> about w1 b = about w b" "w_handles w1 = w_handles w"
    using putGroup_owned [OF Cons.prems, of a] by auto
  obtain w2 where "putAll ps w1 = Some w2" "owned w2 R"
      "\<forall>b. b \<in># R \<or> b \<notin> set ps \<longrightarrow> about w2 b = about w1 b" "w_handles w2 = w_handles w1"
    using Cons.IH [OF w1(2)] by blast
  with w1 show ?case by auto
qed auto

lemma mset_postorder:
  assumes "rb_inv key t"
  shows "mset (postorder t) = mset_set (set_tree t)"
proof -
  have "mset (postorder t) = mset (inorder t)" by (induction t) simp_all
  moreover have "distinct (inorder t)" using rb_inv_distinct [OF assms] by (simp add: distinct_map)
  ultimately show ?thesis using mset_set_set [of "inorder t"] by simp
qed

lemma insertGroups_Cons:
  "insertGroups (pos # ps) (this, w) =
     (let p = rb_insertOrReplace (gkey w) cmpId (mirrorBuddyGroups this) pos;
          this = this\<lparr>mirrorBuddyGroups := fst p\<rparr>
      in case snd p of
           None \<Rightarrow> insertGroups ps (this, w)
         | Some a \<Rightarrow> putGroup a w \<bind> (\<lambda>w. insertGroups ps (this, w)))"
  by (cases "rb_insertOrReplace (gkey w) cmpId (mirrorBuddyGroups this) pos")
    (simp add: Let_def split: option.split)

lemma insertGroups_owned:
  assumes "owned w (mset_set (set_tree (mirrorBuddyGroups this)) + mset ps + W)"
    and "rb_inv (gkey w) (mirrorBuddyGroups this)"
    and "distinct ps" and "set ps \<inter> set_tree (mirrorBuddyGroups this) = {}"
  shows "\<exists>this' w'. insertGroups ps (this, w) = Some (this', w')
    \<and> owned w' (mset_set (set_tree (mirrorBuddyGroups this')) + W)
    \<and> rb_inv (gkey w') (mirrorBuddyGroups this')
    \<and> mirrorBuddyGroups this' =
        foldl (\<lambda>t x. fst (rb_insertOrReplace (gkey w) cmpId t x)) (mirrorBuddyGroups this) ps
    \<and> (\<forall>b. b \<in> set_tree (mirrorBuddyGroups this') \<or> b \<in># W \<longrightarrow> about w' b = about w b)
    \<and> w_handles w' = w_handles w"
  using assms
proof (induction ps arbitrary: this w)
  case (Cons a ps)
  let ?T = "mirrorBuddyGroups this" and ?K = "gkey w"
  let ?t = "fst (rb_insertOrReplace ?K cmpId ?T a)" and ?m = "\<lambda>t. this\<lparr>mirrorBuddyGroups := t\<rparr>"
  have set: "set_tree ?t = insert a {y \<in> set_tree ?T. ?K y \<noteq> ?K a}"
    by (rule put_set [OF Cons.prems(2)])
  have inv: "rb_inv ?K ?t" by (rule integral.put_laws(1) [OF Cons.prems(2)])
  have new: "a \<notin> set_tree ?T" "a \<notin> set ps" using Cons.prems(3,4) by auto
  have dis: "distinct ps" "set ps \<inter> set_tree ?t = {}" using Cons.prems(3,4) set by auto
  obtain w1 where w1: "insertGroups (a # ps) (this, w) = insertGroups ps (?m ?t, w1)"
      "owned w1 (mset_set (set_tree ?t) + mset ps + W)"
      "\<forall>b. b \<in> set_tree ?t \<union> set ps \<or> b \<in># W \<longrightarrow> about w1 b = about w b" "w_handles w1 = w_handles w"
  proof (cases "rb_find ?K cmpId ?T (?K a)")
    case None
    then have "set_tree ?t = insert a (set_tree ?T)"
      using set integral.find_None [OF Cons.prems(2)] by auto
    then have "owned w (mset_set (set_tree ?t) + mset ps + W)"
      using Cons.prems(1) new by simp
    then show thesis
      using that [of w] None integral.put_laws(3) [OF Cons.prems(2), of a]
      by (simp add: insertGroups_Cons Let_def del: insertGroups.simps(2))
  next
    case (Some r)
    then have r: "r \<in> set_tree ?T" "?K r = ?K a" by (simp_all add: integral.find_iff [OF Cons.prems(2)])
    have "{y \<in> set_tree ?T. ?K y \<noteq> ?K a} = set_tree ?T - {r}"
    proof -
      have "y = r" if "y \<in> set_tree ?T" "?K y = ?K a" for y
        using rb_inv_unique [OF Cons.prems(2) that(1) r(1)] that(2) r(2) by simp
      with r(2) show ?thesis by blast
    qed
    with set have "set_tree ?t = insert a (set_tree ?T - {r})" by simp
    then have own: "mset_set (set_tree ?T) + mset (a # ps) + W - {#r#} = mset_set (set_tree ?t) + mset ps + W"
      using new r by (simp add: mset_set_Diff multiset_diff_union_assoc)
    obtain w1 where w1: "putGroup r w = Some w1" "owned w1 (mset_set (set_tree ?t) + mset ps + W)"
        "\<forall>b. b \<in># mset_set (set_tree ?t) + mset ps + W \<or> b \<noteq> r \<longrightarrow> about w1 b = about w b"
        "w_handles w1 = w_handles w"
      using putGroup_owned [OF Cons.prems(1), of r] r(1) unfolding own by auto
    then show thesis
      using that [of w1] Some integral.put_laws(3) [OF Cons.prems(2), of a]
      by (simp add: insertGroups_Cons Let_def del: insertGroups.simps(2))
  qed
  have k: "gkey w1 b = ?K b" if "b \<in> set_tree ?t \<union> set ps" for b
    using w1(3) that by (auto intro: gkey_about)
  have inv1: "rb_inv (gkey w1) ?t" using inv rb_inv_cong [of ?t "gkey w1" ?K] k by auto
  obtain this' w' where r: "insertGroups ps (?m ?t, w1) = Some (this', w')"
      "owned w' (mset_set (set_tree (mirrorBuddyGroups this')) + W)"
      "rb_inv (gkey w') (mirrorBuddyGroups this')"
      "mirrorBuddyGroups this' = foldl (\<lambda>t x. fst (rb_insertOrReplace (gkey w1) cmpId t x)) ?t ps"
      "\<forall>b. b \<in> set_tree (mirrorBuddyGroups this') \<or> b \<in># W \<longrightarrow> about w' b = about w1 b"
      "w_handles w' = w_handles w1"
    using Cons.IH [of w1 "?m ?t"] w1(2) inv1 dis by auto
  have t': "mirrorBuddyGroups this' = foldl (\<lambda>t x. fst (rb_insertOrReplace ?K cmpId t x)) ?T (a # ps)"
    unfolding r(4) foldl_Cons by (rule sync_cong [OF k inv1]) blast
  have "set_tree (mirrorBuddyGroups this') \<subseteq> set_tree ?t \<union> set ps"
    using sync_subset [OF inv, of ps] t' by simp
  then show ?case using w1 r t' by auto
qed simp

section \<open>Synchronising the groups\<close>

definition mapper_inv :: "MirrorBuddyGroupMapper \<Rightarrow> World \<Rightarrow> gaddr multiset \<Rightarrow> bool" where
  "mapper_inv this w W \<longleftrightarrow> owned w (mset_set (set_tree (mirrorBuddyGroups this)) + W)
     \<and> rb_inv (gkey w) (mirrorBuddyGroups this)"

definition matches :: "World \<Rightarrow> gaddr \<Rightarrow> BuddyGroupMapping \<Rightarrow> bool" where
  "matches w a m \<longleftrightarrow> (\<exists>g. w_groups w a = Some g \<and>
     ident g = (bg_groupID m, bg_primaryTargetID m, bg_secondaryTargetID m))"

text \<open>The state of the first loop: the groups collected so far are those of the mappings \<open>dn\<close>.\<close>

definition collecting ::
    "MirrorBuddyGroupMapper \<Rightarrow> gaddr list \<Rightarrow> World \<Rightarrow> BuddyGroupMapping list \<Rightarrow> gaddr multiset \<Rightarrow> bool" where
  "collecting this new w dn W \<longleftrightarrow>
     owned w (mset_set (set_tree (mirrorBuddyGroups this)) + mset new + W) \<and>
     rb_inv (gkey w) (mirrorBuddyGroups this) \<and> distinct new \<and>
     set new \<inter> set_tree (mirrorBuddyGroups this) = {} \<and> list_all2 (matches w) new dn"

text \<open>Groups keep their identity and their numbers.\<close>

definition survive :: "World \<Rightarrow> World \<Rightarrow> bool" where
  "survive w w' \<longleftrightarrow> w_handles w' = w_handles w \<and>
     (\<forall>b g. w_groups w b = Some g \<longrightarrow>
        (\<exists>g'. w_groups w' b = Some g' \<and> groupID g' = groupID g \<and> absGroup g' = absGroup g))"

lemma survive_refl: "survive w w"
  by (simp add: survive_def)

lemma survive_trans: "survive u v \<Longrightarrow> survive v w \<Longrightarrow> survive u w"
  unfolding survive_def by metis

lemma survive_gkey: "survive w w' \<Longrightarrow> w_groups w b \<noteq> None \<Longrightarrow> gkey w' b = gkey w b"
  by (fastforce simp: survive_def gkey_def)

lemma collecting_known:
  assumes c: "collecting this new w dn W" and f: "MirrorBuddyGroupMapper_find this w (bg_groupID m) = Some a"
  shows "\<exists>g. w_groups w a = Some g \<and> gkey w a = bg_groupID m \<and>
    (let w' = w\<lparr>w_groups := (w_groups w)(a \<mapsto> g\<lparr>firstTargetID := bg_primaryTargetID m,
                                                secondTargetID := bg_secondaryTargetID m\<rparr>)\<rparr>;
         this' = this\<lparr>mirrorBuddyGroups := rb_erase (gkey w') cmpId (mirrorBuddyGroups this) (gkey w' a)\<rparr>
     in collecting this' (new @ [a]) w' (dn @ [m]) W \<and> survive w w' \<and> gkey w' = gkey w
        \<and> set_tree (mirrorBuddyGroups this') = set_tree (mirrorBuddyGroups this) - {a})"
proof -
  let ?T = "mirrorBuddyGroups this"
  have inv: "rb_inv (gkey w) ?T" and own: "owned w (mset_set (set_tree ?T) + mset new + W)"
    and dis: "distinct new" "set new \<inter> set_tree ?T = {}" and all: "list_all2 (matches w) new dn"
    using c by (simp_all add: collecting_def)
  have a: "a \<in> set_tree ?T" "gkey w a = bg_groupID m"
    using f by (simp_all add: MirrorBuddyGroupMapper_find_def integral.find_iff [OF inv])
  obtain g where g: "w_groups w a = Some g" using owned_live [OF own] a(1) by auto
  note d = ownedD [OF own g]
  let ?g = "g\<lparr>firstTargetID := bg_primaryTargetID m, secondTargetID := bg_secondaryTargetID m\<rparr>"
  let ?w = "w\<lparr>w_groups := (w_groups w)(a \<mapsto> ?g)\<rparr>"
  have same: "inflight ?g = inflight g" "handles ?g = handles g" "absGroup ?g = absGroup g"
      "group_ok ?g hm = group_ok g hm" for hm
    by (simp_all add: inflight_def handles_def absGroup_def finished_def group_ok_def capacity_def)
  have st: "?w = (storeGroup a ?g w)\<lparr>w_handles := w_handles w\<rparr>" using d(2) by (simp add: storeGroup_def)
  have own': "owned ?w (mset_set (set_tree ?T) + mset new + W)"
    unfolding st using d by (intro owned_store [OF own g, where H = "{}"]) (simp_all add: same)
  have key: "gkey ?w = gkey w" using g by (auto simp: gkey_def)
  have sv: "survive w ?w" using g by (simp add: survive_def same)
  let ?t = "rb_erase (gkey ?w) cmpId ?T (gkey ?w a)"
  have set: "set_tree ?t = set_tree ?T - {a}"
    unfolding key using integral.erase_set [OF inv] rb_inv_unique [OF inv _ a(1)] a(1) by blast
  have bag: "mset_set (set_tree ?t) + mset (new @ [a]) + W = mset_set (set_tree ?T) + mset new + W"
    unfolding set using a(1) by (simp add: mset_set_Diff)
  have "owned ?w (mset_set (set_tree ?t) + mset (new @ [a]) + W)"
    unfolding bag by (rule own')
  moreover have "rb_inv (gkey ?w) ?t" unfolding key by (rule integral.erase_inv [OF inv])
  moreover have "distinct (new @ [a])" "set (new @ [a]) \<inter> set_tree ?t = {}"
    using dis a(1) set by auto
  moreover have "list_all2 (matches ?w) (new @ [a]) (dn @ [m])"
  proof (rule list_all2_appendI)
    have "matches ?w b k" if "b \<in> set new" "matches w b k" for b k
      using that dis(2) a(1) by (auto simp: matches_def)
    then show "list_all2 (matches ?w) new dn" using all by (auto intro: list.rel_mono_strong)
    show "list_all2 (matches ?w) [a] [m]" using a(2) g by (simp add: matches_def ident_def gkey_def)
  qed
  ultimately have "collecting (this\<lparr>mirrorBuddyGroups := ?t\<rparr>) (new @ [a]) ?w (dn @ [m]) W"
    by (simp add: collecting_def)
  with g a(2) sv key set show ?thesis by (simp add: Let_def)
qed

lemma collecting_new:
  assumes c: "collecting this new w dn W" and m: "mem_ok mem"
    and n: "newGroup mem cap (bg_groupID m) (bg_primaryTargetID m) (bg_secondaryTargetID m) w = (Some a, w')"
  shows "collecting this (new @ [a]) w' (dn @ [m]) W" and "survive w w'"
proof -
  let ?T = "mirrorBuddyGroups this"
  have inv: "rb_inv (gkey w) ?T" and own: "owned w (mset_set (set_tree ?T) + mset new + W)"
    and dis: "distinct new" "set new \<inter> set_tree ?T = {}" and all: "list_all2 (matches w) new dn"
    using c by (simp_all add: collecting_def)
  note ng = newGroup_Some [OF own m n]
  have live: "w_groups w b \<noteq> None" if "b \<in> set_tree ?T \<or> b \<in> set new" for b
    using owned_live [OF own, of b] that by auto
  have na: "a \<notin> set_tree ?T" "a \<notin> set new" using live [of a] ng(2) by blast+
  show sv: "survive w w'" using ng(2,4,5) unfolding survive_def by (metis option.discI)
  have "rb_inv (gkey w') ?T"
    using inv rb_inv_cong [of ?T "gkey w'" "gkey w"] survive_gkey [OF sv] live by auto
  moreover have "list_all2 (matches w') (new @ [a]) (dn @ [m])"
  proof (rule list_all2_appendI)
    have "matches w' b k" if "b \<in> set new" "matches w b k" for b k
    proof -
      have "b \<noteq> a" using that(1) na(2) by blast
      then show ?thesis using that(2) ng(4) by (simp add: matches_def)
    qed
    then show "list_all2 (matches w') new dn" using all by (auto intro: list.rel_mono_strong)
    show "list_all2 (matches w') [a] [m]" using ng(3) by (simp add: matches_def)
  qed
  ultimately show "collecting this (new @ [a]) w' (dn @ [m]) W"
    using ng(1) dis na by (simp add: collecting_def ac_simps)
qed

lemma collectGroups_ok:
  assumes m: "mem_ok mem"
  shows "collecting this new w dn W \<Longrightarrow>
    (case collectGroups mem cap gs (this, new, w) of
       None \<Rightarrow> \<not> mem_avail mem cap
     | Some (this', new', w') \<Rightarrow> collecting this' new' w' (dn @ gs) W \<and> survive w w'
         \<and> set new \<subseteq> set new'
         \<and> (\<forall>a \<in> set_tree (mirrorBuddyGroups this). gkey w a \<in> bg_groupID ` set gs \<longrightarrow> a \<in> set new'))"
proof (induction gs arbitrary: this new w dn)
  case (Cons k gs)
  let ?T = "mirrorBuddyGroups this"
  have inv: "rb_inv (gkey w) ?T" and own: "owned w (mset_set (set_tree ?T) + mset new + W)"
    using Cons.prems by (simp_all add: collecting_def)
  show ?case
  proof (cases "MirrorBuddyGroupMapper_find this w (bg_groupID k)")
    case None
    then have nk: "\<forall>a \<in> set_tree ?T. gkey w a \<noteq> bg_groupID k"
      by (simp add: MirrorBuddyGroupMapper_find_def integral.find_None [OF inv])
    show ?thesis
    proof (cases "newGroup mem cap (bg_groupID k) (bg_primaryTargetID k) (bg_secondaryTargetID k) w")
      case (Pair r w1)
      show ?thesis
      proof (cases r)
        case None
        then show ?thesis
          using Pair newGroup_None(2) [of mem cap] \<open>MirrorBuddyGroupMapper_find this w _ = None\<close> by simp
      next
        case (Some a)
        note c = collecting_new [OF Cons.prems m Pair [unfolded Some]]
        have "gkey w1 b = gkey w b" if "b \<in> set_tree ?T" for b
          using survive_gkey [OF c(2), of b] owned_live [OF own, of b] that by auto
        then show ?thesis
          using Cons.IH [OF c(1)] None Pair Some nk survive_trans [OF c(2)]
          by (auto split: option.splits)
      qed
    qed
  next
    case (Some a)
    from collecting_known [OF Cons.prems Some] obtain g w1 t where
      k: "w_groups w a = Some g" "gkey w a = bg_groupID k"
        "w1 = w\<lparr>w_groups := (w_groups w)(a \<mapsto> g\<lparr>firstTargetID := bg_primaryTargetID k,
                                                secondTargetID := bg_secondaryTargetID k\<rparr>)\<rparr>"
        "t = rb_erase (gkey w1) cmpId ?T (gkey w1 a)"
        "collecting (this\<lparr>mirrorBuddyGroups := t\<rparr>) (new @ [a]) w1 (dn @ [k]) W" "survive w w1"
        "gkey w1 = gkey w" "set_tree t = set_tree ?T - {a}"
      by (auto simp: Let_def)
    have e: "collectGroups mem cap (k # gs) (this, new, w) =
        collectGroups mem cap gs (this\<lparr>mirrorBuddyGroups := t\<rparr>, new @ [a], w1)"
      using Some k(1,3,4) by (simp add: Let_def)
    have only: "b = a" if "b \<in> set_tree ?T" "gkey w b = bg_groupID k" for b
      using rb_inv_unique [OF inv that(1), of a] that(2) k(2) Some
      by (simp add: MirrorBuddyGroupMapper_find_def integral.find_iff [OF inv])
    show ?thesis
    proof (cases "collectGroups mem cap gs (this\<lparr>mirrorBuddyGroups := t\<rparr>, new @ [a], w1)")
      case (Some st)
      obtain this' new' w' where st: "st = (this', new', w')" by (cases st)
      have ih: "collecting this' new' w' (dn @ k # gs) W" "survive w1 w'" "set new \<subseteq> set new'" "a \<in> set new'"
          "\<And>b. b \<in> set_tree ?T \<Longrightarrow> b \<noteq> a \<Longrightarrow> gkey w b \<in> bg_groupID ` set gs \<Longrightarrow> b \<in> set new'"
        using Cons.IH [OF k(5)] k(7,8) unfolding Some st by simp_all
      then have "b \<in> set new'" if "b \<in> set_tree ?T" "gkey w b \<in> bg_groupID ` set (k # gs)" for b
      proof (cases "b = a")
        case False
        then have "gkey w b \<noteq> bg_groupID k" using only [OF that(1)] by blast
        then have "gkey w b \<in> bg_groupID ` set gs" using that(2) by auto
        then show ?thesis by (rule ih(5) [OF that(1) False])
      qed (use ih(4) in simp)
      with ih(1-3) survive_trans [OF k(6)] show ?thesis unfolding e Some st by simp
    qed (use Cons.IH [OF k(5)] e in simp)
  qed
qed (simp add: survive_refl)

lemma list_all2_find:
  assumes "list_all2 R xs ys" and "\<And>x y. R x y \<Longrightarrow> P x \<longleftrightarrow> Q y"
  shows "rel_option R (find P xs) (find Q ys)"
  using assms(1) by (induction rule: list_all2_induct) (simp_all add: assms(2))

lemma mapper_inv_clear:
  assumes "owned w (mset_set (set_tree (mirrorBuddyGroups this)) + R)"
    and "rb_inv (gkey w) (mirrorBuddyGroups this)"
  shows "\<exists>w'. MirrorBuddyGroupMapper_clear this w = Some (this\<lparr>mirrorBuddyGroups := Leaf\<rparr>, w')
    \<and> owned w' R \<and> (\<forall>b. b \<in># R \<longrightarrow> about w' b = about w b) \<and> w_handles w' = w_handles w"
  using putAll_owned [of w "postorder (mirrorBuddyGroups this)" R] assms
  by (auto simp: mset_postorder [OF assms(2)] MirrorBuddyGroupMapper_clear_def)

lemma syncGroups_ok:
  assumes m: "mem_ok mem" and i: "mapper_inv this w W"
  shows "case MirrorBuddyGroupMapper_syncGroupsUnlocked mem cap gs this w of
      None \<Rightarrow> \<not> mem_avail mem cap
    | Some (this', w') \<Rightarrow> mapper_inv this' w' W \<and> w_handles w' = w_handles w \<and>
        (\<exists>new v. list_all2 (matches v) new gs \<and> survive w v
          \<and> mirrorBuddyGroups this' = foldl (\<lambda>t x. fst (rb_insertOrReplace (gkey v) cmpId t x)) Leaf new
          \<and> (\<forall>b \<in> set_tree (mirrorBuddyGroups this'). about w' b = about v b)
          \<and> (\<forall>a \<in> set_tree (mirrorBuddyGroups this). gkey w a \<in> bg_groupID ` set gs \<longrightarrow> a \<in> set new))"
proof -
  have "collecting this [] w [] W" using i by (simp add: collecting_def mapper_inv_def)
  note c = collectGroups_ok [OF m this, of cap gs]
  show ?thesis
  proof (cases "collectGroups mem cap gs (this, [], w)")
    case None
    then show ?thesis using c by (simp add: MirrorBuddyGroupMapper_syncGroupsUnlocked_def)
  next
    case (Some st)
    obtain this1 new v where st: "st = (this1, new, v)" by (cases st)
    let ?T = "mirrorBuddyGroups this1"
    have c1: "collecting this1 new v gs W" "survive w v"
        "\<forall>a \<in> set_tree (mirrorBuddyGroups this). gkey w a \<in> bg_groupID ` set gs \<longrightarrow> a \<in> set new"
      using c unfolding Some st by simp_all
    have own: "owned v (mset_set (set_tree ?T) + (mset new + W))" and inv: "rb_inv (gkey v) ?T"
      and new: "distinct new" "list_all2 (matches v) new gs"
      using c1(1) by (simp_all add: collecting_def ac_simps)
    obtain v1 where v1: "MirrorBuddyGroupMapper_clear this1 v = Some (this1\<lparr>mirrorBuddyGroups := Leaf\<rparr>, v1)"
        "owned v1 (mset new + W)" "\<forall>b. b \<in># mset new + W \<longrightarrow> about v1 b = about v b" "w_handles v1 = w_handles v"
      using mapper_inv_clear [OF own inv] by blast
    have k: "gkey v1 b = gkey v b" if "b \<in> set new" for b
      using v1(3) that by (auto intro: gkey_about)
    let ?this = "this1\<lparr>mirrorBuddyGroups := Leaf\<rparr>"
    obtain this' w' where r: "insertGroups new (?this, v1) = Some (this', w')"
        "owned w' (mset_set (set_tree (mirrorBuddyGroups this')) + W)" "rb_inv (gkey w') (mirrorBuddyGroups this')"
        "mirrorBuddyGroups this' = foldl (\<lambda>t x. fst (rb_insertOrReplace (gkey v1) cmpId t x)) Leaf new"
        "\<forall>b. b \<in> set_tree (mirrorBuddyGroups this') \<or> b \<in># W \<longrightarrow> about w' b = about v1 b"
        "w_handles w' = w_handles v1"
      using insertGroups_owned [of v1 ?this new W] v1(2) new(1) by auto
    have t: "mirrorBuddyGroups this' = foldl (\<lambda>t x. fst (rb_insertOrReplace (gkey v) cmpId t x)) Leaf new"
      unfolding r(4) by (rule sync_cong) (simp_all add: k)
    have sub: "set_tree (mirrorBuddyGroups this') \<subseteq> set new"
      unfolding t using sync_subset [of "gkey v" Leaf new] by simp
    have "about w' b = about v b" if "b \<in> set_tree (mirrorBuddyGroups this')" for b
      using that r(5) v1(3) sub by auto
    moreover have "MirrorBuddyGroupMapper_syncGroupsUnlocked mem cap gs this w = Some (this', w')"
      using Some st v1(1) r(1) by (simp add: MirrorBuddyGroupMapper_syncGroupsUnlocked_def)
    moreover have "w_handles w' = w_handles w"
      using r(6) v1(4) c1(2) by (simp add: survive_def)
    ultimately show ?thesis
      using r(2,3) t new(2) c1(2,3) by (auto simp: mapper_inv_def)
  qed
qed

lemma sync_find:
  assumes "list_all2 (matches v) new gs"
    and t: "mirrorBuddyGroups this' = foldl (\<lambda>t x. fst (rb_insertOrReplace (gkey v) cmpId t x)) Leaf new"
    and ab: "\<forall>b \<in> set_tree (mirrorBuddyGroups this'). about w' b = about v b"
  shows "MirrorBuddyGroupMapper_find this' w' i = find (\<lambda>a. gkey v a = i) (rev new)"
    and "rel_option (matches v) (find (\<lambda>a. gkey v a = i) (rev new)) (find (\<lambda>m. bg_groupID m = i) (rev gs))"
proof -
  have "rb_find (gkey w') cmpId (mirrorBuddyGroups this') i = rb_find (gkey v) cmpId (mirrorBuddyGroups this') i"
    using ab by (intro rb_find_cong) (auto intro: gkey_about)
  then show "MirrorBuddyGroupMapper_find this' w' i = find (\<lambda>a. gkey v a = i) (rev new)"
    using key_store.lookup_sync [OF integral.tree_store, of "gkey v" Leaf new i] t
    by (simp add: MirrorBuddyGroupMapper_find_def split: option.splits)
  have "list_all2 (matches v) (rev new) (rev gs)" using assms(1) by simp
  then show "rel_option (matches v) (find (\<lambda>a. gkey v a = i) (rev new)) (find (\<lambda>m. bg_groupID m = i) (rev gs))"
    by (rule list_all2_find) (auto simp: matches_def gkey_def ident_def)
qed

lemma getTargets_ident:
  assumes "MirrorBuddyGroupMapper_find this w i = Some a" and "w_groups w a = Some g"
  shows "MirrorBuddyGroupMapper_getPrimaryTargetID this w i = fst (snd (ident g))"
    and "MirrorBuddyGroupMapper_getSecondaryTargetID this w i = snd (snd (ident g))"
  using assms
  by (simp_all add: MirrorBuddyGroupMapper_getPrimaryTargetID_def
      MirrorBuddyGroupMapper_getSecondaryTargetID_def ident_def)

lemma about_ident:
  assumes "about w' a = about w a" and "w_groups w a = Some g"
  shows "\<exists>g'. w_groups w' a = Some g' \<and> ident g' = ident g \<and> absGroup g' = absGroup g"
proof -
  obtain g' where "w_groups w' a = Some g'" "g'\<lparr>refs := 0\<rparr> = g\<lparr>refs := 0\<rparr>"
    using assms by (auto simp: about_def)
  then show ?thesis by (metis put_fields(4,5))
qed

section \<open>Runs of the mapper and its callers\<close>

text \<open>
  The third component of a state is the bag of groups that callers wait for. A handle variable that is
  passed to an acquisition is not in use, and callers write only variables that are not in use.
\<close>

type_synonym mstate = "MirrorBuddyGroupMapper \<times> World \<times> gaddr multiset"

inductive mstep :: "groupMem \<Rightarrow> u32 \<Rightarrow> mstate \<Rightarrow> mstate \<Rightarrow> bool" for mem cap where
  m_acquire: "h \<notin> allHandles w \<Longrightarrow>
    MirrorBuddyGroupMapper_acquireSequenceNumber this i h w = Some (Returns r, w') \<Longrightarrow>
    mstep mem cap (this, w, W) (this, w', W)"
| m_block: "h \<notin> allHandles w \<Longrightarrow>
    MirrorBuddyGroupMapper_acquireSequenceNumber this i h w = Some (Waits a, w') \<Longrightarrow>
    mstep mem cap (this, w, W) (this, w', add_mset a W)"
| m_wake: "h \<notin> allHandles w \<Longrightarrow> a \<in># W \<Longrightarrow>
    MirrorBuddyGroupMapper_acquireWait k a h w = Some (Some (r, w')) \<Longrightarrow>
    mstep mem cap (this, w, W) (this, w', W - {#a#})"
| m_release: "w_groups w a = Some g \<Longrightarrow> h \<in> handles g \<Longrightarrow> releaseAt a h w = Some w' \<Longrightarrow>
    mstep mem cap (this, w, W) (this, w', W)"
| m_base: "w_groups w a = Some g \<Longrightarrow>
    mstep mem cap (this, w, W)
      (this, w\<lparr>w_groups := (w_groups w)(a \<mapsto> MirrorBuddyGroup_setSeqNoBase g b)\<rparr>, W)"
| m_sync: "MirrorBuddyGroupMapper_syncGroupsUnlocked mem cap gs this w = Some (this', w') \<Longrightarrow>
    mstep mem cap (this, w, W) (this', w', W)"
| m_add: "MirrorBuddyGroupMapper_addGroup mem cap tm i p s False this w = (r, this', w') \<Longrightarrow>
    mstep mem cap (this, w, W) (this', w', W)"
| m_clear: "MirrorBuddyGroupMapper_clear this w = Some (this', w') \<Longrightarrow>
    mstep mem cap (this, w, W) (this', w', W)"
| m_caller: "(\<forall>h \<in> allHandles w. hm h = w_handles w h) \<Longrightarrow>
    mstep mem cap (this, w, W) (this, w\<lparr>w_handles := hm\<rparr>, W)"

text \<open>Replacing one group by another with the same id keeps the tree in order.\<close>

lemma mapper_inv_update:
  assumes "mapper_inv this w W"
    and "owned w' (mset_set (set_tree (mirrorBuddyGroups this)) + W')"
    and "\<And>b g. b \<in> set_tree (mirrorBuddyGroups this) \<Longrightarrow> w_groups w b = Some g \<Longrightarrow>
      \<exists>g'. w_groups w' b = Some g' \<and> groupID g' = groupID g"
  shows "mapper_inv this w' W'"
proof -
  let ?T = "mirrorBuddyGroups this"
  have own: "owned w (mset_set (set_tree ?T) + W)" and inv: "rb_inv (gkey w) ?T"
    using assms(1) by (simp_all add: mapper_inv_def)
  have "gkey w' b = gkey w b" if b: "b \<in> set_tree ?T" for b
  proof -
    obtain g where "w_groups w b = Some g" using owned_live [OF own, of b] b by auto
    then show ?thesis using assms(3) [OF b] by (fastforce simp: gkey_def)
  qed
  then show ?thesis
    using assms(2) inv rb_inv_cong [of ?T "gkey w'" "gkey w"] by (simp add: mapper_inv_def)
qed

lemma acquireAt_inv:
  assumes i: "mapper_inv this w W" and a: "w_groups w a = Some g" and h: "h \<notin> allHandles w"
    and q: "acquireAt v k a h w = Some (Some (r, w'))"
  shows "mapper_inv this w' W" and "\<exists>g'. w_groups w' a = Some g'"
proof -
  have own: "owned w (mset_set (set_tree (mirrorBuddyGroups this)) + W)" using i by (simp add: mapper_inv_def)
  note ao = acquireAt_owned [OF own a h q]
  show "mapper_inv this w' W"
  proof (rule mapper_inv_update [OF i ao(1)])
    fix b f assume "w_groups w b = Some f"
    then show "\<exists>g'. w_groups w' b = Some g' \<and> groupID g' = groupID f"
      using ao(2,3) a by (cases "b = a") (auto simp: ident_def)
  qed
  show "\<exists>g'. w_groups w' a = Some g'" using ao(2) by blast
qed

lemma about_id: "about w' b = about w b \<Longrightarrow> w_groups w b = Some g \<Longrightarrow>
    \<exists>g'. w_groups w' b = Some g' \<and> groupID g' = groupID g"
  using about_ident [of w' b w g] by (auto simp: ident_def)

lemma mapper_find_live:
  assumes "mapper_inv this w W" and "MirrorBuddyGroupMapper_find this w i = Some a"
  shows "\<exists>g. w_groups w a = Some g \<and> groupID g = i" and "a \<in> set_tree (mirrorBuddyGroups this)"
proof -
  have own: "owned w (mset_set (set_tree (mirrorBuddyGroups this)) + W)"
    and inv: "rb_inv (gkey w) (mirrorBuddyGroups this)"
    using assms(1) by (simp_all add: mapper_inv_def)
  show a: "a \<in> set_tree (mirrorBuddyGroups this)"
    using assms(2) by (simp add: MirrorBuddyGroupMapper_find_def integral.find_iff [OF inv])
  then obtain g where "w_groups w a = Some g" using owned_live [OF own, of a] by auto
  then show "\<exists>g. w_groups w a = Some g \<and> groupID g = i"
    using assms(2) by (auto simp: MirrorBuddyGroupMapper_find_def integral.find_iff [OF inv] gkey_def)
qed

lemma acquire_inv:
  assumes i: "mapper_inv this w W" and h: "h \<notin> allHandles w"
  shows "case MirrorBuddyGroupMapper_acquireSequenceNumber this j h w of
      None \<Rightarrow> False
    | Some (Returns r, w') \<Rightarrow> mapper_inv this w' W
    | Some (Waits a, w') \<Rightarrow> mapper_inv this w' (add_mset a W)"
proof (cases "MirrorBuddyGroupMapper_find this w j")
  case None
  then show ?thesis using i by (simp add: MirrorBuddyGroupMapper_acquireSequenceNumber_def)
next
  case (Some a)
  obtain g where a: "w_groups w a = Some g" using mapper_find_live(1) [OF i Some] by blast
  have own: "owned w (mset_set (set_tree (mirrorBuddyGroups this)) + W)" using i by (simp add: mapper_inv_def)
  obtain r w1 where q: "acquireAt False False a h w = Some (Some (r, w1))"
    using acquireAt_defined(1) [OF own a h, of False False] acquireAt_defined(2) [OF own a h, of False]
    by fastforce
  have i1: "mapper_inv this w1 W" "\<exists>g. w_groups w1 a = Some g" using acquireAt_inv [OF i a h q] by blast+
  then have own1: "owned w1 (mset_set (set_tree (mirrorBuddyGroups this)) + W)" by (simp add: mapper_inv_def)
  obtain w2 where w2: "getGroup a w1 = Some w2"
      "owned w2 (add_mset a (mset_set (set_tree (mirrorBuddyGroups this)) + W))" "about w2 = about w1"
    using getGroup_owned [OF own1] i1(2) by blast
  have "mapper_inv this w2 (add_mset a W)"
    by (rule mapper_inv_update [OF i1(1)]) (use w2(2,3) about_id [of w2 _ w1] in auto)
  then show ?thesis
    using Some q w2(1) i1(1)
    by (auto simp: MirrorBuddyGroupMapper_acquireSequenceNumber_def split: sum.splits)
qed

lemma wait_inv:
  assumes i: "mapper_inv this w W" and h: "h \<notin> allHandles w" and a: "a \<in># W"
  shows "case MirrorBuddyGroupMapper_acquireWait k a h w of
      None \<Rightarrow> False
    | Some None \<Rightarrow> \<not> k \<and> (\<forall>g. w_groups w a = Some g \<longrightarrow> slotsAvail g = 0)
    | Some (Some (r, w')) \<Rightarrow> mapper_inv this w' (W - {#a#})"
proof -
  have own: "owned w (mset_set (set_tree (mirrorBuddyGroups this)) + W)" using i by (simp add: mapper_inv_def)
  obtain g where g: "w_groups w a = Some g" using owned_live [OF own, of a] a by auto
  show ?thesis
  proof (cases "acquireAt True k a h w")
    case None
    then show ?thesis using acquireAt_defined(1) [OF own g h] by simp
  next
    case (Some o1)
    show ?thesis
    proof (cases o1)
      case None
      then have "\<not> (slotsAvail g > 0 \<or> k)"
        using Some acquireAt_defined(3) [OF own g h, of k True] by blast
      then show ?thesis using Some None g by (simp add: MirrorBuddyGroupMapper_acquireWait_def)
    next
      case (Some p)
      obtain r w1 where p: "p = (r, w1)" by (cases p)
      note q = \<open>acquireAt True k a h w = Some o1\<close> [unfolded Some p]
      have i1: "mapper_inv this w1 W" using acquireAt_inv(1) [OF i g h q] .
      then have own1: "owned w1 (mset_set (set_tree (mirrorBuddyGroups this)) + W)" by (simp add: mapper_inv_def)
      have diff: "mset_set (set_tree (mirrorBuddyGroups this)) + W - {#a#} =
          mset_set (set_tree (mirrorBuddyGroups this)) + (W - {#a#})"
        by (rule multiset_diff_union_assoc) (simp add: a)
      obtain w2 where w2: "putGroup a w1 = Some w2"
          "owned w2 (mset_set (set_tree (mirrorBuddyGroups this)) + (W - {#a#}))"
          "\<forall>b. b \<in># mset_set (set_tree (mirrorBuddyGroups this)) + (W - {#a#}) \<or> b \<noteq> a \<longrightarrow> about w2 b = about w1 b"
        using putGroup_owned [OF own1, of a] a unfolding diff by auto
      have "mapper_inv this w2 (W - {#a#})"
        by (rule mapper_inv_update [OF i1 w2(2)]) (use w2(3) about_id [of w2 _ w1] in auto)
      then show ?thesis using q w2(1) by (simp add: MirrorBuddyGroupMapper_acquireWait_def)
    qed
  qed
qed

lemma release_inv:
  assumes i: "mapper_inv this w W" and a: "w_groups w a = Some g" and h: "h \<in> handles g"
  shows "\<exists>w'. releaseAt a h w = Some w' \<and> mapper_inv this w' W
    \<and> (\<forall>g'. w_groups w' a = Some g' \<longrightarrow> slotsAvail g' > 0)"
proof -
  have own: "owned w (mset_set (set_tree (mirrorBuddyGroups this)) + W)" using i by (simp add: mapper_inv_def)
  obtain w' where r: "releaseAt a h w = Some w'" "owned w' (mset_set (set_tree (mirrorBuddyGroups this)) + W)"
      "\<forall>g'. w_groups w' a = Some g' \<longrightarrow> ident g' = ident g \<and> slotsAvail g' > 0"
      "\<forall>b. b \<noteq> a \<longrightarrow> w_groups w' b = w_groups w b"
    using releaseAt_owned [OF own a h] by blast
  have "mapper_inv this w' W"
  proof (rule mapper_inv_update [OF i r(2)])
    fix b f assume b: "b \<in> set_tree (mirrorBuddyGroups this)" and f: "w_groups w b = Some f"
    show "\<exists>g'. w_groups w' b = Some g' \<and> groupID g' = groupID f"
    proof (cases "b = a")
      case True
      then obtain g' where "w_groups w' a = Some g'" using owned_live [OF r(2), of a] b by auto
      with r(3) a f True show ?thesis by (simp add: ident_def)
    qed (use r(4) f in simp)
  qed
  with r(1,3) show ?thesis by blast
qed

lemma addGroup_cases:
  assumes "MirrorBuddyGroupMapper_addGroup mem cap tm i p s up this w = (r, this', w')"
  obtains (refused) "r \<noteq> FhgfsOpsErr_SUCCESS" "this' = this" "w' = w"
  | (added) a where "r = FhgfsOpsErr_SUCCESS" "i \<noteq> 0"
      "up \<or> MirrorBuddyGroupMapper_find this w i = None" "newGroup mem cap i p s w = (Some a, w')"
      "this' = (case rb_insert (gkey w') cmpId (mirrorBuddyGroups this) a of
         Some t \<Rightarrow> this\<lparr>mirrorBuddyGroups := t\<rparr> | None \<Rightarrow> this)"
  using assms newGroup_None(1) [of mem cap i p s w]
  unfolding MirrorBuddyGroupMapper_addGroup_def Let_def
  by (auto split: if_splits prod.splits option.splits)

lemma newGroup_gkey:
  assumes "owned w own" and "mem_ok mem" and "newGroup mem cap i p s w = (Some a, w')" and "b \<in># own"
  shows "gkey w' b = gkey w b"
proof -
  note g = newGroup_Some [OF assms(1-3)]
  have "b \<noteq> a" using owned_live [OF assms(1,4)] g(2) by auto
  then show ?thesis by (simp add: gkey_def g(4))
qed

lemma insert_new_group:
  assumes m: "mem_ok mem" and v: "mapper_inv this w W" and n: "newGroup mem cap i p s w = (Some a, w')"
  shows "rb_insert (gkey w') cmpId (mirrorBuddyGroups this) a = None \<longleftrightarrow>
      MirrorBuddyGroupMapper_find this w i \<noteq> None"
    and "rb_insert (gkey w') cmpId (mirrorBuddyGroups this) a = Some t \<Longrightarrow>
      mapper_inv (this\<lparr>mirrorBuddyGroups := t\<rparr>) w' W \<and>
      MirrorBuddyGroupMapper_find (this\<lparr>mirrorBuddyGroups := t\<rparr>) w' = (MirrorBuddyGroupMapper_find this w)(i \<mapsto> a)"
proof -
  let ?T = "mirrorBuddyGroups this"
  have own: "owned w (mset_set (set_tree ?T) + W)" and inv: "rb_inv (gkey w) ?T"
    using v by (simp_all add: mapper_inv_def)
  note g = newGroup_Some [OF own m n]
  have na: "a \<notin> set_tree ?T" using owned_live [OF own, of a] g(2) by auto
  have k: "gkey w' b = gkey w b" if "b \<in> set_tree ?T" for b
    using newGroup_gkey [OF own m n] that by simp
  have ka: "gkey w' a = i" using g(3) by (auto simp: gkey_def ident_def)
  have f: "rb_find (gkey w') cmpId ?T j = MirrorBuddyGroupMapper_find this w j" for j
    unfolding MirrorBuddyGroupMapper_find_def by (rule rb_find_cong) (rule k)
  have inv': "rb_inv (gkey w') ?T" using inv rb_inv_cong [of ?T "gkey w'" "gkey w"] k by auto
  show "rb_insert (gkey w') cmpId ?T a = None \<longleftrightarrow> MirrorBuddyGroupMapper_find this w i \<noteq> None"
    using integral.insert_None [of "gkey w'" ?T a] by (simp add: ka f)
  assume t: "rb_insert (gkey w') cmpId ?T a = Some t"
  have "rb_inv (gkey w') t" by (rule integral.insert_inv [OF inv' t])
  moreover have "mset_set (set_tree t) + W = add_mset a (mset_set (set_tree ?T) + W)"
    using integral.insert_set [OF t] na by simp
  ultimately have "mapper_inv (this\<lparr>mirrorBuddyGroups := t\<rparr>) w' W"
    using g(1) by (simp add: mapper_inv_def)
  moreover have "MirrorBuddyGroupMapper_find (this\<lparr>mirrorBuddyGroups := t\<rparr>) w' =
      (MirrorBuddyGroupMapper_find this w)(i \<mapsto> a)"
    using integral.find_insert [OF inv' t]
    by (simp add: MirrorBuddyGroupMapper_find_def ka f [unfolded MirrorBuddyGroupMapper_find_def] fun_eq_iff)
  ultimately show "mapper_inv (this\<lparr>mirrorBuddyGroups := t\<rparr>) w' W \<and>
      MirrorBuddyGroupMapper_find (this\<lparr>mirrorBuddyGroups := t\<rparr>) w' = (MirrorBuddyGroupMapper_find this w)(i \<mapsto> a)"
    by blast
qed

lemma addGroup_inv:
  assumes m: "mem_ok mem" and v: "mapper_inv this w W"
    and a: "MirrorBuddyGroupMapper_addGroup mem cap tm i p s False this w = (r, this', w')"
  shows "mapper_inv this' w' W"
  using a
proof (cases rule: addGroup_cases)
  case (added b)
  then obtain t where "rb_insert (gkey w') cmpId (mirrorBuddyGroups this) b = Some t"
    using insert_new_group(1) [OF m v added(4)] by auto
  then show ?thesis using insert_new_group(2) [OF m v added(4)] added(5) by simp
qed (use v in simp)

lemma base_inv:
  assumes v: "mapper_inv this w W" and a: "w_groups w a = Some g"
  shows "mapper_inv this (w\<lparr>w_groups := (w_groups w)(a \<mapsto> MirrorBuddyGroup_setSeqNoBase g b)\<rparr>) W"
proof -
  have own: "owned w (mset_set (set_tree (mirrorBuddyGroups this)) + W)" using v by (simp add: mapper_inv_def)
  let ?g = "MirrorBuddyGroup_setSeqNoBase g b" and ?w = "w\<lparr>w_groups := (w_groups w)(a \<mapsto> MirrorBuddyGroup_setSeqNoBase g b)\<rparr>"
  note d = ownedD [OF own a]
  have same: "inflight ?g = inflight g" "handles ?g = handles g" "refs ?g = refs g" "groupID ?g = groupID g"
      "group_ok ?g hm = group_ok g hm" for hm
    by (simp_all add: MirrorBuddyGroup_setSeqNoBase_def inflight_def handles_def group_ok_def capacity_def)
  have st: "?w = (storeGroup a ?g w)\<lparr>w_handles := w_handles w\<rparr>" using d(2) by (simp add: storeGroup_def same)
  have "owned ?w (mset_set (set_tree (mirrorBuddyGroups this)) + W)"
    unfolding st using d by (intro owned_store [OF own a, where H = "{}"]) (simp_all add: same)
  then show ?thesis
    by (rule mapper_inv_update [OF v]) (use a same in auto)
qed

lemma caller_inv:
  assumes v: "mapper_inv this w W" and h: "\<forall>h \<in> allHandles w. hm h = w_handles w h"
  shows "mapper_inv this (w\<lparr>w_handles := hm\<rparr>) W"
proof -
  have own: "owned w (mset_set (set_tree (mirrorBuddyGroups this)) + W)" using v by (simp add: mapper_inv_def)
  have "group_ok g hm" if "w_groups w a = Some g" for a g
    using group_ok_hm [OF ownedD(4) [OF own that], of hm] h that by (auto simp: allHandles_def)
  then have "entry_ok (w\<lparr>w_handles := hm\<rparr>) own a" if "entry_ok w own a" for own a
    using that by (auto simp: entry_ok_def split: option.splits)
  then have "owned (w\<lparr>w_handles := hm\<rparr>) (mset_set (set_tree (mirrorBuddyGroups this)) + W)"
    using own by (simp add: owned_def)
  then show ?thesis by (rule mapper_inv_update [OF v]) auto
qed

lemma mstep_inv:
  assumes "mem_ok mem" and "mstep mem cap (this, w, W) (this', w', W')" and v: "mapper_inv this w W"
  shows "mapper_inv this' w' W'"
  using assms(2)
proof cases
  case (m_acquire h i r)
  then show ?thesis using acquire_inv [OF v m_acquire(3), of i] by simp
next
  case (m_block h i a)
  then show ?thesis using acquire_inv [OF v m_block(3), of i] by simp
next
  case (m_wake h a k r)
  then show ?thesis using wait_inv [OF v m_wake(3,4), of k] by simp
next
  case (m_release a g h)
  then show ?thesis using release_inv [OF v m_release(3,4)] by auto
next
  case (m_base a g b)
  then show ?thesis using base_inv [OF v] by simp
next
  case (m_sync gs)
  then show ?thesis using syncGroups_ok [OF assms(1) v, of cap gs] by simp
next
  case (m_add tm i p s r)
  then show ?thesis using addGroup_inv [OF assms(1) v] by blast
next
  case m_clear
  then show ?thesis
    using mapper_inv_clear [of w this W] v by (auto simp: mapper_inv_def)
next
  case (m_caller hm)
  then show ?thesis using caller_inv [OF v] by blast
qed

lemma msteps_inv:
  assumes "mem_ok mem" and "(mstep mem cap)\<^sup>*\<^sup>* st st'" and "mapper_inv (fst st) (fst (snd st)) (snd (snd st))"
  shows "mapper_inv (fst st') (fst (snd st')) (snd (snd st'))"
  using assms(2,3)
proof (induction rule: rtranclp_induct)
  case (step y z)
  then show ?case using mstep_inv [OF assms(1), of cap "fst y" _ _ "fst z"] by (metis prod.collapse)
qed simp

definition emptyWorld :: World where
  "emptyWorld = \<lparr>w_groups = (\<lambda>_. None), w_next = 0, w_handles = (\<lambda>_. None)\<rparr>"

lemma empty_inv: "mapper_inv MirrorBuddyGroupMapper_init emptyWorld {#}"
  by (simp add: mapper_inv_def MirrorBuddyGroupMapper_init_def emptyWorld_def owned_def entry_ok_def)

section \<open>Properties\<close>


definition demoMem :: groupMem where
  "demoMem = (\<lambda>_. (demoSlots, demoNums))"

lemma demoMem_ok: "mem_ok demoMem" "mem_avail demoMem 8"
  by (simp_all add: mem_ok_def mem_avail_def demoMem_def demoSlots_def demoNums_def)


text \<open>C8: A caller that waits for a slot of a full group is not stuck: in every reachable state, once any
  number of that group is released, the waiting acquisition returns instead of sleeping on.\<close>

theorem waiting_caller_wakes:
  assumes "mem_ok mem"
    and "(mstep mem cap)\<^sup>*\<^sup>* (MirrorBuddyGroupMapper_init, emptyWorld, {#}) (this, w, W)"
    and "a \<in># W" and "w_groups w a = Some g" and "h \<in> handles g"
  shows "\<exists>w'. releaseAt a h w = Some w' \<and> mstep mem cap (this, w, W) (this, w', W)
    \<and> (\<forall>h'. h' \<notin> allHandles w' \<longrightarrow>
        (\<exists>r w''. MirrorBuddyGroupMapper_acquireWait False a h' w' = Some (Some (r, w''))
          \<and> mstep mem cap (this, w', W) (this, w'', W - {#a#})))"
proof -
  have v: "mapper_inv this w W" using msteps_inv [OF assms(1,2)] empty_inv by simp
  obtain w' where w': "releaseAt a h w = Some w'" "mapper_inv this w' W"
      "\<forall>g'. w_groups w' a = Some g' \<longrightarrow> slotsAvail g' > 0"
    using release_inv [OF v assms(4,5)] by blast
  have own: "owned w' (mset_set (set_tree (mirrorBuddyGroups this)) + W)" using w'(2) by (simp add: mapper_inv_def)
  obtain g' where g': "w_groups w' a = Some g'" using owned_live [OF own, of a] assms(3) by auto
  have "\<exists>r w''. MirrorBuddyGroupMapper_acquireWait False a h' w' = Some (Some (r, w''))" if "h' \<notin> allHandles w'" for h'
    using wait_inv [OF w'(2) that assms(3), of False] w'(3) g' by (auto split: option.splits)
  then have "\<exists>r w''. MirrorBuddyGroupMapper_acquireWait False a h' w' = Some (Some (r, w''))
      \<and> mstep mem cap (this, w', W) (this, w'', W - {#a#})" if "h' \<notin> allHandles w'" for h'
    using m_wake [OF that assms(3)] that by metis
  then show ?thesis using w'(1) m_release [OF assms(4,5) w'(1)] by metis
qed

lemma find_SomeD: "find P xs = Some x \<Longrightarrow> x \<in> set xs \<and> P x"
  by (induction xs) (auto split: if_splits)

text \<open>C9: After synchronising with a list of group mappings, a group id is mapped to the targets of its
  last mapping in the list and to 0 when the list has none; a group that was known before stays at its
  address with its sequence numbers when the list names each group once.\<close>

theorem syncGroups_lookup:
  assumes "mem_ok mem" and "mapper_inv this w W"
    and "MirrorBuddyGroupMapper_syncGroupsUnlocked mem cap gs this w = Some (this', w')"
  shows "mapper_inv this' w' W
    \<and> (\<forall>i. (MirrorBuddyGroupMapper_getPrimaryTargetID this' w' i,
            MirrorBuddyGroupMapper_getSecondaryTargetID this' w' i) =
          (case find (\<lambda>m. bg_groupID m = i) (rev gs) of
             None \<Rightarrow> (0, 0) | Some m \<Rightarrow> (bg_primaryTargetID m, bg_secondaryTargetID m)))
    \<and> (distinct (map bg_groupID gs) \<longrightarrow>
        (\<forall>i a g. MirrorBuddyGroupMapper_find this w i = Some a \<and> w_groups w a = Some g \<and> i \<in> bg_groupID ` set gs \<longrightarrow>
          MirrorBuddyGroupMapper_find this' w' i = Some a \<and>
          (\<exists>g'. w_groups w' a = Some g' \<and> absGroup g' = absGroup g)))"
proof -
  obtain new v where n: "mapper_inv this' w' W" "list_all2 (matches v) new gs" "survive w v"
      "mirrorBuddyGroups this' = foldl (\<lambda>t x. fst (rb_insertOrReplace (gkey v) cmpId t x)) Leaf new"
      "\<forall>b \<in> set_tree (mirrorBuddyGroups this'). about w' b = about v b"
      "\<forall>a \<in> set_tree (mirrorBuddyGroups this). gkey w a \<in> bg_groupID ` set gs \<longrightarrow> a \<in> set new"
    using syncGroups_ok [OF assms(1,2), of cap gs] unfolding assms(3) by auto
  note f = sync_find [OF n(2,4,5)]
  have at: "\<exists>g'. w_groups w' a = Some g' \<and> ident g' = ident g \<and> absGroup g' = absGroup g"
    if "MirrorBuddyGroupMapper_find this' w' i = Some a" "w_groups v a = Some g" for i a g
    using about_ident [of w' a v g] n(5) mapper_find_live(2) [OF n(1) that(1)] that(2) by blast
  have "(MirrorBuddyGroupMapper_getPrimaryTargetID this' w' i,
            MirrorBuddyGroupMapper_getSecondaryTargetID this' w' i) =
          (case find (\<lambda>m. bg_groupID m = i) (rev gs) of
             None \<Rightarrow> (0, 0) | Some m \<Rightarrow> (bg_primaryTargetID m, bg_secondaryTargetID m))" for i
  proof (cases "find (\<lambda>m. bg_groupID m = i) (rev gs)")
    case None
    then have "MirrorBuddyGroupMapper_find this' w' i = None" using f [of i] by (simp add: option_rel_Some2)
    with None show ?thesis
      by (simp add: MirrorBuddyGroupMapper_getPrimaryTargetID_def MirrorBuddyGroupMapper_getSecondaryTargetID_def)
  next
    case (Some m)
    then obtain a g where a: "MirrorBuddyGroupMapper_find this' w' i = Some a" "w_groups v a = Some g"
        "ident g = (bg_groupID m, bg_primaryTargetID m, bg_secondaryTargetID m)"
      using f [of i] by (auto simp: option_rel_Some2 matches_def)
    obtain g' where "w_groups w' a = Some g'" "ident g' = ident g" using at [OF a(1,2)] by blast
    then show ?thesis using getTargets_ident [OF a(1)] Some a(3) by simp
  qed
  moreover have "MirrorBuddyGroupMapper_find this' w' i = Some a \<and>
      (\<exists>g'. w_groups w' a = Some g' \<and> absGroup g' = absGroup g)"
    if d: "distinct (map bg_groupID gs)" and a: "MirrorBuddyGroupMapper_find this w i = Some a"
      "w_groups w a = Some g" "i \<in> bg_groupID ` set gs" for i a g
  proof -
    have ka: "gkey w a = i" "a \<in> set_tree (mirrorBuddyGroups this)"
      using mapper_find_live [OF assms(2) a(1)] a(2) by (auto simp: gkey_def)
    then have an: "a \<in> set new" using n(6) a(3) by blast
    obtain g1 where g1: "w_groups v a = Some g1" "groupID g1 = groupID g" "absGroup g1 = absGroup g"
      using n(3) a(2) unfolding survive_def by blast
    have kv: "gkey v a = i" using survive_gkey [OF n(3), of a] a(2) ka(1) by simp
    have keys: "map (gkey v) new = map bg_groupID gs"
      using n(2) by (induction rule: list_all2_induct) (auto simp: matches_def gkey_def ident_def)
    then have inj: "inj_on (gkey v) (set new)" using d by (metis distinct_map)
    have "find (\<lambda>b. gkey v b = i) (rev new) = Some a"
    proof (cases "find (\<lambda>b. gkey v b = i) (rev new)")
      case None
      then show ?thesis using an kv by (auto simp: find_None_iff)
    next
      case (Some b)
      then have "b \<in> set new" "gkey v b = i" by (auto dest: find_SomeD)
      then show ?thesis using Some inj_onD [OF inj, of b a] an kv by simp
    qed
    then show ?thesis using f(1) [of i] at [of i a g1] g1 by auto
  qed
  ultimately show ?thesis using n(1) by blast
qed

text \<open>A group of one slot: one number in flight, and a second caller that waits.\<close>

definition oneGroup :: "u64 \<Rightarrow> nat \<Rightarrow> slots \<Rightarrow> u32 \<Rightarrow> nat \<Rightarrow> MirrorBuddyGroup" where
  "oneGroup q free xs n r = \<lparr>groupID = 1, firstTargetID = 2, secondTargetID = 3, sequence = q, slotsAvail = free,
     seqNoInFlight = xs, inFlightSize = n, inFlightCapacity = 1, finishedSeqNums = [0],
     firstFinishedIndex = 0, finishedCount = 0, refs = r\<rparr>"

definition oneWorld :: "MirrorBuddyGroup \<Rightarrow> hmem \<Rightarrow> World" where
  "oneWorld g hm = \<lparr>w_groups = [0 \<mapsto> g], w_next = 1, w_handles = hm\<rparr>"

definition oneMapper :: MirrorBuddyGroupMapper where
  "oneMapper = \<lparr>mirrorBuddyGroups = Node Leaf 0 Leaf\<rparr>"

abbreviation "emptySlot \<equiv> \<lparr>pSelf = 0, seqValue = 0\<rparr>"
abbreviation "takenSlot \<equiv> \<lparr>pSelf = 10, seqValue = 6\<rparr>"

lemma one_handles: "allHandles (oneWorld g hm) = handles g"
  by (auto simp: allHandles_def oneWorld_def)

lemma one_add:
  "mstep demoMem 1 (MirrorBuddyGroupMapper_init, emptyWorld, W)
     (oneMapper, oneWorld (oneGroup 0 1 [emptySlot] 0 1) (\<lambda>_. None), W)"
  by (rule m_add [of _ _ None 1 2 3 _ _ 0])
    (simp add: MirrorBuddyGroupMapper_addGroup_def MirrorBuddyGroupMapper_init_def oneMapper_def oneGroup_def
        oneWorld_def MirrorBuddyGroupMapper_find_def MirrorBuddyGroupMapper_getBuddyGroupIDUnlocked_def
        newGroup_def MirrorBuddyGroup_constructFromTargetIDs_def demoMem_def demoSlots_def demoNums_def
        emptyWorld_def)

lemma one_base:
  "mstep mem cap (oneMapper, oneWorld (oneGroup 0 1 xs n r) hm, W) (oneMapper, oneWorld (oneGroup 5 1 xs n r) hm, W)"
  using m_base [of "oneWorld (oneGroup 0 1 xs n r) hm" 0 _ mem cap oneMapper W 5]
  by (simp add: oneWorld_def oneGroup_def MirrorBuddyGroup_setSeqNoBase_def)

lemma one_acquire:
  "mstep mem cap (oneMapper, oneWorld (oneGroup 5 1 [emptySlot] 0 1) (\<lambda>_. None), W)
     (oneMapper, oneWorld (oneGroup 6 0 [takenSlot] 1 (Suc (Suc 0))) [10 \<mapsto> 0], W)"
proof (rule m_acquire)
  show "10 \<notin> allHandles (oneWorld (oneGroup 5 1 [emptySlot] 0 1) (\<lambda>_. None))"
    by (simp add: one_handles handles_def inflight_def oneGroup_def)
  show "MirrorBuddyGroupMapper_acquireSequenceNumber oneMapper 1 10
      (oneWorld (oneGroup 5 1 [emptySlot] 0 1) (\<lambda>_. None)) =
    Some (Returns (Inr (0, Some \<lparr>aq_seqNo = 6, aq_acknowledgeSeq = 5, aq_isSelective = False\<rparr>)),
      oneWorld (oneGroup 6 0 [takenSlot] 1 (Suc (Suc 0))) [10 \<mapsto> 0])"
    by (simp add: MirrorBuddyGroupMapper_acquireSequenceNumber_def MirrorBuddyGroupMapper_find_def oneMapper_def
        oneWorld_def oneGroup_def gkey_def CONGFS_RB_KEYCMP_LT_INTEGRAL_def acquireAt_def
        MirrorBuddyGroup_acquireSequenceNumber_def takeSlot_def acquireLocked_def pushInFlight_def nextAck_def
        storeGroup_def replyOf_def)
qed

lemma one_block:
  "mstep mem cap (oneMapper, oneWorld (oneGroup 6 0 [takenSlot] 1 (Suc (Suc 0))) [10 \<mapsto> 0], W)
     (oneMapper, oneWorld (oneGroup 6 0 [takenSlot] 1 (Suc (Suc (Suc 0)))) [10 \<mapsto> 0], add_mset 0 W)"
proof (rule m_block)
  show "11 \<notin> allHandles (oneWorld (oneGroup 6 0 [takenSlot] 1 (Suc (Suc 0))) [10 \<mapsto> 0])"
    by (simp add: one_handles handles_def inflight_def oneGroup_def)
  show "MirrorBuddyGroupMapper_acquireSequenceNumber oneMapper 1 11
      (oneWorld (oneGroup 6 0 [takenSlot] 1 (Suc (Suc 0))) [10 \<mapsto> 0]) =
    Some (Waits 0, oneWorld (oneGroup 6 0 [takenSlot] 1 (Suc (Suc (Suc 0)))) [10 \<mapsto> 0])"
    by (simp add: MirrorBuddyGroupMapper_acquireSequenceNumber_def MirrorBuddyGroupMapper_find_def oneMapper_def
        oneWorld_def oneGroup_def gkey_def CONGFS_RB_KEYCMP_LT_INTEGRAL_def acquireAt_def getGroup_def
        MirrorBuddyGroup_acquireSequenceNumber_def takeSlot_def storeGroup_def replyOf_def)
qed

lemma one_run:
  "(mstep demoMem 1)\<^sup>*\<^sup>* (MirrorBuddyGroupMapper_init, emptyWorld, {#})
     (oneMapper, oneWorld (oneGroup 6 0 [takenSlot] 1 (Suc (Suc (Suc 0)))) [10 \<mapsto> 0], {#0#})"
  using one_add [of "{#}"] one_base one_acquire one_block [of _ _ "{#}"]
  by (meson rtranclp.rtrancl_into_rtrancl rtranclp.rtrancl_refl)

theorem waiting_caller_wakes_witness:
  "\<exists>w'. releaseAt 0 10 (oneWorld (oneGroup 6 0 [takenSlot] 1 (Suc (Suc (Suc 0)))) [10 \<mapsto> 0]) = Some w'
    \<and> (\<forall>h'. h' \<notin> allHandles w' \<longrightarrow>
        (\<exists>r w''. MirrorBuddyGroupMapper_acquireWait False 0 h' w' = Some (Some (r, w''))))"
proof -
  have "w_groups (oneWorld g hm) 0 = Some g" for g hm by (simp add: oneWorld_def)
  moreover have "10 \<in> handles (oneGroup 6 0 [takenSlot] 1 (Suc (Suc (Suc 0))))"
    by (simp add: handles_def inflight_def oneGroup_def)
  ultimately show ?thesis
    using waiting_caller_wakes [OF demoMem_ok(1) one_run, of 0 _ 10] by simp metis
qed

theorem syncGroups_lookup_witness:
  "\<exists>this w. MirrorBuddyGroupMapper_syncGroupsUnlocked demoMem 8
        [\<lparr>bg_groupID = 1, bg_primaryTargetID = 5, bg_secondaryTargetID = 7\<rparr>]
        MirrorBuddyGroupMapper_init emptyWorld = Some (this, w)
     \<and> MirrorBuddyGroupMapper_getPrimaryTargetID this w 1 = 5
     \<and> MirrorBuddyGroupMapper_getSecondaryTargetID this w 1 = 7
     \<and> MirrorBuddyGroupMapper_getPrimaryTargetID this w 2 = 0"
proof -
  let ?gs = "[\<lparr>bg_groupID = 1, bg_primaryTargetID = 5, bg_secondaryTargetID = 7\<rparr>] :: BuddyGroupMapping list"
  obtain this w where s: "MirrorBuddyGroupMapper_syncGroupsUnlocked demoMem 8 ?gs
        MirrorBuddyGroupMapper_init emptyWorld = Some (this, w)"
    using syncGroups_ok [OF demoMem_ok(1) empty_inv, of 8 ?gs] demoMem_ok(2) by (auto split: option.splits)
  have t: "(MirrorBuddyGroupMapper_getPrimaryTargetID this w i,
            MirrorBuddyGroupMapper_getSecondaryTargetID this w i) =
          (case find (\<lambda>m. bg_groupID m = i) (rev ?gs) of
             None \<Rightarrow> (0, 0) | Some m \<Rightarrow> (bg_primaryTargetID m, bg_secondaryTargetID m))" for i
    using syncGroups_lookup [OF demoMem_ok(1) empty_inv s] by blast
  show ?thesis using s t [of 1] t [of 2] by auto
qed





end
