(* ===== verification/MessageFactory.thy ===== *)
theory MessageFactory
  imports NetMessages Striping BuddyGroupMapper
begin

text \<open>
  The messages the client receives: the classes of \<^verbatim>\<open>common/net/message\<close> with a payload reader, and
  \<^verbatim>\<open>net/message/NetMessageFactory.c\<close>, which reads a header, constructs the class for its type and lets that
  class read the payload. Pointers into the receive buffer are positions, except for strings, which
  are the characters found there. A field that the payload does not carry is \<^const>\<open>None\<close>.
\<close>

section \<open>Payload readers\<close>

text \<open>A part of a payload that is present only if a flag says so.\<close>

definition readIf ::
    "bool \<Rightarrow> (byte list \<Rightarrow> DeserializeCtx \<Rightarrow> ('a \<times> DeserializeCtx) dres) \<Rightarrow>
     byte list \<Rightarrow> DeserializeCtx \<Rightarrow> ('a option \<times> DeserializeCtx) dres" where
  "readIf present dec buf ctx =
     (if present then dbind (dec buf ctx) (\<lambda>(x, ctx). Done (Some x, ctx)) else Done (None, ctx))"

text \<open>One iteration of the loop over a list of nodes; the fields are checked and dropped.\<close>

definition nodePreprocess :: "byte list \<Rightarrow> DeserializeCtx \<Rightarrow> (unit \<times> DeserializeCtx) dres" where
  "nodePreprocess buf ctx =
     dbind (Serialization_deserializeStr buf ctx) (\<lambda>(_, ctx).
     dbind (Serialization_deserializeNicListPreprocess buf ctx) (\<lambda>(_, ctx).
     dbind (NumNodeID_deserialize buf ctx) (\<lambda>(_, ctx).
     dbind (Serialization_deserializeUShort buf ctx) (\<lambda>(_, ctx).
     dbind (Serialization_deserializeUShort buf ctx) (\<lambda>(_, ctx).
     dbind (Serialization_deserializeChar buf ctx) (\<lambda>(_, ctx). Done ((), ctx)))))))"

fun nodeListLoop :: "nat \<Rightarrow> byte list \<Rightarrow> DeserializeCtx \<Rightarrow> (unit \<times> DeserializeCtx) dres" where
  "nodeListLoop 0 buf ctx = Done ((), ctx)"
| "nodeListLoop (Suc n) buf ctx = dbind (nodePreprocess buf ctx) (\<lambda>(_, ctx). nodeListLoop n buf ctx)"

text \<open>The raw list of nodes has no length of its own.\<close>

record RawNodeList =
  rn_data :: u64
  rn_elemCount :: u32

definition Serialization_deserializeNodeListPreprocess ::
    "byte list \<Rightarrow> DeserializeCtx \<Rightarrow> (RawNodeList \<times> DeserializeCtx) dres" where
  "Serialization_deserializeNodeListPreprocess buf ctx =
     dbind (Serialization_deserializeUInt buf ctx) (\<lambda>(elemCount, ctx).
     dbind (nodeListLoop (unat elemCount) buf ctx) (\<lambda>(_, ctx').
     Done (\<lparr>rn_data = d_pos ctx, rn_elemCount = elemCount\<rparr>, ctx')))"

record GetHostByNameRespMsg =
  gh_hostAddrLen :: u32
  gh_hostAddr :: "byte list"

definition GetHostByNameRespMsg_deserializePayload ::
    "byte list \<Rightarrow> DeserializeCtx \<Rightarrow> (GetHostByNameRespMsg \<times> DeserializeCtx) dres" where
  "GetHostByNameRespMsg_deserializePayload buf ctx =
     dbind (recvStr buf ctx) (\<lambda>((hostAddrLen, hostAddr), ctx).
     Done (\<lparr>gh_hostAddrLen = hostAddrLen, gh_hostAddr = hostAddr\<rparr>, ctx))"

record GetTargetMappingsRespMsg =
  gm_mappings :: "TargetMapping list"

definition GetTargetMappingsRespMsg_deserializePayload ::
    "(nat \<Rightarrow> bool) \<Rightarrow> byte list \<Rightarrow> DeserializeCtx \<Rightarrow> (GetTargetMappingsRespMsg \<times> DeserializeCtx) dres" where
  "GetTargetMappingsRespMsg_deserializePayload alloc buf ctx =
     dbind (TargetMappingList_deserialize alloc [] buf ctx) (\<lambda>(mappings, ctx).
     Done (\<lparr>gm_mappings = mappings\<rparr>, ctx))"

record RegisterNodeRespMsg =
  rr_nodeNumID :: NumNodeID

definition RegisterNodeRespMsg_deserializePayload ::
    "byte list \<Rightarrow> DeserializeCtx \<Rightarrow> (RegisterNodeRespMsg \<times> DeserializeCtx) dres" where
  "RegisterNodeRespMsg_deserializePayload buf ctx =
     dbind (NumNodeID_deserialize buf ctx) (\<lambda>(nodeNumID, ctx).
     Done (\<lparr>rr_nodeNumID = nodeNumID\<rparr>, ctx))"

record GetStatesAndBuddyGroupsRespMsg =
  gs_groups :: "BuddyGroupMapping list"
  gs_states :: "TargetStateMapping list"

definition GetStatesAndBuddyGroupsRespMsg_deserializePayload ::
    "(nat \<Rightarrow> bool) \<Rightarrow> byte list \<Rightarrow> DeserializeCtx \<Rightarrow> (GetStatesAndBuddyGroupsRespMsg \<times> DeserializeCtx) dres" where
  "GetStatesAndBuddyGroupsRespMsg_deserializePayload alloc buf ctx =
     dbind (BuddyGroupMappingList_deserialize alloc [] buf ctx) (\<lambda>(groups, ctx).
     dbind (TargetStateMappingList_deserialize alloc [] buf ctx) (\<lambda>(states, ctx).
     Done (\<lparr>gs_groups = groups, gs_states = states\<rparr>, ctx)))"

record GetNodesRespMsg =
  gn_rootNumID :: NumNodeID
  gn_rootIsBuddyMirrored :: bool
  gn_rawNodeList :: RawNodeList

definition GetNodesRespMsg_deserializePayload ::
    "byte list \<Rightarrow> DeserializeCtx \<Rightarrow> (GetNodesRespMsg \<times> DeserializeCtx) dres" where
  "GetNodesRespMsg_deserializePayload buf ctx =
     dbind (Serialization_deserializeNodeListPreprocess buf ctx) (\<lambda>(rawNodeList, ctx).
     dbind (NumNodeID_deserialize buf ctx) (\<lambda>(rootNumID, ctx).
     dbind (Serialization_deserializeBool buf ctx) (\<lambda>(rootIsBuddyMirrored, ctx).
     Done (\<lparr>gn_rootNumID = rootNumID, gn_rootIsBuddyMirrored = rootIsBuddyMirrored, gn_rawNodeList = rawNodeList\<rparr>, ctx))))"

record GetFileVersionRespMsg =
  fv_result :: u32
  fv_version :: u64

definition GetFileVersionRespMsg_deserializePayload ::
    "byte list \<Rightarrow> DeserializeCtx \<Rightarrow> (GetFileVersionRespMsg \<times> DeserializeCtx) dres" where
  "GetFileVersionRespMsg_deserializePayload buf ctx =
     dbind (Serialization_deserializeInt buf ctx) (\<lambda>(result, ctx).
     dbind (Serialization_deserializeUInt64 buf ctx) (\<lambda>(version, ctx).
     Done (\<lparr>fv_result = result, fv_version = version\<rparr>, ctx)))"

record OpenFileRespMsg =
  ofr_result :: u32
  ofr_fileHandleIDLen :: u32
  ofr_fileHandleID :: "byte list"
  ofr_pathInfo :: PathInfo
  ofr_fileVersion :: u64
  ofr_patternStart :: u64
  ofr_patternLength :: u32

definition OpenFileRespMsg_deserializePayload ::
    "byte list \<Rightarrow> DeserializeCtx \<Rightarrow> (OpenFileRespMsg \<times> DeserializeCtx) dres" where
  "OpenFileRespMsg_deserializePayload buf ctx =
     dbind (Serialization_deserializeInt buf ctx) (\<lambda>(result, ctx).
     dbind (recvStrAlign4 buf ctx) (\<lambda>((fileHandleIDLen, fileHandleID), ctx).
     dbind (PathInfo_deserialize buf ctx) (\<lambda>(pathInfo, ctx).
     dbind (StripePattern_deserializePatternPreprocess buf ctx) (\<lambda>((patternStart, patternLength), ctx).
     dbind (Serialization_deserializeUInt64 buf ctx) (\<lambda>(fileVersion, ctx).
     Done (\<lparr>ofr_result = result, ofr_fileHandleIDLen = fileHandleIDLen, ofr_fileHandleID = fileHandleID,
        ofr_pathInfo = pathInfo, ofr_fileVersion = fileVersion, ofr_patternStart = patternStart,
        ofr_patternLength = patternLength\<rparr>, ctx))))))"

record ListDirFromOffsetRespMsg =
  ldr_result :: u32
  ldr_newServerOffset :: u64
  ldr_namesList :: RawList
  ldr_entryTypesList :: RawList
  ldr_entryIDsList :: RawList
  ldr_serverOffsetsList :: RawList

definition ListDirFromOffsetRespMsg_deserializePayload ::
    "byte list \<Rightarrow> DeserializeCtx \<Rightarrow> (ListDirFromOffsetRespMsg \<times> DeserializeCtx) dres" where
  "ListDirFromOffsetRespMsg_deserializePayload buf ctx =
     dbind (Serialization_deserializeInt64 buf ctx) (\<lambda>(newServerOffset, ctx).
     dbind (Serialization_deserializeInt64CpyVecPreprocess buf ctx) (\<lambda>(serverOffsetsList, ctx).
     dbind (Serialization_deserializeInt buf ctx) (\<lambda>(result, ctx).
     dbind (Serialization_deserializeUInt8VecPreprocess buf ctx) (\<lambda>(entryTypesList, ctx).
     dbind (Serialization_deserializeStrCpyVecPreprocess buf ctx) (\<lambda>(entryIDsList, ctx).
     dbind (Serialization_deserializeStrCpyVecPreprocess buf ctx) (\<lambda>(namesList, ctx).
     if r_elemCount entryTypesList \<noteq> r_elemCount namesList \<or> r_elemCount entryTypesList \<noteq> r_elemCount entryIDsList
          \<or> r_elemCount entryTypesList \<noteq> r_elemCount serverOffsetsList then Refused
     else Done (\<lparr>ldr_result = result, ldr_newServerOffset = newServerOffset, ldr_namesList = namesList,
        ldr_entryTypesList = entryTypesList, ldr_entryIDsList = entryIDsList, ldr_serverOffsetsList =
        serverOffsetsList\<rparr>, ctx)))))))"

record StatStoragePathRespMsg =
  ssp_result :: u32
  ssp_sizeTotal :: u64
  ssp_sizeFree :: u64
  ssp_inodesTotal :: u64
  ssp_inodesFree :: u64

definition StatStoragePathRespMsg_deserializePayload ::
    "byte list \<Rightarrow> DeserializeCtx \<Rightarrow> (StatStoragePathRespMsg \<times> DeserializeCtx) dres" where
  "StatStoragePathRespMsg_deserializePayload buf ctx =
     dbind (Serialization_deserializeInt buf ctx) (\<lambda>(result, ctx).
     dbind (Serialization_deserializeInt64 buf ctx) (\<lambda>(sizeTotal, ctx).
     dbind (Serialization_deserializeInt64 buf ctx) (\<lambda>(sizeFree, ctx).
     dbind (Serialization_deserializeInt64 buf ctx) (\<lambda>(inodesTotal, ctx).
     dbind (Serialization_deserializeInt64 buf ctx) (\<lambda>(inodesFree, ctx).
     Done (\<lparr>ssp_result = result, ssp_sizeTotal = sizeTotal, ssp_sizeFree = sizeFree, ssp_inodesTotal =
        inodesTotal, ssp_inodesFree = inodesFree\<rparr>, ctx))))))"

record GetXAttrRespMsg =
  gxr_valueBufLen :: u32
  gxr_valueBuf :: u64
  gxr_size :: u32
  gxr_returnCode :: u32

definition GetXAttrRespMsg_deserializePayload ::
    "byte list \<Rightarrow> DeserializeCtx \<Rightarrow> (GetXAttrRespMsg \<times> DeserializeCtx) dres" where
  "GetXAttrRespMsg_deserializePayload buf ctx =
     dbind (Serialization_deserializeCharArray buf ctx) (\<lambda>((valueBufLen, valueBuf), ctx).
     dbind (Serialization_deserializeInt buf ctx) (\<lambda>(sz, ctx).
     dbind (Serialization_deserializeInt buf ctx) (\<lambda>(returnCode, ctx).
     Done (\<lparr>gxr_valueBufLen = valueBufLen, gxr_valueBuf = valueBuf, gxr_size = sz, gxr_returnCode = returnCode\<rparr>, ctx))))"

record ListXAttrRespMsg =
  lxr_valueElemNum :: u32
  lxr_valueBuf :: u64
  lxr_size :: u32
  lxr_returnCode :: u32

definition ListXAttrRespMsg_deserializePayload ::
    "byte list \<Rightarrow> DeserializeCtx \<Rightarrow> (ListXAttrRespMsg \<times> DeserializeCtx) dres" where
  "ListXAttrRespMsg_deserializePayload buf ctx =
     dbind (Serialization_deserializeStrCpyVecPreprocess buf ctx) (\<lambda>(valueField, ctx).
     dbind (Serialization_deserializeInt buf ctx) (\<lambda>(sz, ctx).
     dbind (Serialization_deserializeInt buf ctx) (\<lambda>(returnCode, ctx).
     Done (\<lparr>lxr_valueElemNum = r_elemCount valueField, lxr_valueBuf = r_data valueField, lxr_size = sz,
        lxr_returnCode = returnCode\<rparr>, ctx))))"

record StatRespMsg =
  sr_result :: u32
  sr_statData :: StatData
  sr_parentEntryID :: "byte list option"
  sr_parentNodeID :: "NumNodeID option"

definition StatRespMsg_deserializePayload ::
    "NetMessageHeader \<Rightarrow> byte list \<Rightarrow> DeserializeCtx \<Rightarrow> (StatRespMsg \<times> DeserializeCtx) dres" where
  "StatRespMsg_deserializePayload header buf ctx =
     dbind (Serialization_deserializeInt buf ctx) (\<lambda>(result, ctx).
     dbind (StatData_deserialize buf ctx) (\<lambda>(statData, ctx).
     dbind (readIf (NetMessage_isMsgHeaderFeatureFlagSet header 1) recvStrAlign4 buf ctx) (\<lambda>(parentEntryID, ctx).
     dbind (readIf (NetMessage_isMsgHeaderFeatureFlagSet header 1) NumNodeID_deserialize buf ctx) (\<lambda>(parentNodeID, ctx).
     Done (\<lparr>sr_result = result, sr_statData = statData, sr_parentEntryID = map_option snd parentEntryID,
        sr_parentNodeID = parentNodeID\<rparr>, ctx)))))"

abbreviation (input) "LOOKUPINTENTRESPMSG_FLAG_REVALIDATE \<equiv> (1 :: u32)"
abbreviation (input) "LOOKUPINTENTRESPMSG_FLAG_CREATE \<equiv> (2 :: u32)"
abbreviation (input) "LOOKUPINTENTRESPMSG_FLAG_OPEN \<equiv> (4 :: u32)"
abbreviation (input) "LOOKUPINTENTRESPMSG_FLAG_STAT \<equiv> (8 :: u32)"

text \<open>The creation result is 1, an internal error, before it is read.\<close>

record LookupIntentRespMsg =
  lir_responseFlags :: u32
  lir_lookupResult :: u32
  lir_entryInfo :: "EntryInfo option"
  lir_statResult :: "u32 option"
  lir_statData :: "StatData option"
  lir_revalidateResult :: "u32 option"
  lir_createResult :: u32
  lir_openResult :: "u32 option"
  lir_fileHandleID :: "(u32 \<times> byte list) option"
  lir_pattern :: "(u64 \<times> u32) option"
  lir_pathInfo :: "PathInfo option"

definition LookupIntentRespMsg_deserializePayload ::
    "byte list \<Rightarrow> DeserializeCtx \<Rightarrow> (LookupIntentRespMsg \<times> DeserializeCtx) dres" where
  "LookupIntentRespMsg_deserializePayload buf ctx =
     dbind (Serialization_deserializeInt buf ctx) (\<lambda>(responseFlags, ctx).
     dbind (Serialization_deserializeUInt buf ctx) (\<lambda>(lookupResult, ctx).
     dbind (readIf (responseFlags AND LOOKUPINTENTRESPMSG_FLAG_STAT \<noteq> 0) Serialization_deserializeInt buf ctx) (\<lambda>(statResult, ctx).
     dbind (readIf (responseFlags AND LOOKUPINTENTRESPMSG_FLAG_STAT \<noteq> 0) StatData_deserialize buf ctx) (\<lambda>(statData, ctx).
     dbind (readIf (responseFlags AND LOOKUPINTENTRESPMSG_FLAG_REVALIDATE \<noteq> 0) Serialization_deserializeInt buf ctx) (\<lambda>(revalidateResult, ctx).
     dbind (readIf (responseFlags AND LOOKUPINTENTRESPMSG_FLAG_CREATE \<noteq> 0) Serialization_deserializeInt buf ctx) (\<lambda>(created, ctx).
     dbind (readIf (responseFlags AND LOOKUPINTENTRESPMSG_FLAG_OPEN \<noteq> 0) Serialization_deserializeInt buf ctx) (\<lambda>(openResult, ctx).
     dbind (readIf (responseFlags AND LOOKUPINTENTRESPMSG_FLAG_OPEN \<noteq> 0) recvStrAlign4 buf ctx) (\<lambda>(fileHandleID, ctx).
     dbind (readIf (responseFlags AND LOOKUPINTENTRESPMSG_FLAG_OPEN \<noteq> 0) StripePattern_deserializePatternPreprocess buf ctx) (\<lambda>(pattern, ctx).
     dbind (readIf (responseFlags AND LOOKUPINTENTRESPMSG_FLAG_OPEN \<noteq> 0) PathInfo_deserialize buf ctx) (\<lambda>(pathInfo, ctx).
     dbind (readIf (lookupResult = 0 \<or> (case created of Some r \<Rightarrow> r | None \<Rightarrow> 1) = 0) EntryInfo_deserialize buf ctx) (\<lambda>(entryInfo, ctx).
     Done (\<lparr>lir_responseFlags = responseFlags, lir_lookupResult = lookupResult, lir_entryInfo = entryInfo,
        lir_statResult = statResult, lir_statData = statData, lir_revalidateResult = revalidateResult,
        lir_createResult = (case created of Some r \<Rightarrow> r | None \<Rightarrow> 1), lir_openResult =
        openResult, lir_fileHandleID = fileHandleID, lir_pattern = pattern, lir_pathInfo = pathInfo\<rparr>, ctx))))))))))))"

record MkDirRespMsg =
  mdr_result :: u32
  mdr_entryInfo :: "EntryInfo option"

definition MkDirRespMsg_deserializePayload ::
    "byte list \<Rightarrow> DeserializeCtx \<Rightarrow> (MkDirRespMsg \<times> DeserializeCtx) dres" where
  "MkDirRespMsg_deserializePayload buf ctx =
     dbind (Serialization_deserializeUInt buf ctx) (\<lambda>(result, ctx).
     dbind (readIf (result = 0) EntryInfo_deserialize buf ctx) (\<lambda>(entryInfo, ctx).
     Done (\<lparr>mdr_result = result, mdr_entryInfo = entryInfo\<rparr>, ctx)))"

record MkFileRespMsg =
  mfr_result :: u32
  mfr_entryInfo :: "EntryInfo option"

definition MkFileRespMsg_deserializePayload ::
    "byte list \<Rightarrow> DeserializeCtx \<Rightarrow> (MkFileRespMsg \<times> DeserializeCtx) dres" where
  "MkFileRespMsg_deserializePayload buf ctx =
     dbind (Serialization_deserializeUInt buf ctx) (\<lambda>(result, ctx).
     dbind (readIf (result = 0) EntryInfo_deserialize buf ctx) (\<lambda>(entryInfo, ctx).
     Done (\<lparr>mfr_result = result, mfr_entryInfo = entryInfo\<rparr>, ctx)))"

record RemoveNodeMsgEx =
  rne_nodeNumID :: NumNodeID
  rne_nodeType :: u16
  rne_ackIDLen :: u32
  rne_ackID :: "byte list"

definition RemoveNodeMsgEx_deserializePayload ::
    "byte list \<Rightarrow> DeserializeCtx \<Rightarrow> (RemoveNodeMsgEx \<times> DeserializeCtx) dres" where
  "RemoveNodeMsgEx_deserializePayload buf ctx =
     dbind (Serialization_deserializeShort buf ctx) (\<lambda>(nodeType, ctx).
     dbind (NumNodeID_deserialize buf ctx) (\<lambda>(nodeNumID, ctx).
     dbind (recvStr buf ctx) (\<lambda>((ackIDLen, ackID), ctx).
     Done (\<lparr>rne_nodeNumID = nodeNumID, rne_nodeType = nodeType, rne_ackIDLen = ackIDLen, rne_ackID = ackID\<rparr>, ctx))))"

record HeartbeatMsgEx =
  hb_nodeIDLen :: u32
  hb_nodeID :: "byte list"
  hb_nodeType :: u32
  hb_nodeNumID :: NumNodeID
  hb_rootNumID :: NumNodeID
  hb_rootIsBuddyMirrored :: bool
  hb_instanceVersion :: u64
  hb_nicListVersion :: u64
  hb_portUDP :: u16
  hb_portTCP :: u16
  hb_ackIDLen :: u32
  hb_ackID :: "byte list"
  hb_rawNicList :: RawList

definition HeartbeatMsgEx_deserializePayload ::
    "byte list \<Rightarrow> DeserializeCtx \<Rightarrow> (HeartbeatMsgEx \<times> DeserializeCtx) dres" where
  "HeartbeatMsgEx_deserializePayload buf ctx =
     dbind (Serialization_deserializeUInt64 buf ctx) (\<lambda>(instanceVersion, ctx).
     dbind (Serialization_deserializeUInt64 buf ctx) (\<lambda>(nicListVersion, ctx).
     dbind (Serialization_deserializeInt buf ctx) (\<lambda>(nodeType, ctx).
     dbind (recvStr buf ctx) (\<lambda>((nodeIDLen, nodeID), ctx).
     dbind (recvStrAlign4 buf ctx) (\<lambda>((ackIDLen, ackID), ctx).
     dbind (NumNodeID_deserialize buf ctx) (\<lambda>(nodeNumID, ctx).
     dbind (NumNodeID_deserialize buf ctx) (\<lambda>(rootNumID, ctx).
     dbind (Serialization_deserializeBool buf ctx) (\<lambda>(rootIsBuddyMirrored, ctx).
     dbind (Serialization_deserializeUShort buf ctx) (\<lambda>(portUDP, ctx).
     dbind (Serialization_deserializeUShort buf ctx) (\<lambda>(portTCP, ctx).
     dbind (Serialization_deserializeNicListPreprocess buf ctx) (\<lambda>(rawNicList, ctx).
     Done (\<lparr>hb_nodeIDLen = nodeIDLen, hb_nodeID = nodeID, hb_nodeType = nodeType, hb_nodeNumID = nodeNumID,
        hb_rootNumID = rootNumID, hb_rootIsBuddyMirrored = rootIsBuddyMirrored, hb_instanceVersion =
        instanceVersion, hb_nicListVersion = nicListVersion, hb_portUDP = portUDP, hb_portTCP = portTCP,
        hb_ackIDLen = ackIDLen, hb_ackID = ackID, hb_rawNicList = rawNicList\<rparr>, ctx))))))))))))"

record SetMirrorBuddyGroupMsgEx =
  smg_nodeType :: u32
  smg_primaryTargetID :: u16
  smg_secondaryTargetID :: u16
  smg_buddyGroupID :: u16
  smg_allowUpdate :: bool
  smg_ackIDLen :: u32
  smg_ackID :: "byte list"

definition SetMirrorBuddyGroupMsgEx_deserializePayload ::
    "byte list \<Rightarrow> DeserializeCtx \<Rightarrow> (SetMirrorBuddyGroupMsgEx \<times> DeserializeCtx) dres" where
  "SetMirrorBuddyGroupMsgEx_deserializePayload buf ctx =
     dbind (Serialization_deserializeInt buf ctx) (\<lambda>(nodeType, ctx).
     dbind (Serialization_deserializeUShort buf ctx) (\<lambda>(primaryTargetID, ctx).
     dbind (Serialization_deserializeUShort buf ctx) (\<lambda>(secondaryTargetID, ctx).
     dbind (Serialization_deserializeUShort buf ctx) (\<lambda>(buddyGroupID, ctx).
     dbind (Serialization_deserializeBool buf ctx) (\<lambda>(allowUpdate, ctx).
     dbind (recvStr buf ctx) (\<lambda>((ackIDLen, ackID), ctx).
     Done (\<lparr>smg_nodeType = nodeType, smg_primaryTargetID = primaryTargetID, smg_secondaryTargetID =
        secondaryTargetID, smg_buddyGroupID = buddyGroupID, smg_allowUpdate = allowUpdate, smg_ackIDLen =
        ackIDLen, smg_ackID = ackID\<rparr>, ctx)))))))"

record RefreshTargetStatesMsgEx =
  rts_ackIDLen :: u32
  rts_ackID :: "byte list"

definition RefreshTargetStatesMsgEx_deserializePayload ::
    "byte list \<Rightarrow> DeserializeCtx \<Rightarrow> (RefreshTargetStatesMsgEx \<times> DeserializeCtx) dres" where
  "RefreshTargetStatesMsgEx_deserializePayload buf ctx =
     dbind (recvStr buf ctx) (\<lambda>((ackIDLen, ackID), ctx).
     Done (\<lparr>rts_ackIDLen = ackIDLen, rts_ackID = ackID\<rparr>, ctx))"

record MapTargetsMsgEx =
  mt_nodeID :: NumNodeID
  mt_ackIDLen :: u32
  mt_ackID :: "byte list"
  mt_poolMappings :: "TargetPoolMapping list"

definition MapTargetsMsgEx_deserializePayload ::
    "(nat \<Rightarrow> bool) \<Rightarrow> byte list \<Rightarrow> DeserializeCtx \<Rightarrow> (MapTargetsMsgEx \<times> DeserializeCtx) dres" where
  "MapTargetsMsgEx_deserializePayload alloc buf ctx =
     dbind (TargetPoolMappingList_deserialize alloc [] buf ctx) (\<lambda>(poolMappings, ctx).
     dbind (NumNodeID_deserialize buf ctx) (\<lambda>(nodeID, ctx).
     dbind (recvStr buf ctx) (\<lambda>((ackIDLen, ackID), ctx).
     Done (\<lparr>mt_nodeID = nodeID, mt_ackIDLen = ackIDLen, mt_ackID = ackID, mt_poolMappings = poolMappings\<rparr>, ctx))))"

record LockGrantedMsgEx =
  lg_lockAckIDLen :: u32
  lg_lockAckID :: "byte list"
  lg_ackIDLen :: u32
  lg_ackID :: "byte list"
  lg_granterNodeID :: NumNodeID

definition LockGrantedMsgEx_deserializePayload ::
    "byte list \<Rightarrow> DeserializeCtx \<Rightarrow> (LockGrantedMsgEx \<times> DeserializeCtx) dres" where
  "LockGrantedMsgEx_deserializePayload buf ctx =
     dbind (recvStrAlign4 buf ctx) (\<lambda>((lockAckIDLen, lockAckID), ctx).
     dbind (recvStrAlign4 buf ctx) (\<lambda>((ackIDLen, ackID), ctx).
     dbind (NumNodeID_deserialize buf ctx) (\<lambda>(granterNodeID, ctx).
     Done (\<lparr>lg_lockAckIDLen = lockAckIDLen, lg_lockAckID = lockAckID, lg_ackIDLen = ackIDLen, lg_ackID = ackID,
        lg_granterNodeID = granterNodeID\<rparr>, ctx))))"

section \<open>The factory\<close>

text \<open>The classes the factory constructs; most responses are simple messages of one number or string.\<close>

datatype MsgClass =
    SimpleMsgClass
  | CAckMsgEx
  | CGenericResponseMsg
  | CGetHostByNameRespMsg
  | CLogRespMsg
  | CGetNodesRespMsg
  | CGetStatesAndBuddyGroupsRespMsg
  | CGetTargetMappingsRespMsg
  | CHeartbeatRequestMsgEx
  | CHeartbeatMsgEx
  | CMapTargetsMsgEx
  | CRefreshTargetStatesMsgEx
  | CRegisterNodeRespMsg
  | CRemoveNodeMsgEx
  | CRemoveNodeRespMsg
  | CSetMirrorBuddyGroupMsgEx
  | CLookupIntentRespMsg
  | CMkDirRespMsg
  | CRmDirRespMsg
  | CMkFileRespMsg
  | CRefreshEntryInfoRespMsg
  | CRenameRespMsg
  | CHardlinkRespMsg
  | CUnlinkFileRespMsg
  | CListDirFromOffsetRespMsg
  | CSetAttrRespMsg
  | CStatRespMsg
  | CStatStoragePathRespMsg
  | CTruncFileRespMsg
  | CListXAttrRespMsg
  | CGetXAttrRespMsg
  | CRemoveXAttrRespMsg
  | CSetXAttrRespMsg
  | COpenFileRespMsg
  | CCloseFileRespMsg
  | CWriteLocalFileRespMsg
  | CFSyncLocalFileRespMsg
  | CFLockAppendRespMsg
  | CFLockEntryRespMsg
  | CFLockRangeRespMsg
  | CLockGrantedMsgEx
  | CBumpFileVersionRespMsg
  | CGetFileVersionRespMsg

datatype Payload =
    NoPayload
  | IntPayload u32
  | Int64Payload u64
  | StringPayload SimpleStringMsg
  | IntStringPayload SimpleIntStringMsg
  | PGetHostByNameRespMsg GetHostByNameRespMsg
  | PGetTargetMappingsRespMsg GetTargetMappingsRespMsg
  | PRegisterNodeRespMsg RegisterNodeRespMsg
  | PGetStatesAndBuddyGroupsRespMsg GetStatesAndBuddyGroupsRespMsg
  | PGetNodesRespMsg GetNodesRespMsg
  | PGetFileVersionRespMsg GetFileVersionRespMsg
  | POpenFileRespMsg OpenFileRespMsg
  | PListDirFromOffsetRespMsg ListDirFromOffsetRespMsg
  | PStatStoragePathRespMsg StatStoragePathRespMsg
  | PGetXAttrRespMsg GetXAttrRespMsg
  | PListXAttrRespMsg ListXAttrRespMsg
  | PStatRespMsg StatRespMsg
  | PLookupIntentRespMsg LookupIntentRespMsg
  | PMkDirRespMsg MkDirRespMsg
  | PMkFileRespMsg MkFileRespMsg
  | PRemoveNodeMsgEx RemoveNodeMsgEx
  | PHeartbeatMsgEx HeartbeatMsgEx
  | PSetMirrorBuddyGroupMsgEx SetMirrorBuddyGroupMsgEx
  | PRefreshTargetStatesMsgEx RefreshTargetStatesMsgEx
  | PMapTargetsMsgEx MapTargetsMsgEx
  | PLockGrantedMsgEx LockGrantedMsgEx

text \<open>The table \<^verbatim>\<open>ops\<close> of a class: its payload reader and the header feature flags it supports.\<close>

definition readAs ::
    "('a \<Rightarrow> Payload) \<Rightarrow> (byte list \<Rightarrow> DeserializeCtx \<Rightarrow> ('a \<times> DeserializeCtx) dres) \<Rightarrow>
     byte list \<Rightarrow> DeserializeCtx \<Rightarrow> (Payload \<times> DeserializeCtx) dres" where
  "readAs con dec buf ctx = dbind (dec buf ctx) (\<lambda>(x, ctx). Done (con x, ctx))"

fun class_deserializePayload ::
    "(nat \<Rightarrow> bool) \<Rightarrow> NetMessageHeader \<Rightarrow> MsgClass \<Rightarrow> byte list \<Rightarrow> DeserializeCtx \<Rightarrow> (Payload \<times> DeserializeCtx) dres" where
  "class_deserializePayload alloc header SimpleMsgClass = readAs (\<lambda>_. NoPayload) SimpleMsg_deserializePayload"
| "class_deserializePayload alloc header CAckMsgEx = readAs StringPayload SimpleStringMsg_deserializePayload"
| "class_deserializePayload alloc header CGenericResponseMsg = readAs IntStringPayload SimpleIntStringMsg_deserializePayload"
| "class_deserializePayload alloc header CGetHostByNameRespMsg = readAs PGetHostByNameRespMsg GetHostByNameRespMsg_deserializePayload"
| "class_deserializePayload alloc header CLogRespMsg = readAs IntPayload SimpleIntMsg_deserializePayload"
| "class_deserializePayload alloc header CGetNodesRespMsg = readAs PGetNodesRespMsg GetNodesRespMsg_deserializePayload"
| "class_deserializePayload alloc header CGetStatesAndBuddyGroupsRespMsg = readAs PGetStatesAndBuddyGroupsRespMsg (GetStatesAndBuddyGroupsRespMsg_deserializePayload alloc)"
| "class_deserializePayload alloc header CGetTargetMappingsRespMsg = readAs PGetTargetMappingsRespMsg (GetTargetMappingsRespMsg_deserializePayload alloc)"
| "class_deserializePayload alloc header CHeartbeatRequestMsgEx = readAs (\<lambda>_. NoPayload) SimpleMsg_deserializePayload"
| "class_deserializePayload alloc header CHeartbeatMsgEx = readAs PHeartbeatMsgEx HeartbeatMsgEx_deserializePayload"
| "class_deserializePayload alloc header CMapTargetsMsgEx = readAs PMapTargetsMsgEx (MapTargetsMsgEx_deserializePayload alloc)"
| "class_deserializePayload alloc header CRefreshTargetStatesMsgEx = readAs PRefreshTargetStatesMsgEx RefreshTargetStatesMsgEx_deserializePayload"
| "class_deserializePayload alloc header CRegisterNodeRespMsg = readAs PRegisterNodeRespMsg RegisterNodeRespMsg_deserializePayload"
| "class_deserializePayload alloc header CRemoveNodeMsgEx = readAs PRemoveNodeMsgEx RemoveNodeMsgEx_deserializePayload"
| "class_deserializePayload alloc header CRemoveNodeRespMsg = readAs IntPayload SimpleIntMsg_deserializePayload"
| "class_deserializePayload alloc header CSetMirrorBuddyGroupMsgEx = readAs PSetMirrorBuddyGroupMsgEx SetMirrorBuddyGroupMsgEx_deserializePayload"
| "class_deserializePayload alloc header CLookupIntentRespMsg = readAs PLookupIntentRespMsg LookupIntentRespMsg_deserializePayload"
| "class_deserializePayload alloc header CMkDirRespMsg = readAs PMkDirRespMsg MkDirRespMsg_deserializePayload"
| "class_deserializePayload alloc header CRmDirRespMsg = readAs IntPayload SimpleIntMsg_deserializePayload"
| "class_deserializePayload alloc header CMkFileRespMsg = readAs PMkFileRespMsg MkFileRespMsg_deserializePayload"
| "class_deserializePayload alloc header CRefreshEntryInfoRespMsg = readAs IntPayload SimpleIntMsg_deserializePayload"
| "class_deserializePayload alloc header CRenameRespMsg = readAs IntPayload SimpleIntMsg_deserializePayload"
| "class_deserializePayload alloc header CHardlinkRespMsg = readAs IntPayload SimpleIntMsg_deserializePayload"
| "class_deserializePayload alloc header CUnlinkFileRespMsg = readAs IntPayload SimpleIntMsg_deserializePayload"
| "class_deserializePayload alloc header CListDirFromOffsetRespMsg = readAs PListDirFromOffsetRespMsg ListDirFromOffsetRespMsg_deserializePayload"
| "class_deserializePayload alloc header CSetAttrRespMsg = readAs IntPayload SimpleIntMsg_deserializePayload"
| "class_deserializePayload alloc header CStatRespMsg = readAs PStatRespMsg (StatRespMsg_deserializePayload header)"
| "class_deserializePayload alloc header CStatStoragePathRespMsg = readAs PStatStoragePathRespMsg StatStoragePathRespMsg_deserializePayload"
| "class_deserializePayload alloc header CTruncFileRespMsg = readAs IntPayload SimpleIntMsg_deserializePayload"
| "class_deserializePayload alloc header CListXAttrRespMsg = readAs PListXAttrRespMsg ListXAttrRespMsg_deserializePayload"
| "class_deserializePayload alloc header CGetXAttrRespMsg = readAs PGetXAttrRespMsg GetXAttrRespMsg_deserializePayload"
| "class_deserializePayload alloc header CRemoveXAttrRespMsg = readAs IntPayload SimpleIntMsg_deserializePayload"
| "class_deserializePayload alloc header CSetXAttrRespMsg = readAs IntPayload SimpleIntMsg_deserializePayload"
| "class_deserializePayload alloc header COpenFileRespMsg = readAs POpenFileRespMsg OpenFileRespMsg_deserializePayload"
| "class_deserializePayload alloc header CCloseFileRespMsg = readAs IntPayload SimpleIntMsg_deserializePayload"
| "class_deserializePayload alloc header CWriteLocalFileRespMsg = readAs Int64Payload SimpleInt64Msg_deserializePayload"
| "class_deserializePayload alloc header CFSyncLocalFileRespMsg = readAs Int64Payload SimpleInt64Msg_deserializePayload"
| "class_deserializePayload alloc header CFLockAppendRespMsg = readAs IntPayload SimpleIntMsg_deserializePayload"
| "class_deserializePayload alloc header CFLockEntryRespMsg = readAs IntPayload SimpleIntMsg_deserializePayload"
| "class_deserializePayload alloc header CFLockRangeRespMsg = readAs IntPayload SimpleIntMsg_deserializePayload"
| "class_deserializePayload alloc header CLockGrantedMsgEx = readAs PLockGrantedMsgEx LockGrantedMsgEx_deserializePayload"
| "class_deserializePayload alloc header CBumpFileVersionRespMsg = readAs IntPayload SimpleIntMsg_deserializePayload"
| "class_deserializePayload alloc header CGetFileVersionRespMsg = readAs PGetFileVersionRespMsg GetFileVersionRespMsg_deserializePayload"

definition class_getSupportedHeaderFeatureFlagsMask :: "MsgClass \<Rightarrow> u32" where
  "class_getSupportedHeaderFeatureFlagsMask c = (if c = CStatRespMsg then 1 else 0)"

text \<open>The message type the constructed object is given, and its class.\<close>

definition NetMessageFactory_createFromMsgType :: "u16 \<Rightarrow> u16 \<times> MsgClass" where
  "NetMessageFactory_createFromMsgType mtype =
     (if mtype = 4003 then (mtype, CAckMsgEx)
      else if mtype = 4009 then (mtype, CGenericResponseMsg)
      else if mtype = 5004 then (mtype, CGetHostByNameRespMsg)
      else if mtype = 5002 then (mtype, CLogRespMsg)
      else if mtype = 1018 then (mtype, CGetNodesRespMsg)
      else if mtype = 1054 then (mtype, CGetStatesAndBuddyGroupsRespMsg)
      else if mtype = 1026 then (mtype, CGetTargetMappingsRespMsg)
      else if mtype = 1019 then (mtype, CHeartbeatRequestMsgEx)
      else if mtype = 1020 then (mtype, CHeartbeatMsgEx)
      else if mtype = 1023 then (mtype, CMapTargetsMsgEx)
      else if mtype = 1051 then (mtype, CRefreshTargetStatesMsgEx)
      else if mtype = 1040 then (mtype, CRegisterNodeRespMsg)
      else if mtype = 1013 then (mtype, CRemoveNodeMsgEx)
      else if mtype = 1014 then (mtype, CRemoveNodeRespMsg)
      else if mtype = 1045 then (mtype, CSetMirrorBuddyGroupMsgEx)
      else if mtype = 2060 then (mtype, CLookupIntentRespMsg)
      else if mtype = 2002 then (mtype, CMkDirRespMsg)
      else if mtype = 2004 then (mtype, CRmDirRespMsg)
      else if mtype = 2006 then (mtype, CMkFileRespMsg)
      else if mtype = 2056 then (mtype, CRefreshEntryInfoRespMsg)
      else if mtype = 2024 then (mtype, CRenameRespMsg)
      else if mtype = 2072 then (mtype, CHardlinkRespMsg)
      else if mtype = 2008 then (mtype, CUnlinkFileRespMsg)
      else if mtype = 2030 then (mtype, CListDirFromOffsetRespMsg)
      else if mtype = 2026 then (mtype, CSetAttrRespMsg)
      else if mtype = 2016 then (mtype, CStatRespMsg)
      else if mtype = 2032 then (mtype, CStatStoragePathRespMsg)
      else if mtype = 2020 then (mtype, CTruncFileRespMsg)
      else if mtype = 2102 then (mtype, CListXAttrRespMsg)
      else if mtype = 2104 then (mtype, CGetXAttrRespMsg)
      else if mtype = 2106 then (mtype, CRemoveXAttrRespMsg)
      else if mtype = 2108 then (mtype, CSetXAttrRespMsg)
      else if mtype = 3002 then (mtype, COpenFileRespMsg)
      else if mtype = 3004 then (mtype, CCloseFileRespMsg)
      else if mtype = 3010 then (mtype, CWriteLocalFileRespMsg)
      else if mtype = 3014 then (mtype, CFSyncLocalFileRespMsg)
      else if mtype = 3030 then (mtype, CFLockAppendRespMsg)
      else if mtype = 3026 then (mtype, CFLockEntryRespMsg)
      else if mtype = 3028 then (mtype, CFLockRangeRespMsg)
      else if mtype = 3023 then (mtype, CLockGrantedMsgEx)
      else if mtype = 3034 then (mtype, CBumpFileVersionRespMsg)
      else if mtype = 3036 then (mtype, CGetFileVersionRespMsg)
      else if mtype = 3032 then (mtype, SimpleMsgClass)
      else (NETMSGTYPE_Invalid, SimpleMsgClass))"

text \<open>A message object after reading; \<^const>\<open>None\<close> if the payload was not or not completely read.\<close>

record Received =
  rc_header :: NetMessageHeader
  rc_class :: MsgClass
  rc_payload :: "Payload option"

definition NetMessageFactory_deserializeRaw ::
    "(nat \<Rightarrow> bool) \<Rightarrow> byte list \<Rightarrow> DeserializeCtx \<Rightarrow> NetMessageHeader \<Rightarrow> MsgClass \<Rightarrow> (bool \<times> Received) dres" where
  "NetMessageFactory_deserializeRaw alloc buf ctx header c =
     (let failed = (False, \<lparr>rc_header = header\<lparr>msgType := NETMSGTYPE_Invalid\<rparr>, rc_class = c, rc_payload = None\<rparr>) in
      if ucast (msgFeatureFlags header) AND NOT (class_getSupportedHeaderFeatureFlagsMask c) \<noteq> 0 then Done failed
      else (case class_deserializePayload alloc header c buf ctx of
              Done (p, _) \<Rightarrow> Done (True, \<lparr>rc_header = header, rc_class = c, rc_payload = Some p\<rparr>)
            | Refused \<Rightarrow> Done failed
            | Overrun \<Rightarrow> Overrun))"

text \<open>\<open>fresh\<close> is the header on the stack before it is read.\<close>

definition NetMessageFactory_createFromBuf ::
    "(nat \<Rightarrow> bool) \<Rightarrow> u32 \<Rightarrow> NetMessageHeader \<Rightarrow> byte list \<Rightarrow> u64 \<Rightarrow> Received dres" where
  "NetMessageFactory_createFromBuf alloc currentUserID fresh recvBuf bufLen =
     dbind (NetMessage_deserializeHeader recvBuf (fresh, \<lparr>d_pos = 0, d_length = bufLen\<rparr>)) (\<lambda>(header, ctx).
     let (mtype, c) = NetMessageFactory_createFromMsgType (msgType header) in
     if mtype = NETMSGTYPE_Invalid
     then Done \<lparr>rc_header = \<lparr>msgLength = 0, msgFeatureFlags = 0, msgCompatFeatureFlags = 0, msgFlags = 0,
             msgType = mtype, msgTargetID = 0, msgUserID = currentUserID, msgSequence = 0, msgSequenceDone = 0\<rparr>,
           rc_class = c, rc_payload = None\<rparr>
     else dbind (NetMessageFactory_deserializeRaw alloc recvBuf ctx header c) (\<lambda>(_, msg). Done msg))"

text \<open>Reading into an object of a known class, for which the type is checked first.\<close>

definition NetMessageFactory_deserializeFromBuf ::
    "(nat \<Rightarrow> bool) \<Rightarrow> NetMessageHeader \<Rightarrow> byte list \<Rightarrow> u64 \<Rightarrow> Received \<Rightarrow> u16 \<Rightarrow> (bool \<times> Received) dres" where
  "NetMessageFactory_deserializeFromBuf alloc fresh recvBuf bufLen outMsg expectedMsgType =
     dbind (NetMessage_deserializeHeader recvBuf (fresh, \<lparr>d_pos = 0, d_length = bufLen\<rparr>)) (\<lambda>(header, ctx).
     if msgType header \<noteq> expectedMsgType then Done (False, outMsg)
     else NetMessageFactory_deserializeRaw alloc recvBuf ctx header (rc_class outMsg))"

section \<open>Readers that stay inside the message\<close>

definition header_read :: "byte list \<Rightarrow> u64 \<Rightarrow> (NetMessageHeader \<times> DeserializeCtx) dres \<Rightarrow> bool" where
  "header_read buf len r \<longleftrightarrow> (\<exists>h ctx. r = Done (h, ctx) \<and> ctx_ok buf ctx \<and>
     (msgType h \<noteq> NETMSGTYPE_Invalid \<longrightarrow> ucast (msgLength h) = len \<and> NETMSG_HEADER_LENGTH \<le> len))"

lemma header_read_any:
  assumes "decoder dec" "ctx_ok buf ctx" and k: "\<And>h' ctx'. ctx_ok buf ctx' \<Longrightarrow> header_read buf len (k h' ctx')"
  shows "header_read buf len (dbind (readInto dec upd buf (h, ctx)) (\<lambda>(h, ctx). k h ctx))"
  using decoder.in_bounds [OF assms(1,2)] decoder.dec_ok [OF assms(1,2)] k assms(2)
  by (cases "dec buf ctx") (auto simp: readInto_def)

lemma header_read_step:
  assumes "decoder dec" "ctx_ok buf ctx" "ucast (msgLength h) = len" "\<And>x. msgLength (upd x h) = msgLength h"
    and k: "\<And>h' ctx'. ctx_ok buf ctx' \<Longrightarrow> ucast (msgLength h') = len \<Longrightarrow> header_read buf len (k h' ctx')"
  shows "header_read buf len (dbind (readInto dec upd buf (h, ctx)) (\<lambda>(h, ctx). k h ctx))"
  using decoder.in_bounds [OF assms(1,2)] decoder.dec_ok [OF assms(1,2)] assms(2-4) k
  by (cases "dec buf ctx") (auto simp: readInto_def)

lemma header_read_last:
  assumes "decoder dec" "ctx_ok buf ctx" "ucast (msgLength h) = len" "\<And>x. msgLength (upd x h) = msgLength h"
    and "NETMSG_HEADER_LENGTH \<le> len"
  shows "header_read buf len (readInto dec upd buf (h, ctx))"
  using decoder.in_bounds [OF assms(1,2)] decoder.dec_ok [OF assms(1,2)] assms(2-5)
  by (cases "dec buf ctx") (auto simp: readInto_def header_read_def)

lemma header_read_check:
  assumes "ctx_ok buf ctx" "\<not> c \<Longrightarrow> header_read buf len r"
  shows "header_read buf len (if c then Done (h\<lparr>msgType := NETMSGTYPE_Invalid\<rparr>, ctx) else r)"
  using assms by (auto simp: header_read_def)

lemma deserializeHeader_read:
  assumes "ctx_ok buf ctx"
  shows "header_read buf (d_length ctx) (NetMessage_deserializeHeader buf (h, ctx))"
  unfolding NetMessage_deserializeHeader_def Let_def prod.case
  by (rule header_read_check header_read_any [OF UInt.decoder_axioms] header_read_any [OF UInt64.decoder_axioms]
      header_read_step [OF UShort.decoder_axioms] header_read_step [OF UInt8.decoder_axioms]
      header_read_step [OF UInt.decoder_axioms] header_read_step [OF UInt64.decoder_axioms]
      header_read_last [OF UInt64.decoder_axioms] assms | simp add: not_less; fail | assumption)+

lemma decoder_readIf: "decoder dec \<Longrightarrow> decoder (readIf present dec)"
  unfolding readIf_def [abs_def] by (intro decoder_if decoder_bind decoder_return)

lemma decoder_readAs: "decoder dec \<Longrightarrow> decoder (readAs con dec)"
  unfolding readAs_def [abs_def] by (intro decoder_bind decoder_return)

lemma decoder_sizedPreprocess: "decoder (deserializeSizedListPreprocess n)"
  by unfold_locales (auto simp: sized_preprocess_in_bounds dest: sized_preprocess_inv(2))

lemma decoder_strCpyPreprocess: "decoder Serialization_deserializeStrCpyListPreprocess"
  by unfold_locales (use strCpy_preprocess in blast)+

lemma decoder_take: "decoder (\<lambda>buf ctx. if d_length ctx < n then Refused else Done (f ctx, advance ctx n))"
  by unfold_locales (fastforce simp: not_less split: if_splits)+

lemma decoder_charArray: "decoder Serialization_deserializeCharArray"
  unfolding Serialization_deserializeCharArray_def [abs_def]
  by (rule decoder_bind [OF UInt.decoder_axioms]) (rule decoder_take)

lemma decoder_aliases:
  "decoder Serialization_deserializeInt" "decoder Serialization_deserializeInt64"
  "decoder Serialization_deserializeUInt8VecPreprocess" "decoder Serialization_deserializeInt64CpyVecPreprocess"
  "decoder Serialization_deserializeStrCpyVecPreprocess"
  "decoder (TargetMappingList_deserialize alloc xs)" "decoder (BuddyGroupMappingList_deserialize alloc ys)"
  "decoder (TargetStateMappingList_deserialize alloc zs)"
  "decoder SimpleMsg_deserializePayload" "decoder SimpleIntMsg_deserializePayload" "decoder SimpleInt64Msg_deserializePayload"
  unfolding Serialization_deserializeInt_def Serialization_deserializeInt64_def
    Serialization_deserializeUInt8VecPreprocess_def Serialization_deserializeUInt8ListPreprocess_def
    Serialization_deserializeInt64CpyVecPreprocess_def Serialization_deserializeInt64CpyListPreprocess_def
    Serialization_deserializeStrCpyVecPreprocess_def TargetMappingList_deserialize_def BuddyGroupMappingList_deserialize_def
    TargetStateMappingList_deserialize_def SimpleMsg_deserializePayload_def [abs_def]
    SimpleIntMsg_deserializePayload_def [abs_def] SimpleInt64Msg_deserializePayload_def [abs_def]
  by (rule UInt.decoder_axioms UInt64.decoder_axioms decoder_sizedPreprocess decoder_strCpyPreprocess decoder_return
      decoder_serdesList TargetMapping.decoder_axioms BuddyGroupMapping.decoder_axioms TargetStateMapping.decoder_axioms)+

lemmas payload_decoders = decoder_bind decoder_if decoder_return decoder_refuse decoder_readIf decoder_charArray
  decoder_statData decoder_aliases UInt.decoder_axioms UInt64.decoder_axioms NumNodeID.decoder_axioms Bool.decoder_axioms

lemma decoder_bind_pair:
  assumes "decoder f" "\<And>x y. decoder (g x y)"
  shows "decoder (\<lambda>buf ctx. dbind (f buf ctx) (\<lambda>((x, y), ctx). g x y buf ctx))"
  using decoder_bind [OF assms(1), of "\<lambda>(x, y). g x y"] assms(2) by (simp add: split_def)

lemma decoder_payloads:
  "decoder (GetTargetMappingsRespMsg_deserializePayload alloc)" "decoder RegisterNodeRespMsg_deserializePayload"
  "decoder (GetStatesAndBuddyGroupsRespMsg_deserializePayload alloc)" "decoder GetFileVersionRespMsg_deserializePayload"
  "decoder ListDirFromOffsetRespMsg_deserializePayload" "decoder StatStoragePathRespMsg_deserializePayload"
  "decoder GetXAttrRespMsg_deserializePayload" "decoder ListXAttrRespMsg_deserializePayload"
  unfolding GetTargetMappingsRespMsg_deserializePayload_def [abs_def] RegisterNodeRespMsg_deserializePayload_def [abs_def]
    GetStatesAndBuddyGroupsRespMsg_deserializePayload_def [abs_def] GetFileVersionRespMsg_deserializePayload_def [abs_def]
    ListDirFromOffsetRespMsg_deserializePayload_def [abs_def] StatStoragePathRespMsg_deserializePayload_def [abs_def]
    GetXAttrRespMsg_deserializePayload_def [abs_def] ListXAttrRespMsg_deserializePayload_def [abs_def]
  by (intro decoder_bind_pair payload_decoders)+

lemma decoder_readIf_False: "decoder (readIf False dec)"
  unfolding readIf_def [abs_def] if_False by (rule decoder_return)

lemma decoder_statResp:
  assumes "\<not> NetMessage_isMsgHeaderFeatureFlagSet header 1"
  shows "decoder (StatRespMsg_deserializePayload header)"
  unfolding StatRespMsg_deserializePayload_def [abs_def] assms [THEN Eq_FalseI]
  by (intro decoder_bind decoder_return decoder_readIf_False decoder_aliases decoder_statData)

text \<open>Payloads with a string, whose reader trusts the length field, as \<open>deserializeStr_bounds\<close> shows.\<close>

definition carriesString :: "NetMessageHeader \<Rightarrow> MsgClass \<Rightarrow> bool" where
  "carriesString header c \<longleftrightarrow>
     c \<in> {CAckMsgEx, CGenericResponseMsg, CGetHostByNameRespMsg, CGetNodesRespMsg, CHeartbeatMsgEx, CMapTargetsMsgEx,
          CRefreshTargetStatesMsgEx, CRemoveNodeMsgEx, CSetMirrorBuddyGroupMsgEx, CLookupIntentRespMsg, CMkDirRespMsg,
          CMkFileRespMsg, COpenFileRespMsg, CLockGrantedMsgEx}
     \<or> c = CStatRespMsg \<and> NetMessage_isMsgHeaderFeatureFlagSet header 1"

lemma decoder_class: "\<not> carriesString header c \<Longrightarrow> decoder (class_deserializePayload alloc header c)"
  by (cases c) (auto simp: carriesString_def intro!: decoder_readAs decoder_payloads decoder_statResp decoder_aliases)

lemma createFromMsgType_type:
  "fst (NetMessageFactory_createFromMsgType t) = t \<or> fst (NetMessageFactory_createFromMsgType t) = NETMSGTYPE_Invalid"
  by (simp add: NetMessageFactory_createFromMsgType_def)

definition classOf :: "NetMessageHeader \<Rightarrow> MsgClass" where
  "classOf header = snd (NetMessageFactory_createFromMsgType (msgType header))"

text \<open>C10: Whatever bytes arrive, the factory returns a message or, only for a class that carries a string, reads
  outside the buffer. A returned message has the invalid type exactly when its payload was not
  read; otherwise its class is the one for its type, its header's length is the buffer's and covers the
  header, and no flag is set that the class does not support.\<close>

theorem factory_outcome:
  assumes "unat bufLen \<le> length buf" "length buf < 2 ^ 64"
  shows "case NetMessageFactory_createFromBuf alloc uid fresh buf bufLen of
      Done msg \<Rightarrow> (msgType (rc_header msg) = NETMSGTYPE_Invalid \<longleftrightarrow> rc_payload msg = None)
        \<and> (rc_payload msg \<noteq> None \<longrightarrow> rc_class msg = classOf (rc_header msg)
             \<and> ucast (msgLength (rc_header msg)) = bufLen \<and> NETMSG_HEADER_LENGTH \<le> bufLen
             \<and> ucast (msgFeatureFlags (rc_header msg))
                 AND NOT (class_getSupportedHeaderFeatureFlagsMask (rc_class msg)) = 0)
    | Refused \<Rightarrow> False
    | Overrun \<Rightarrow> \<exists>header ctx. NetMessage_deserializeHeader buf (fresh, \<lparr>d_pos = 0, d_length = bufLen\<rparr>) = Done (header, ctx)
        \<and> carriesString header (classOf header)"
proof -
  let ?ctx = "\<lparr>d_pos = 0, d_length = bufLen\<rparr>"
  have "ctx_ok buf ?ctx" using assms by (simp add: ctx_ok_def)
  from deserializeHeader_read [OF this, of fresh] obtain h ctx where
    h: "NetMessage_deserializeHeader buf (fresh, ?ctx) = Done (h, ctx)" and ok: "ctx_ok buf ctx"
    and len: "msgType h \<noteq> NETMSGTYPE_Invalid \<Longrightarrow> ucast (msgLength h) = bufLen \<and> NETMSG_HEADER_LENGTH \<le> bufLen"
    by (auto simp: header_read_def)
  obtain t c where tc: "NetMessageFactory_createFromMsgType (msgType h) = (t, c)" by (cases "NetMessageFactory_createFromMsgType (msgType h)")
  have c: "c = classOf h" by (simp add: classOf_def tc)
  have t: "t = msgType h \<or> t = NETMSGTYPE_Invalid" using createFromMsgType_type [of "msgType h"] tc by simp
  have over: "carriesString h c" if "class_deserializePayload alloc h c buf ctx = Overrun"
    using decoder.in_bounds [OF decoder_class ok] that by blast
  show ?thesis
  proof (cases "t = NETMSGTYPE_Invalid")
    case True
    then show ?thesis by (simp add: NetMessageFactory_createFromBuf_def h tc)
  next
    case False
    with t len have l: "msgType h \<noteq> NETMSGTYPE_Invalid" "ucast (msgLength h) = bufLen" "NETMSG_HEADER_LENGTH \<le> bufLen" by auto
    show ?thesis
      using False l over
      by (cases "class_deserializePayload alloc h c buf ctx")
        (auto simp: NetMessageFactory_createFromBuf_def h tc NetMessageFactory_deserializeRaw_def Let_def c)
  qed
qed

definition zeroHeader :: NetMessageHeader where
  "zeroHeader = \<lparr>msgLength = 0, msgFeatureFlags = 0, msgCompatFeatureFlags = 0, msgFlags = 0, msgType = 0,
     msgTargetID = 0, msgUserID = 0, msgSequence = 0, msgSequenceDone = 0\<rparr>"

text \<open>An acknowledgement of 44 bytes whose string announces a length of \<^verbatim>\<open>0xFFFFFFFF\<close>.\<close>

definition hostileAck :: "byte list" where
  "hostileAck = header_enc (zeroHeader\<lparr>msgType := 4003\<rparr>) 44 @ replicate 4 255"

lemma length_hostileAck: "length hostileAck = 44"
  by (simp add: hostileAck_def)

lemma hostileAck_overrun: "NetMessageFactory_createFromBuf alloc uid fresh hostileAck 44 = Overrun"
proof -
  let ?h = "zeroHeader\<lparr>msgType := 4003\<rparr>" and ?ctx = "\<lparr>d_pos = 0, d_length = 44\<rparr> :: DeserializeCtx"
  have ok: "ctx_ok hostileAck ?ctx" by (simp add: ctx_ok_def length_hostileAck)
  have v: "view hostileAck ?ctx = header_enc ?h 44 @ replicate 4 255" by (simp add: view_def hostileAck_def)
  have hdr: "NetMessage_deserializeHeader hostileAck (fresh, ?ctx) = Done (?h\<lparr>msgLength := 44\<rparr>, advance ?ctx 40)"
    by (rule deserializeHeader_reads [OF ok v]) (simp_all add: header_flags_ok_def zeroHeader_def)
  have e: "replicate 4 255 = le_bytes 4 (0xFFFFFFFF :: u32)" by code_simp
  have adv: "ctx_ok hostileAck (advance ?ctx 40)" "view hostileAck (advance ?ctx 40) = le_bytes 4 (0xFFFFFFFF :: u32) @ []"
    using advance_append [OF ok v] e by simp_all
  have "Serialization_deserializeUInt hostileAck (advance ?ctx 40) = Done (0xFFFFFFFF, advance (advance ?ctx 40) 4)"
    using readsD [OF UInt.dec_reads [OF TrueI] adv] by simp
  then have "Serialization_deserializeStr hostileAck (advance ?ctx 40) = Overrun"
    using deserializeStr_overrun_iff [OF adv(1)] by (simp add: advance_def length_hostileAck)
  then show ?thesis
    by (simp add: NetMessageFactory_createFromBuf_def hdr NetMessageFactory_createFromMsgType_def
        NetMessageFactory_deserializeRaw_def readAs_def SimpleStringMsg_deserializePayload_def recvStr_def zeroHeader_def)
qed

theorem factory_outcome_witness:
  "\<exists>header ctx. NetMessage_deserializeHeader hostileAck (zeroHeader, \<lparr>d_pos = 0, d_length = 44\<rparr>) = Done (header, ctx)
    \<and> carriesString header (classOf header)"
  using factory_outcome [where bufLen = 44 and buf = hostileAck and fresh = zeroHeader and alloc = "\<lambda>_. True" and uid = 0]
  by (simp add: hostileAck_overrun length_hostileAck)


end
