(* ===== verification/Incoming.thy ===== *)
theory Incoming
  imports MessageFactory
begin

text \<open>
  Handlers of received messages that change the client's view of the cluster:
  \<^verbatim>\<open>__MapTargetsMsgEx_processIncoming\<close> and \<^verbatim>\<open>__SetMirrorBuddyGroupMsgEx_processIncoming\<close>, with the
  acknowledgement they answer with. What is handed to the socket is part of the result.
\<close>

section \<open>Acknowledgements\<close>

definition SimpleStringMsg_Ops :: "SimpleStringMsg NetMessageOps" where
  "SimpleStringMsg_Ops = \<lparr>serializePayload = (\<lambda>_. SimpleStringMsg_serializePayload),
     deserializePayload = (\<lambda>_ _. SimpleStringMsg_deserializePayload),
     getSupportedHeaderFeatureFlagsMask = 0, supportsSequenceNumbers = False\<rparr>"

definition AckMsgEx_initFromValue :: "u32 \<Rightarrow> byte list \<Rightarrow> SimpleStringMsg NetMessage" where
  "AckMsgEx_initFromValue uid val = NetMessage_init uid 4003 SimpleStringMsg_Ops (SimpleStringMsg_initFromValue val)"

text \<open>Whether an ack was asked for, and the bytes that are sent.\<close>

definition MsgHelperAck_respondToAckRequest ::
    "u32 \<Rightarrow> byte list \<Rightarrow> byte list \<Rightarrow> u64 \<Rightarrow> (bool \<times> byte list option) option" where
  "MsgHelperAck_respondToAckRequest uid ackID respBuf bufLen =
     (if ackID = [] then Some (False, None)
      else do {
        let respMsg = AckMsgEx_initFromValue uid ackID;
        (respLen, respMsg) \<leftarrow> NetMessage_getMsgLength respMsg;
        (serializeRes, respBuf, _) \<leftarrow> NetMessage_serialize respMsg respBuf bufLen;
        Some (True, if serializeRes then Some (take (unat respLen) respBuf) else None) })"

section \<open>Handlers\<close>

definition mapEach :: "NumNodeID \<Rightarrow> TargetPoolMapping list \<Rightarrow> TargetMapper \<Rightarrow> TargetMapper" where
  "mapEach nodeID mappings targetMapper =
     foldl (\<lambda>tm mapping. snd (TargetMapper_mapTarget tm (tp_targetID mapping) nodeID)) targetMapper mappings"

definition MapTargetsMsgEx_processIncoming ::
    "u32 \<Rightarrow> MapTargetsMsgEx \<Rightarrow> byte list \<Rightarrow> u64 \<Rightarrow> TargetMapper \<Rightarrow> (bool \<times> byte list option \<times> TargetMapper) option" where
  "MapTargetsMsgEx_processIncoming uid this respBuf bufLen targetMapper = do {
     let targetMapper = mapEach (mt_nodeID this) (mt_poolMappings this) targetMapper;
     (_, sent) \<leftarrow> MsgHelperAck_respondToAckRequest uid (mt_ackID this) respBuf bufLen;
     Some (True, sent, targetMapper) }"

abbreviation (input) "NODETYPE_Meta \<equiv> (1 :: u32)"
abbreviation (input) "NODETYPE_Storage \<equiv> (2 :: u32)"

text \<open>The groups of both mappers live in one world.\<close>

record App =
  app_targetMapper :: TargetMapper
  app_storageBuddyGroupMapper :: MirrorBuddyGroupMapper
  app_metaBuddyGroupMapper :: MirrorBuddyGroupMapper
  app_world :: World
  app_connMaxInternodeNum :: u32

definition SetMirrorBuddyGroupMsgEx_processIncoming ::
    "groupMem \<Rightarrow> u32 \<Rightarrow> SetMirrorBuddyGroupMsgEx \<Rightarrow> byte list \<Rightarrow> u64 \<Rightarrow> App \<Rightarrow>
     (bool \<times> byte list option \<times> App) option" where
  "SetMirrorBuddyGroupMsgEx_processIncoming mem uid this respBuf bufLen app =
     (let add = (\<lambda>tm mapper. MirrorBuddyGroupMapper_addGroup mem (app_connMaxInternodeNum app) tm (smg_buddyGroupID this)
                  (smg_primaryTargetID this) (smg_secondaryTargetID this) (smg_allowUpdate this) mapper (app_world app));
          respond = (\<lambda>app. do {
            (_, sent) \<leftarrow> MsgHelperAck_respondToAckRequest uid (smg_ackID this) respBuf bufLen;
            Some (True, sent, app) })
      in if smg_nodeType this = NODETYPE_Storage then
           (case add (Some (app_targetMapper app)) (app_storageBuddyGroupMapper app) of
              (_, mapper, w) \<Rightarrow> respond (app\<lparr>app_storageBuddyGroupMapper := mapper, app_world := w\<rparr>))
         else if smg_nodeType this = NODETYPE_Meta then
           (case add None (app_metaBuddyGroupMapper app) of
              (_, mapper, w) \<Rightarrow> respond (app\<lparr>app_metaBuddyGroupMapper := mapper, app_world := w\<rparr>))
         else Some (False, None, app))"

section \<open>Acknowledgements arrive\<close>

definition ack_ok :: "NetMessageHeader \<Rightarrow> SimpleStringMsg \<Rightarrow> bool" where
  "ack_ok h p \<longleftrightarrow> small_str (ss_value p) \<and> ss_valueLen p = of_nat (length (ss_value p))"

interpretation SimpleStringMsg: sendable SimpleStringMsg_Ops ack_ok
proof
  fix h p l
  show "serializePayload SimpleStringMsg_Ops (h\<lparr>msgLength := l\<rparr>) p = serializePayload SimpleStringMsg_Ops h p"
    by (simp add: SimpleStringMsg_Ops_def)
  assume ok: "ack_ok h p"
  show "writes (2 ^ 24) (serializePayload SimpleStringMsg_Ops h p)"
    unfolding SimpleStringMsg_Ops_def NetMessageOps.simps SimpleStringMsg_serializePayload_def [abs_def]
    by (rule writes_mono, rule writes_str(1)) (use ok in \<open>simp_all add: ack_ok_def\<close>)
qed

lemma ack_stored:
  assumes s: "small_str val" and buf: "unat bufLen \<le> length buf" "length buf < 2 ^ 32"
  shows "\<exists>len. unat len = 40 + length (str_enc val) \<and>
    (let msg = AckMsgEx_initFromValue uid val; msg' = msg\<lparr>msgHeader := (msgHeader msg)\<lparr>msgLength := len\<rparr>\<rparr> in
     NetMessage_getMsgLength msg = Some (len, msg') \<and>
     NetMessage_serialize msg' buf bufLen =
       (if bufLen < ucast len then Some (False, buf, msg')
        else Some (True, header_enc (msgHeader msg) len @ str_enc val @ drop (unat len) buf, msg')))"
proof -
  let ?msg = "AckMsgEx_initFromValue uid val"
  have m: "ops ?msg = SimpleStringMsg_Ops" "msgLength (msgHeader ?msg) = 0"
    by (simp_all add: AckMsgEx_initFromValue_def NetMessage_init_def)
  have e: "emits (serializePayload SimpleStringMsg_Ops (msgHeader ?msg) (msgPayload ?msg)) (str_enc val)"
    unfolding SimpleStringMsg_Ops_def NetMessageOps.simps SimpleStringMsg_serializePayload_def [abs_def]
    using emits_strs(1) [OF small_str_ok [OF s]]
    by (simp add: AckMsgEx_initFromValue_def NetMessage_init_def SimpleStringMsg_initFromValue_def)
  have l: "length (str_enc val) \<le> 2 ^ 24" using length_strs(1) [OF s] by simp
  obtain len where len: "unat len = 40 + length (str_enc val)"
    and *: "NetMessage_getMsgLength ?msg = Some (len, ?msg\<lparr>msgHeader := (msgHeader ?msg)\<lparr>msgLength := len\<rparr>\<rparr>)"
      "NetMessage_serialize ?msg buf bufLen =
       (if bufLen < ucast len then Some (False, buf, ?msg\<lparr>msgHeader := (msgHeader ?msg)\<lparr>msgLength := len\<rparr>\<rparr>)
        else Some (True, header_enc (msgHeader ?msg) len @ str_enc val @ drop (unat len) buf,
                   ?msg\<lparr>msgHeader := (msgHeader ?msg)\<lparr>msgLength := len\<rparr>\<rparr>))"
    using SimpleStringMsg.stored_bytes [OF m l e buf] unfolding Let_def by blast
  let ?m' = "?msg\<lparr>msgHeader := (msgHeader ?msg)\<lparr>msgLength := len\<rparr>\<rparr>"
  have "len \<noteq> 0" using len by auto
  then have "NetMessage_getMsgLength ?m' = Some (len, ?m')" by (simp add: NetMessage_getMsgLength_def)
  then have "NetMessage_serialize ?m' buf bufLen = NetMessage_serialize ?msg buf bufLen"
    by (simp add: NetMessage_serialize_def *(1))
  then show ?thesis using len * by (intro exI [of _ len]) (simp add: Let_def)
qed

lemma ack_received:
  assumes s: "small_str val" and len: "unat len = 40 + length (str_enc val)"
  shows "NetMessageFactory_createFromBuf alloc uid' fresh (header_enc (msgHeader (AckMsgEx_initFromValue uid val)) len @ str_enc val) (ucast len)
    = Done \<lparr>rc_header = (msgHeader (AckMsgEx_initFromValue uid val))\<lparr>msgLength := len\<rparr>, rc_class = CAckMsgEx,
        rc_payload = Some (StringPayload (SimpleStringMsg_initFromValue val))\<rparr>"
proof -
  let ?h = "msgHeader (AckMsgEx_initFromValue uid val)"
  let ?buf = "header_enc ?h len @ str_enc val" and ?ctx = "\<lparr>d_pos = 0, d_length = ucast len\<rparr> :: DeserializeCtx"
  have lb: "length ?buf = unat len" by (simp add: len)
  have "unat len < 2 ^ 32" using unat_bound [of len] by simp
  then have ok: "ctx_ok ?buf ?ctx" and v: "view ?buf ?ctx = ?buf"
    using lb by (simp_all add: ctx_ok_def view_def unat_ucast_up)
  have flags: "header_flags_ok ?h" by (simp add: AckMsgEx_initFromValue_def NetMessage_init_def header_flags_ok_def)
  have hdr: "NetMessage_deserializeHeader ?buf (fresh, ?ctx) = Done (?h\<lparr>msgLength := len\<rparr>, advance ?ctx 40)"
    by (rule deserializeHeader_reads [OF ok v _ flags]) simp
  have adv: "ctx_ok ?buf (advance ?ctx (of_nat 40))" "view ?buf (advance ?ctx (of_nat 40)) = str_enc val @ []"
    using advance_append [OF ok, of "header_enc ?h len" "str_enc val"] v by simp_all
  have rd: "recvStr ?buf (advance ?ctx 40) = Done ((of_nat (length val), val), advance (advance ?ctx 40) (of_nat (length (str_enc val))))"
    using readsD [OF reads_recvStr [OF small_str_ok [OF s]] adv] by simp
  have t: "msgType ?h = 4003" "msgFeatureFlags ?h = 0" by (simp_all add: AckMsgEx_initFromValue_def NetMessage_init_def)
  show ?thesis
    by (simp add: NetMessageFactory_createFromBuf_def hdr t NetMessageFactory_createFromMsgType_def
        NetMessageFactory_deserializeRaw_def readAs_def SimpleStringMsg_deserializePayload_def rd SimpleStringMsg_initFromValue_def)
qed

lemma respond_ack:
  assumes s: "small_str ackID" "ackID \<noteq> []" and buf: "unat bufLen \<le> length respBuf" "length respBuf < 2 ^ 32"
  shows "\<exists>sent. MsgHelperAck_respondToAckRequest uid ackID respBuf bufLen = Some (True, sent) \<and>
    (sent = None \<longleftrightarrow> bufLen < of_nat (40 + length (str_enc ackID))) \<and>
    (\<forall>bytes alloc uid' fresh. sent = Some bytes \<longrightarrow>
      (\<exists>msg. NetMessageFactory_createFromBuf alloc uid' fresh bytes (of_nat (length bytes)) = Done msg
        \<and> rc_class msg = CAckMsgEx \<and> rc_payload msg = Some (StringPayload (SimpleStringMsg_initFromValue ackID))))"
proof -
  let ?msg = "AckMsgEx_initFromValue uid ackID"
  obtain len where len: "unat len = 40 + length (str_enc ackID)"
    and get: "NetMessage_getMsgLength ?msg = Some (len, ?msg\<lparr>msgHeader := (msgHeader ?msg)\<lparr>msgLength := len\<rparr>\<rparr>)"
    and ser: "NetMessage_serialize (?msg\<lparr>msgHeader := (msgHeader ?msg)\<lparr>msgLength := len\<rparr>\<rparr>) respBuf bufLen =
       (if bufLen < ucast len then Some (False, respBuf, ?msg\<lparr>msgHeader := (msgHeader ?msg)\<lparr>msgLength := len\<rparr>\<rparr>)
        else Some (True, header_enc (msgHeader ?msg) len @ str_enc ackID @ drop (unat len) respBuf,
          ?msg\<lparr>msgHeader := (msgHeader ?msg)\<lparr>msgLength := len\<rparr>\<rparr>))"
    using ack_stored [OF s(1) buf, of uid] unfolding Let_def by blast
  have ul: "(of_nat (40 + length (str_enc ackID)) :: u64) = ucast len"
    unfolding len [symmetric] by (rule ucast_as_of_nat [symmetric])
  have r: "MsgHelperAck_respondToAckRequest uid ackID respBuf bufLen =
      Some (True, if bufLen < ucast len then None else Some (header_enc (msgHeader ?msg) len @ str_enc ackID))"
    using s(2) by (simp add: MsgHelperAck_respondToAckRequest_def get ser Let_def) (simp add: len)
  let ?bytes = "header_enc (msgHeader ?msg) len @ str_enc ackID"
  have bl: "(of_nat (length ?bytes) :: u64) = ucast len" using ul by simp
  show ?thesis
  proof (cases "bufLen < ucast len")
    case True
    then show ?thesis by (intro exI [of _ None]) (simp only: r ul if_True, simp)
  next
    case False
    have "\<exists>msg. NetMessageFactory_createFromBuf alloc uid' fresh ?bytes (of_nat (length ?bytes)) = Done msg
        \<and> rc_class msg = CAckMsgEx \<and> rc_payload msg = Some (StringPayload (SimpleStringMsg_initFromValue ackID))"
      for alloc uid' fresh
      unfolding bl ack_received [OF s(1) len] by simp
    with False show ?thesis
      by (intro exI [of _ "Some ?bytes"]) (simp only: r ul if_False option.inject, blast)
  qed
qed

lemma mapEach_ok:
  "mapper_ok tm \<Longrightarrow> mapper_ok (mapEach node xs tm) \<and>
   (\<forall>t. TargetMapper_getNodeID (mapEach node xs tm) t = (if t \<in> tp_targetID ` set xs then node else TargetMapper_getNodeID tm t))"
proof (induction xs arbitrary: tm)
  case (Cons x xs)
  note m = mapTarget_getNodeID [OF Cons.prems, of "tp_targetID x" node]
  from Cons.IH [of "snd (TargetMapper_mapTarget tm (tp_targetID x) node)"] m show ?case
    by (auto simp: mapEach_def)
qed (simp add: mapEach_def)

text \<open>C18: Processing a received target mapping maps every target of the message to the node it names and leaves
  every other target's node as it was. If the message asks for an acknowledgement, one is sent exactly
  when it fits the response buffer, and a receiver's factory reads from it the same ack ID.\<close>

theorem mapTargets_incoming:
  assumes "mapper_ok tm" "small_str (mt_ackID msg)" "unat bufLen \<le> length respBuf" "length respBuf < 2 ^ 32"
  shows "\<exists>sent tm'. MapTargetsMsgEx_processIncoming uid msg respBuf bufLen tm = Some (True, sent, tm')
    \<and> mapper_ok tm'
    \<and> (\<forall>t. TargetMapper_getNodeID tm' t =
          (if t \<in> tp_targetID ` set (mt_poolMappings msg) then mt_nodeID msg else TargetMapper_getNodeID tm t))
    \<and> (sent = None \<longleftrightarrow> mt_ackID msg = [] \<or> bufLen < of_nat (40 + length (str_enc (mt_ackID msg))))
    \<and> (\<forall>bytes alloc uid' fresh. sent = Some bytes \<longrightarrow>
        (\<exists>ack. NetMessageFactory_createFromBuf alloc uid' fresh bytes (of_nat (length bytes)) = Done ack
          \<and> rc_class ack = CAckMsgEx
          \<and> rc_payload ack = Some (StringPayload (SimpleStringMsg_initFromValue (mt_ackID msg)))))"
proof (cases "mt_ackID msg = []")
  case True
  then show ?thesis
    using mapEach_ok [OF assms(1)]
    by (simp add: MapTargetsMsgEx_processIncoming_def MsgHelperAck_respondToAckRequest_def)
next
  case False
  obtain sent where r: "MsgHelperAck_respondToAckRequest uid (mt_ackID msg) respBuf bufLen = Some (True, sent)"
    and s: "sent = None \<longleftrightarrow> bufLen < of_nat (40 + length (str_enc (mt_ackID msg)))"
      "\<forall>bytes alloc uid' fresh. sent = Some bytes \<longrightarrow>
      (\<exists>ack. NetMessageFactory_createFromBuf alloc uid' fresh bytes (of_nat (length bytes)) = Done ack
        \<and> rc_class ack = CAckMsgEx \<and> rc_payload ack = Some (StringPayload (SimpleStringMsg_initFromValue (mt_ackID msg))))"
    using respond_ack [OF assms(2) False assms(3,4), of uid] by blast
  show ?thesis
    by (intro exI [of _ sent] exI [of _ "mapEach (mt_nodeID msg) (mt_poolMappings msg) tm"])
      (use mapEach_ok [OF assms(1)] r s False in \<open>simp add: MapTargetsMsgEx_processIncoming_def del: of_nat_add\<close>)
qed

theorem mapTargets_incoming_witness:
  "\<exists>sent tm'. MapTargetsMsgEx_processIncoming 0
       \<lparr>mt_nodeID = \<lparr>nn_value = 7\<rparr>, mt_ackIDLen = 1, mt_ackID = [65],
        mt_poolMappings = [\<lparr>tp_targetID = 3, tp_poolID = \<lparr>sp_value = 1\<rparr>\<rparr>]\<rparr> (replicate 64 0) 64 TargetMapper_init
       = Some (True, sent, tm')
    \<and> TargetMapper_getNodeID tm' 3 = \<lparr>nn_value = 7\<rparr> \<and> sent \<noteq> None"
proof -
  let ?msg = "\<lparr>mt_nodeID = \<lparr>nn_value = 7\<rparr>, mt_ackIDLen = 1, mt_ackID = [65],
        mt_poolMappings = [\<lparr>tp_targetID = 3, tp_poolID = \<lparr>sp_value = 1\<rparr>\<rparr>]\<rparr> :: MapTargetsMsgEx"
  have "mapper_ok TargetMapper_init" by (simp add: mapper_ok_def TargetMapper_init_def)
  moreover have "small_str (mt_ackID ?msg)" by (simp add: small_str_def)
  ultimately show ?thesis
    using mapTargets_incoming [of TargetMapper_init ?msg 64 "replicate 64 0" 0] by (fastforce simp: str_enc_def)
qed

end
