(* ===== verification/PointerLists.thy ===== *)
theory PointerLists
  imports Prelude
begin

text \<open>
  \<^verbatim>\<open>common/toolkit/list/PointerList.h\<close> and \<^verbatim>\<open>PointerListIter.h\<close>: doubly linked lists of pointers, the base
  of all list and vector types of the client. The elements live in a store of cells; a pointer is an
  address or \<^const>\<open>None\<close> for null. Freed cells are \<^const>\<open>None\<close> and addresses are never reused, so an operation
  is \<^const>\<open>None\<close> exactly when it follows a null pointer or uses freed memory (or does not return).
\<close>

section \<open>Cells and lists\<close>

type_synonym addr = nat

record 'v PointerListElem =
  valuePointer :: 'v
  el_prev :: "addr option"
  el_next :: "addr option"

record PointerList =
  pl_head :: "addr option"
  pl_tail :: "addr option"
  pl_length :: u64

record 'v cellStore =
  cells :: "addr \<Rightarrow> 'v PointerListElem option"
  nextAddr :: addr

text \<open>Dereferencing, assignment through a pointer, \<^verbatim>\<open>kmalloc\<close> followed by the initialisation, \<^verbatim>\<open>kfree\<close>.\<close>

definition deref :: "'v cellStore \<Rightarrow> addr option \<Rightarrow> 'v PointerListElem option" where
  "deref s p = p \<bind> cells s"

definition updElem ::
    "('v PointerListElem \<Rightarrow> 'v PointerListElem) \<Rightarrow> addr option \<Rightarrow> 'v cellStore \<Rightarrow> 'v cellStore option" where
  "updElem f p s = do {
     a \<leftarrow> p;
     e \<leftarrow> cells s a;
     Some (s\<lparr>cells := (cells s)(a \<mapsto> f e)\<rparr>) }"

definition newElem :: "'v PointerListElem \<Rightarrow> 'v cellStore \<Rightarrow> addr \<times> 'v cellStore" where
  "newElem e s = (nextAddr s, s\<lparr>cells := (cells s)(nextAddr s \<mapsto> e), nextAddr := nextAddr s + 1\<rparr>)"

definition freeElem :: "addr option \<Rightarrow> 'v cellStore \<Rightarrow> 'v cellStore option" where
  "freeElem p s = do {
     a \<leftarrow> p;
     e \<leftarrow> cells s a;
     Some (s\<lparr>cells := (cells s)(a := None)\<rparr>) }"

definition PointerList_init :: PointerList where
  "PointerList_init = \<lparr>pl_head = None, pl_tail = None, pl_length = 0\<rparr>"

definition PointerList_addHead ::
    "'v \<Rightarrow> PointerList \<times> 'v cellStore \<Rightarrow> (PointerList \<times> 'v cellStore) option" where
  "PointerList_addHead v = (\<lambda>(this, s).
     if pl_length this \<noteq> 0
     then do {
       let (elem, s) = newElem \<lparr>valuePointer = v, el_prev = None, el_next = pl_head this\<rparr> s;
       s \<leftarrow> updElem (\<lambda>e. e\<lparr>el_prev := Some elem\<rparr>) (pl_head this) s;
       Some (this\<lparr>pl_head := Some elem, pl_length := pl_length this + 1\<rparr>, s) }
     else
       let (elem, s) = newElem \<lparr>valuePointer = v, el_prev = None, el_next = None\<rparr> s
       in Some (this\<lparr>pl_head := Some elem, pl_tail := Some elem, pl_length := pl_length this + 1\<rparr>, s))"

definition PointerList_addTail ::
    "'v \<Rightarrow> PointerList \<times> 'v cellStore \<Rightarrow> (PointerList \<times> 'v cellStore) option" where
  "PointerList_addTail v = (\<lambda>(this, s).
     if pl_length this \<noteq> 0
     then do {
       let (elem, s) = newElem \<lparr>valuePointer = v, el_prev = pl_tail this, el_next = None\<rparr> s;
       s \<leftarrow> updElem (\<lambda>e. e\<lparr>el_next := Some elem\<rparr>) (pl_tail this) s;
       Some (this\<lparr>pl_tail := Some elem, pl_length := pl_length this + 1\<rparr>, s) }
     else
       let (elem, s) = newElem \<lparr>valuePointer = v, el_prev = None, el_next = None\<rparr> s
       in Some (this\<lparr>pl_head := Some elem, pl_tail := Some elem, pl_length := pl_length this + 1\<rparr>, s))"

definition PointerList_append ::
    "'v \<Rightarrow> PointerList \<times> 'v cellStore \<Rightarrow> (PointerList \<times> 'v cellStore) option" where
  "PointerList_append = PointerList_addTail"

definition PointerList_removeHead ::
    "PointerList \<times> 'v cellStore \<Rightarrow> (PointerList \<times> 'v cellStore) option" where
  "PointerList_removeHead = (\<lambda>(this, s).
     if pl_length this = 1
     then do {
       s \<leftarrow> freeElem (pl_head this) s;
       Some (this\<lparr>pl_head := None, pl_tail := None, pl_length := 0\<rparr>, s) }
     else do {
       e \<leftarrow> deref s (pl_head this);
       let newHead = el_next e;
       s \<leftarrow> freeElem (pl_head this) s;
       s \<leftarrow> updElem (\<lambda>e. e\<lparr>el_prev := None\<rparr>) newHead s;
       Some (this\<lparr>pl_head := newHead, pl_length := pl_length this - 1\<rparr>, s) })"

definition PointerList_removeTail ::
    "PointerList \<times> 'v cellStore \<Rightarrow> (PointerList \<times> 'v cellStore) option" where
  "PointerList_removeTail = (\<lambda>(this, s).
     if pl_length this = 1
     then do {
       s \<leftarrow> freeElem (pl_tail this) s;
       Some (this\<lparr>pl_head := None, pl_tail := None, pl_length := 0\<rparr>, s) }
     else do {
       e \<leftarrow> deref s (pl_tail this);
       let newTail = el_prev e;
       s \<leftarrow> freeElem (pl_tail this) s;
       s \<leftarrow> updElem (\<lambda>e. e\<lparr>el_next := None\<rparr>) newTail s;
       Some (this\<lparr>pl_tail := newTail, pl_length := pl_length this - 1\<rparr>, s) })"

definition PointerList_removeElem ::
    "addr \<Rightarrow> PointerList \<times> 'v cellStore \<Rightarrow> (PointerList \<times> 'v cellStore) option" where
  "PointerList_removeElem elem = (\<lambda>(this, s).
     if Some elem = pl_head this then PointerList_removeHead (this, s)
     else if Some elem = pl_tail this then PointerList_removeTail (this, s)
     else do {
       e \<leftarrow> deref s (Some elem);
       let prev = el_prev e;
       let next = el_next e;
       s \<leftarrow> updElem (\<lambda>e. e\<lparr>el_next := next\<rparr>) prev s;
       s \<leftarrow> updElem (\<lambda>e. e\<lparr>el_prev := prev\<rparr>) next s;
       s \<leftarrow> freeElem (Some elem) s;
       Some (this\<lparr>pl_length := pl_length this - 1\<rparr>, s) })"

definition PointerList_length :: "PointerList \<Rightarrow> u64" where
  "PointerList_length this = pl_length this"

partial_function (option) clearLoop :: "addr option \<Rightarrow> 'v cellStore \<Rightarrow> 'v cellStore option" where
  "clearLoop elem s =
     (case elem of
        None \<Rightarrow> Some s
      | Some a \<Rightarrow> do {
          e \<leftarrow> deref s (Some a);
          s \<leftarrow> freeElem (Some a) s;
          clearLoop (el_next e) s })"

definition PointerList_clear ::
    "PointerList \<times> 'v cellStore \<Rightarrow> (PointerList \<times> 'v cellStore) option" where
  "PointerList_clear = (\<lambda>(this, s). do {
     s \<leftarrow> clearLoop (pl_head this) s;
     Some (\<lparr>pl_head = None, pl_tail = None, pl_length = 0\<rparr>, s) })"

section \<open>Iterators\<close>

text \<open>An iterator is its current element; \<^const>\<open>None\<close> at the end.\<close>

type_synonym PointerListIter = "addr option"

definition PointerListIter_init :: "PointerList \<Rightarrow> PointerListIter" where
  "PointerListIter_init list = pl_head list"

definition PointerListIter_next :: "'v cellStore \<Rightarrow> PointerListIter \<Rightarrow> PointerListIter option" where
  "PointerListIter_next s it = map_option el_next (deref s it)"

definition PointerListIter_value :: "'v cellStore \<Rightarrow> PointerListIter \<Rightarrow> 'v option" where
  "PointerListIter_value s it = map_option valuePointer (deref s it)"

definition PointerListIter_end :: "PointerListIter \<Rightarrow> bool" where
  "PointerListIter_end it = (it = None)"

definition PointerListIter_remove ::
    "PointerListIter \<Rightarrow> PointerList \<times> 'v cellStore \<Rightarrow>
     (PointerListIter \<times> PointerList \<times> 'v cellStore) option" where
  "PointerListIter_remove it = (\<lambda>(this, s). do {
     newIter \<leftarrow> PointerListIter_next s it;
     elem \<leftarrow> it;
     (this, s) \<leftarrow> PointerList_removeElem elem (this, s);
     Some (newIter, this, s) })"

text \<open>The usual loop over a list, collecting the values.\<close>

partial_function (option) iterValues :: "'v cellStore \<Rightarrow> PointerListIter \<Rightarrow> 'v list option" where
  "iterValues s it =
     (if PointerListIter_end it then Some []
      else do {
        v \<leftarrow> PointerListIter_value s it;
        it \<leftarrow> PointerListIter_next s it;
        vs \<leftarrow> iterValues s it;
        Some (v # vs) })"

section \<open>Segments of linked cells\<close>

text \<open>
  \<open>seg c p xs n\<close>: the addresses and values \<open>xs\<close> are linked cells, the first one pointing back to \<open>p\<close>, the
  last one on to \<open>n\<close>.
\<close>

fun first :: "(addr \<times> 'v) list \<Rightarrow> addr option \<Rightarrow> addr option" where
  "first [] n = n"
| "first ((a, v) # xs) n = Some a"

definition final :: "addr option \<Rightarrow> (addr \<times> 'v) list \<Rightarrow> addr option" where
  "final p xs = (if xs = [] then p else Some (fst (last xs)))"

fun seg :: "(addr \<Rightarrow> 'v PointerListElem option) \<Rightarrow> addr option \<Rightarrow> (addr \<times> 'v) list \<Rightarrow> addr option \<Rightarrow> bool" where
  "seg c p [] n \<longleftrightarrow> True"
| "seg c p ((a, v) # xs) n \<longleftrightarrow>
     c a = Some \<lparr>valuePointer = v, el_prev = p, el_next = first xs n\<rparr> \<and> seg c (Some a) xs n"

lemma first_append [simp]: "first (xs @ ys) n = first xs (first ys n)"
  by (cases xs) auto

lemma final_simps [simp]: "final p [] = p" "final p (xs @ ys) = final (final p xs) ys" "final p (x # xs) = final (Some (fst x)) xs"
  by (simp_all add: final_def)

lemma seg_append [simp]: "seg c p (xs @ ys) n \<longleftrightarrow> seg c p xs (first ys n) \<and> seg c (final p xs) ys n"
  by (induction xs arbitrary: p) (auto simp: final_def split: prod.splits)

lemma seg_upd [simp]: "a \<notin> fst ` set xs \<Longrightarrow> seg (c(a := z)) p xs n = seg c p xs n"
  by (induction c p xs n rule: seg.induct) auto

lemma seg_live: "seg c p xs n \<Longrightarrow> a \<in> fst ` set xs \<Longrightarrow> c a \<noteq> None"
  by (induction c p xs n rule: seg.induct) auto

text \<open>A well-formed list: its cells are exactly \<open>xs\<close>, in order, and nothing else is live in \<open>own\<close>.\<close>

definition pl_ok :: "PointerList \<times> 'v cellStore \<Rightarrow> (addr \<times> 'v) list \<Rightarrow> bool" where
  "pl_ok = (\<lambda>(this, s) xs. seg (cells s) None xs None \<and> distinct (map fst xs) \<and>
     pl_head this = first xs None \<and> pl_tail this = final None xs \<and>
     unat (pl_length this) = length xs \<and> (\<forall>a. cells s a \<noteq> None \<longrightarrow> a < nextAddr s))"

lemma pl_okD:
  assumes "pl_ok (this, s) xs"
  shows "seg (cells s) None xs None" "distinct (map fst xs)" "pl_head this = first xs None"
    "pl_tail this = final None xs" "unat (pl_length this) = length xs"
    "\<And>a. cells s a \<noteq> None \<Longrightarrow> a < nextAddr s" "cells s (nextAddr s) = None"
    "nextAddr s \<notin> fst ` set xs"
proof -
  show d: "seg (cells s) None xs None" "distinct (map fst xs)" "pl_head this = first xs None"
    "pl_tail this = final None xs" "unat (pl_length this) = length xs"
    and lt: "\<And>a. cells s a \<noteq> None \<Longrightarrow> a < nextAddr s"
    using assms by (auto simp: pl_ok_def)
  show n: "cells s (nextAddr s) = None" using lt by blast
  show "nextAddr s \<notin> fst ` set xs" using seg_live [OF d(1)] n by blast
qed

lemma pl_nonempty: "pl_ok (this, s) xs \<Longrightarrow> pl_length this \<noteq> 0 \<longleftrightarrow> xs \<noteq> []"
  using pl_okD(5) [of this s xs] by (metis length_0_conv unat_eq_0)

lemma pl_single: "pl_ok (this, s) xs \<Longrightarrow> pl_length this = 1 \<longleftrightarrow> length xs = 1"
  using pl_okD(5) [of this s xs] word_unat_eq_iff [of "pl_length this" 1] by simp

lemma pl_init_ok: "(\<forall>a. cells s a \<noteq> None \<longrightarrow> a < nextAddr s) \<Longrightarrow> pl_ok (PointerList_init, s) []"
  by (simp add: pl_ok_def PointerList_init_def)

lemma addHead_ok:
  assumes ok: "pl_ok (this, s) xs" and len: "length xs + 1 < 2 ^ 64"
  shows "\<exists>this' s'. PointerList_addHead v (this, s) = Some (this', s') \<and> pl_ok (this', s') ((nextAddr s, v) # xs)
    \<and> (\<forall>b. b \<notin> fst ` set xs \<longrightarrow> b \<noteq> nextAddr s \<longrightarrow> cells s' b = cells s b)"
proof -
  note d = pl_okD [OF ok]
  have l: "unat (pl_length this + 1) = length xs + 1"
    using d(5) len by (subst unat_plus_le) simp_all
  show ?thesis
  proof (cases xs)
    case Nil
    then show ?thesis
      using d l pl_nonempty [OF ok]
      by (auto simp: PointerList_addHead_def newElem_def pl_ok_def less_Suc_eq)
  next
    case (Cons x ys)
    obtain b w where x: "x = (b, w)" by (cases x)
    have b: "cells s b = Some \<lparr>valuePointer = w, el_prev = None, el_next = first ys None\<rparr>"
        "b \<noteq> nextAddr s" "nextAddr s \<notin> fst ` set ys" "b \<notin> fst ` set ys"
      using d(1,2,8) Cons x by auto
    then show ?thesis
      using d l pl_nonempty [OF ok] Cons x
      by (auto simp: PointerList_addHead_def newElem_def updElem_def pl_ok_def less_Suc_eq fun_upd_twist)
  qed
qed

lemma addTail_ok:
  assumes ok: "pl_ok (this, s) xs" and len: "length xs + 1 < 2 ^ 64"
  shows "\<exists>this' s'. PointerList_addTail v (this, s) = Some (this', s') \<and> pl_ok (this', s') (xs @ [(nextAddr s, v)])
    \<and> (\<forall>b. b \<notin> fst ` set xs \<longrightarrow> b \<noteq> nextAddr s \<longrightarrow> cells s' b = cells s b)"
proof -
  note d = pl_okD [OF ok]
  have l: "unat (pl_length this + 1) = length xs + 1"
    using d(5) len by (subst unat_plus_le) simp_all
  show ?thesis
  proof (cases xs rule: rev_cases)
    case Nil
    then show ?thesis
      using d l pl_nonempty [OF ok]
      by (auto simp: PointerList_addTail_def newElem_def pl_ok_def less_Suc_eq)
  next
    case (snoc ys x)
    obtain b w where x: "x = (b, w)" by (cases x)
    have b: "cells s b = Some \<lparr>valuePointer = w, el_prev = final None ys, el_next = None\<rparr>"
        "b \<noteq> nextAddr s" "nextAddr s \<notin> fst ` set ys" "b \<notin> fst ` set ys"
      using d(1,2,8) snoc x by auto
    then show ?thesis
      using d l pl_nonempty [OF ok] snoc x
      by (auto simp: PointerList_addTail_def newElem_def updElem_def pl_ok_def less_Suc_eq fun_upd_twist)
  qed
qed

lemma unat_dec: "unat (w :: u64) = Suc n \<Longrightarrow> unat (w - 1) = n"
  by (metis Suc_eq_plus1 add_diff_cancel_right' unat_eq_0 unat_minus_one zero_less_Suc not_less0)

lemma removeHead_ok:
  assumes ok: "pl_ok (this, s) ((a, v) # xs)"
  shows "\<exists>this' s'. PointerList_removeHead (this, s) = Some (this', s') \<and> pl_ok (this', s') xs
    \<and> cells s' a = None \<and> (\<forall>b. b \<notin> fst ` set ((a, v) # xs) \<longrightarrow> cells s' b = cells s b) \<and> nextAddr s' = nextAddr s"
proof -
  note d = pl_okD [OF ok]
  have l: "unat (pl_length this - 1) = length xs" by (rule unat_dec) (use d(5) in simp)
  show ?thesis
  proof (cases xs)
    case Nil
    then show ?thesis
      using d pl_single [OF ok] by (auto simp: PointerList_removeHead_def freeElem_def pl_ok_def)
  next
    case (Cons y ys)
    obtain b w where y: "y = (b, w)" by (cases y)
    have b: "cells s b = Some \<lparr>valuePointer = w, el_prev = Some a, el_next = first ys None\<rparr>"
        "b \<noteq> a" "a \<notin> fst ` set ys" "b \<notin> fst ` set ys"
      using d(1,2) Cons y by auto
    then show ?thesis
      using d l pl_single [OF ok] Cons y
      by (auto simp: PointerList_removeHead_def freeElem_def updElem_def deref_def pl_ok_def)
  qed
qed

lemma removeTail_ok:
  assumes ok: "pl_ok (this, s) (xs @ [(a, v)])"
  shows "\<exists>this' s'. PointerList_removeTail (this, s) = Some (this', s') \<and> pl_ok (this', s') xs
    \<and> cells s' a = None \<and> (\<forall>b. b \<notin> fst ` set (xs @ [(a, v)]) \<longrightarrow> cells s' b = cells s b) \<and> nextAddr s' = nextAddr s"
proof -
  note d = pl_okD [OF ok]
  have l: "unat (pl_length this - 1) = length xs" by (rule unat_dec) (use d(5) in simp)
  show ?thesis
  proof (cases xs rule: rev_cases)
    case Nil
    then show ?thesis
      using d pl_single [OF ok] by (auto simp: PointerList_removeTail_def freeElem_def pl_ok_def)
  next
    case (snoc ys y)
    obtain b w where y: "y = (b, w)" by (cases y)
    have b: "cells s b = Some \<lparr>valuePointer = w, el_prev = final None ys, el_next = Some a\<rparr>"
        "b \<noteq> a" "a \<notin> fst ` set ys" "b \<notin> fst ` set ys"
      using d(1,2) snoc y by auto
    then show ?thesis
      using d l pl_single [OF ok] snoc y
      by (auto simp: PointerList_removeTail_def freeElem_def updElem_def deref_def pl_ok_def)
  qed
qed

lemma removeElem_ok:
  assumes ok: "pl_ok (this, s) (xs @ (a, v) # ys)"
  shows "\<exists>this' s'. PointerList_removeElem a (this, s) = Some (this', s') \<and> pl_ok (this', s') (xs @ ys)
    \<and> cells s' a = None \<and> (\<forall>b. b \<notin> fst ` set (xs @ (a, v) # ys) \<longrightarrow> cells s' b = cells s b) \<and> nextAddr s' = nextAddr s"
proof -
  note d = pl_okD [OF ok]
  have l: "unat (pl_length this - 1) = length xs + length ys" by (rule unat_dec) (use d(5) in simp)
  consider "xs = []" | "xs \<noteq> []" "ys = []" | xs' b w c u ys' where "xs = xs' @ [(b, w)]" "ys = (c, u) # ys'"
    by (metis list.exhaust prod.exhaust rev_exhaust)
  then show ?thesis
  proof cases
    case 1
    then show ?thesis using removeHead_ok [of this s a v ys] ok d(3) by (simp add: PointerList_removeElem_def)
  next
    case 2
    obtain b w xs' where xs: "xs = (b, w) # xs'" using 2(1) by (cases xs) auto
    then have "b \<noteq> a" using d(2) by auto
    then show ?thesis
      using removeTail_ok [of this s xs a v] ok 2 d(3,4) xs by (auto simp: PointerList_removeElem_def)
  next
    case 3
    have na: "a \<notin> fst ` set xs'" "a \<noteq> b" "a \<noteq> c" "a \<notin> fst ` set ys'" "b \<notin> fst ` set xs'" "b \<noteq> c"
        "b \<notin> fst ` set ys'" "c \<notin> fst ` set xs'" "c \<notin> fst ` set ys'"
      using d(2) 3 by auto
    have cs: "cells s a = Some \<lparr>valuePointer = v, el_prev = Some b, el_next = Some c\<rparr>"
        "cells s b = Some \<lparr>valuePointer = w, el_prev = final None xs', el_next = Some a\<rparr>"
        "cells s c = Some \<lparr>valuePointer = u, el_prev = Some a, el_next = first ys' None\<rparr>"
      using d(1) 3 by auto
    have "first xs' (Some b) \<noteq> Some a" using na(1,2) by (cases xs') auto
    moreover have "final (Some c) ys' \<noteq> Some a" using na(3,4) by (auto simp: final_def)
    ultimately show ?thesis
      using d l 3 na cs
      by (auto simp: PointerList_removeElem_def freeElem_def updElem_def deref_def pl_ok_def)
  qed
qed

lemma clearLoop_ok:
  "seg (cells s) p xs None \<Longrightarrow> distinct (map fst xs) \<Longrightarrow>
   \<exists>s'. clearLoop (first xs None) s = Some s' \<and> nextAddr s' = nextAddr s \<and>
     cells s' = (\<lambda>b. if b \<in> fst ` set xs then None else cells s b)"
proof (induction xs arbitrary: p s)
  case Nil
  then show ?case by (auto simp: clearLoop.simps)
next
  case (Cons x xs)
  obtain a v where x: "x = (a, v)" by (cases x)
  have a: "cells s a = Some \<lparr>valuePointer = v, el_prev = p, el_next = first xs None\<rparr>" "a \<notin> fst ` set xs"
      "seg (cells s) (Some a) xs None"
    using Cons.prems x by auto
  let ?s = "s\<lparr>cells := (cells s)(a := None)\<rparr>"
  have "seg (cells ?s) (Some a) xs None" "distinct (map fst xs)" using a(2,3) Cons.prems(2) by simp_all
  from Cons.IH [OF this] obtain s' where "clearLoop (first xs None) ?s = Some s'" "nextAddr s' = nextAddr s"
      "cells s' = (\<lambda>b. if b \<in> fst ` set xs then None else cells ?s b)"
    by auto
  then show ?case
    using a x by (subst clearLoop.simps) (auto simp: deref_def freeElem_def)
qed

lemma clear_ok:
  assumes ok: "pl_ok (this, s) xs"
  shows "\<exists>s'. PointerList_clear (this, s) = Some (PointerList_init, s') \<and> pl_ok (PointerList_init, s') []
    \<and> cells s' = (\<lambda>b. if b \<in> fst ` set xs then None else cells s b)"
proof -
  note d = pl_okD [OF ok]
  obtain s' where "clearLoop (first xs None) s = Some s'" "nextAddr s' = nextAddr s"
      "cells s' = (\<lambda>b. if b \<in> fst ` set xs then None else cells s b)"
    using clearLoop_ok [OF d(1,2)] by blast
  then show ?thesis
    using d(3,6) by (auto simp: PointerList_clear_def PointerList_init_def pl_ok_def split: if_splits)
qed

lemma iterValues_ok: "seg (cells s) p xs None \<Longrightarrow> iterValues s (first xs None) = Some (map snd xs)"
proof (induction xs arbitrary: p)
  case Nil
  then show ?case by (simp add: iterValues.simps PointerListIter_end_def)
next
  case (Cons x xs)
  obtain a v where x: "x = (a, v)" by (cases x)
  have "iterValues s (first xs None) = Some (map snd xs)" using Cons x by auto
  then show ?case
    using Cons.prems x by (subst iterValues.simps)
      (auto simp: PointerListIter_end_def PointerListIter_value_def PointerListIter_next_def deref_def)
qed

section \<open>Lists as sequences\<close>

text \<open>
  A run of a list: insertions at both ends, removals at both ends, removal through an iterator that was
  advanced \<open>i\<close> times, and clearing. \<open>absOp\<close> is the same operation on a plain sequence; it is undefined
  where the contract of the operation is violated.
\<close>

datatype 'v listOp = AddHead 'v | AddTail 'v | RemoveHead | RemoveTail | RemoveAt nat | ClearList

fun absOp :: "'v listOp \<Rightarrow> 'v list \<Rightarrow> 'v list option" where
  "absOp (AddHead v) vs = Some (v # vs)"
| "absOp (AddTail v) vs = Some (vs @ [v])"
| "absOp RemoveHead vs = (if vs = [] then None else Some (tl vs))"
| "absOp RemoveTail vs = (if vs = [] then None else Some (butlast vs))"
| "absOp (RemoveAt i) vs = (if i < length vs then Some (take i vs @ drop (Suc i) vs) else None)"
| "absOp ClearList vs = Some []"

fun advanceIter :: "nat \<Rightarrow> 'v cellStore \<Rightarrow> PointerListIter \<Rightarrow> PointerListIter option" where
  "advanceIter 0 s it = Some it"
| "advanceIter (Suc n) s it = PointerListIter_next s it \<bind> advanceIter n s"

fun doOp :: "'v listOp \<Rightarrow> PointerList \<times> 'v cellStore \<Rightarrow> (PointerList \<times> 'v cellStore) option" where
  "doOp (AddHead v) st = PointerList_addHead v st"
| "doOp (AddTail v) st = PointerList_append v st"
| "doOp RemoveHead st = PointerList_removeHead st"
| "doOp RemoveTail st = PointerList_removeTail st"
| "doOp (RemoveAt i) st = do {
     it \<leftarrow> advanceIter i (snd st) (PointerListIter_init (fst st));
     (it, st) \<leftarrow> PointerListIter_remove it st;
     Some st }"
| "doOp ClearList st = PointerList_clear st"

fun runs :: "('op \<Rightarrow> 's \<Rightarrow> 's option) \<Rightarrow> 'op list \<Rightarrow> 's \<Rightarrow> 's option" where
  "runs f [] s = Some s"
| "runs f (x # xs) s = f x s \<bind> runs f xs"

definition newOnly :: "'v cellStore \<Rightarrow> (addr \<times> 'v) list \<Rightarrow> bool" where
  "newOnly s xs \<longleftrightarrow> {a. cells s a \<noteq> None} = fst ` set xs"

lemma advanceIter_ok:
  "seg (cells s) p (xs @ ys) None \<Longrightarrow> advanceIter (length xs) s (first (xs @ ys) None) = Some (first ys None)"
proof (induction xs arbitrary: p)
  case (Cons x xs)
  obtain a v where x: "x = (a, v)" by (cases x)
  show ?case using Cons.IH [of "Some a"] Cons.prems x by (auto simp: PointerListIter_next_def deref_def)
qed simp

lemma removeAt_ok:
  assumes ok: "pl_ok (this, s) xs" and i: "i < length xs"
  shows "\<exists>this' s'. doOp (RemoveAt i) (this, s) = Some (this', s') \<and> pl_ok (this', s') (take i xs @ drop (Suc i) xs)
    \<and> cells s' (fst (xs ! i)) = None \<and> (\<forall>b. b \<notin> fst ` set xs \<longrightarrow> cells s' b = cells s b)"
proof -
  note d = pl_okD [OF ok]
  obtain a v where x: "xs ! i = (a, v)" by (cases "xs ! i")
  have xs: "xs = take i xs @ (a, v) # drop (Suc i) xs" using id_take_nth_drop [OF i] x by simp
  have len: "length (take i xs) = i" using i by simp
  have "advanceIter i s (first xs None) = Some (Some a)"
    using advanceIter_ok [of s None "take i xs" "(a, v) # drop (Suc i) xs"] d(1) xs len by simp
  moreover have "deref s (Some a) \<noteq> None" using seg_live [OF d(1), of a] i x
    by (metis deref_def bind.bind_lunit fst_conv image_eqI nth_mem)
  moreover obtain this' s' where "PointerList_removeElem a (this, s) = Some (this', s')"
      "pl_ok (this', s') (take i xs @ drop (Suc i) xs)" "cells s' a = None"
      "\<forall>b. b \<notin> fst ` set xs \<longrightarrow> cells s' b = cells s b"
    using removeElem_ok [of this s "take i xs" a v "drop (Suc i) xs"] ok xs by metis
  ultimately show ?thesis
    using d(3) x by (auto simp: PointerListIter_init_def PointerListIter_remove_def PointerListIter_next_def)
qed

lemma take_drop_snd: "map snd (take i xs @ drop (Suc i) xs) = take i (map snd xs) @ drop (Suc i) (map snd xs)"
  by (simp add: take_map drop_map)

lemma newOnly_step:
  assumes only: "newOnly s xs" and ok: "pl_ok (this', s') ys"
    and keep: "\<forall>b. b \<notin> A \<longrightarrow> cells s' b = cells s b" and sub: "fst ` set xs \<subseteq> A"
    and gone: "\<forall>b \<in> A. b \<notin> fst ` set ys \<longrightarrow> cells s' b = None"
  shows "newOnly s' ys"
proof -
  have "cells s' b \<noteq> None \<longleftrightarrow> b \<in> fst ` set ys" for b
  proof
    assume l: "cells s' b \<noteq> None"
    show "b \<in> fst ` set ys"
    proof (rule ccontr)
      assume n: "b \<notin> fst ` set ys"
      have nA: "b \<notin> A" using bspec [OF gone, of b] n l by argo
      have "cells s b \<noteq> None" using spec [OF keep, of b] nA l by simp
      then have "b \<in> {a. cells s a \<noteq> None}" by (rule CollectI)
      then have "b \<in> fst ` set xs" unfolding only [unfolded newOnly_def] .
      with sub nA show False by (auto dest: subsetD)
    qed
  next
    assume "b \<in> fst ` set ys"
    then show "cells s' b \<noteq> None" by (rule seg_live [OF pl_okD(1) [OF ok]])
  qed
  then show ?thesis by (simp add: newOnly_def set_eq_iff)
qed

lemma doOp_refines:
  assumes ok: "pl_ok st xs" and only: "newOnly (snd st) xs" and a: "absOp op (map snd xs) = Some vs"
    and len: "length xs + 1 < 2 ^ 64"
  shows "\<exists>st' ys. doOp op st = Some st' \<and> pl_ok st' ys \<and> newOnly (snd st') ys \<and> map snd ys = vs"
proof -
  obtain this s where st: "st = (this, s)" by (cases st)
  note ok' = ok [unfolded st] and only' = only [unfolded st snd_conv]
  show ?thesis
  proof (cases op)
    case (AddHead v)
    from addHead_ok [OF ok' len, of v] obtain this' s' where r: "PointerList_addHead v (this, s) = Some (this', s')"
        "pl_ok (this', s') ((nextAddr s, v) # xs)"
        "\<forall>b. b \<notin> fst ` set ((nextAddr s, v) # xs) \<longrightarrow> cells s' b = cells s b" by auto
    have "newOnly s' ((nextAddr s, v) # xs)" by (rule newOnly_step [OF only' r(2,3)]) auto
    then show ?thesis using r(1,2) a AddHead st by auto
  next
    case (AddTail v)
    from addTail_ok [OF ok' len, of v] obtain this' s' where r: "PointerList_addTail v (this, s) = Some (this', s')"
        "pl_ok (this', s') (xs @ [(nextAddr s, v)])"
        "\<forall>b. b \<notin> fst ` set (xs @ [(nextAddr s, v)]) \<longrightarrow> cells s' b = cells s b" by auto
    have "newOnly s' (xs @ [(nextAddr s, v)])" by (rule newOnly_step [OF only' r(2,3)]) auto
    then show ?thesis
      using r(1,2) a AddTail st by (intro exI [of _ "(this', s')"] exI [of _ "xs @ [(nextAddr s, v)]"])
        (simp add: PointerList_append_def)
  next
    case RemoveHead
    then obtain b v ys where xs: "xs = (b, v) # ys" using a by (cases xs) (auto split: if_splits)
    from removeHead_ok [OF ok' [unfolded xs]] obtain this' s' where r: "PointerList_removeHead (this, s) = Some (this', s')"
        "pl_ok (this', s') ys" "cells s' b = None"
        "\<forall>b. b \<notin> fst ` set xs \<longrightarrow> cells s' b = cells s b" using xs by auto
    have "newOnly s' ys" by (rule newOnly_step [OF only' r(2,4)]) (use xs r(3) in auto)
    then show ?thesis using r(1,2) a RemoveHead st xs by auto
  next
    case RemoveTail
    then obtain b v ys where xs: "xs = ys @ [(b, v)]"
      using a by (cases xs rule: rev_cases) (auto split: if_splits)
    from removeTail_ok [OF ok' [unfolded xs]] obtain this' s' where r: "PointerList_removeTail (this, s) = Some (this', s')"
        "pl_ok (this', s') ys" "cells s' b = None"
        "\<forall>b. b \<notin> fst ` set xs \<longrightarrow> cells s' b = cells s b" using xs by auto
    have "newOnly s' ys" by (rule newOnly_step [OF only' r(2,4)]) (use xs r(3) in auto)
    then show ?thesis using r(1,2) a RemoveTail st xs by auto
  next
    case (RemoveAt i)
    then have i: "i < length xs" and vs: "vs = take i (map snd xs) @ drop (Suc i) (map snd xs)"
      using a by (auto split: if_splits)
    obtain this' s' where r: "doOp op (this, s) = Some (this', s')" "pl_ok (this', s') (take i xs @ drop (Suc i) xs)"
        "cells s' (fst (xs ! i)) = None" "\<forall>b. b \<notin> fst ` set xs \<longrightarrow> cells s' b = cells s b"
      using removeAt_ok [OF ok' i] RemoveAt by blast
    have "set xs = insert (xs ! i) (set (take i xs @ drop (Suc i) xs))"
      using arg_cong [OF id_take_nth_drop [OF i], of set] by simp
    then have "fst ` set xs = insert (fst (xs ! i)) (fst ` set (take i xs @ drop (Suc i) xs))" by (metis image_insert)
    then have "\<forall>b \<in> fst ` set xs. b \<notin> fst ` set (take i xs @ drop (Suc i) xs) \<longrightarrow> cells s' b = None"
      using r(3) by simp
    then have "newOnly s' (take i xs @ drop (Suc i) xs)"
      by (intro newOnly_step [OF only' r(2,4)]) simp_all
    then show ?thesis
      using r(1,2) vs st take_drop_snd [of i xs]
      by (intro exI [of _ "(this', s')"] exI [of _ "take i xs @ drop (Suc i) xs"]) simp
  next
    case ClearList
    from clear_ok [OF ok'] obtain s' where r: "PointerList_clear (this, s) = Some (PointerList_init, s')"
        "pl_ok (PointerList_init, s') []" "cells s' = (\<lambda>b. if b \<in> fst ` set xs then None else cells s b)" by blast
    have "newOnly s' []" by (rule newOnly_step [OF only' r(2), of "fst ` set xs"]) (simp_all add: r(3))
    then show ?thesis using r(1,2) a ClearList st by auto
  qed
qed

lemma runs_refine:
  "pl_ok st xs \<Longrightarrow> newOnly (snd st) xs \<Longrightarrow> runs absOp ops (map snd xs) = Some vs \<Longrightarrow>
   length xs + length ops < 2 ^ 64 \<Longrightarrow>
   \<exists>st' ys. runs doOp ops st = Some st' \<and> pl_ok st' ys \<and> newOnly (snd st') ys \<and> map snd ys = vs"
proof (induction ops arbitrary: st xs)
  case (Cons op ops)
  obtain us where us: "absOp op (map snd xs) = Some us" "runs absOp ops us = Some vs"
    using Cons.prems(3) by (auto simp: bind_eq_Some_conv)
  obtain st1 ys where s1: "doOp op st = Some st1" "pl_ok st1 ys" "newOnly (snd st1) ys" "map snd ys = us"
    using doOp_refines [OF Cons.prems(1,2) us(1)] Cons.prems(4) by auto
  have "length us \<le> length (map snd xs) + 1" using us(1) by (cases op) (auto split: if_splits)
  then have "length ys + length ops < 2 ^ 64" using Cons.prems(4) s1(4) by (metis (mono_tags, lifting) Suc_eq_plus1
      add_Suc_shift add_le_mono1 length_Cons length_map order_le_less_trans)
  from Cons.IH [OF s1(2,3) us(2) [folded s1(4)] this] s1(1) show ?case by auto
qed auto

section \<open>Property\<close>

text \<open>C5: A linked list behaves as a sequence: for every sequence of insertions, removals (also through
  iterators) and clearings that is within the contract, the pointer operations succeed without
  following a null pointer or using freed memory, iterating over the result terminates and gives the
  values of the sequence, the length field is its length, and exactly its cells are allocated.\<close>

theorem pointerList_refines_sequence:
  assumes "runs absOp ops [] = Some vs" and "length ops < 2 ^ 64"
  shows "\<exists>this s. runs doOp ops (PointerList_init, \<lparr>cells = (\<lambda>_. None), nextAddr = 0\<rparr>) = Some (this, s)
    \<and> iterValues s (PointerListIter_init this) = Some vs
    \<and> unat (PointerList_length this) = length vs
    \<and> card {a. cells s a \<noteq> None} = length vs"
proof -
  let ?s = "\<lparr>cells = (\<lambda>_. None), nextAddr = 0\<rparr> :: 'a cellStore"
  have "pl_ok (PointerList_init, ?s) []" by (rule pl_init_ok) simp
  moreover have "newOnly ?s []" by (simp add: newOnly_def)
  ultimately obtain this s ys where r: "runs doOp ops (PointerList_init, ?s) = Some (this, s)"
      "pl_ok (this, s) ys" "newOnly s ys" "map snd ys = vs"
    using runs_refine [of "(PointerList_init, ?s)" "[]" ops vs] assms by auto
  note d = pl_okD [OF r(2)]
  have "iterValues s (PointerListIter_init this) = Some vs"
    using iterValues_ok [OF d(1)] d(3) r(4) by (simp add: PointerListIter_init_def)
  moreover have "card (fst ` set ys) = length ys" using distinct_card [OF d(2)] by simp
  ultimately show ?thesis
    using r(1,3,4) d(5) by (auto simp: PointerList_length_def newOnly_def)
qed

theorem pointerList_refines_sequence_witness:
  "\<exists>this s. runs doOp [AddTail (1 :: int), AddTail 2, AddHead 3, RemoveAt 1, AddTail 4, RemoveHead]
      (PointerList_init, \<lparr>cells = (\<lambda>_. None), nextAddr = 0\<rparr>) = Some (this, s)
    \<and> iterValues s (PointerListIter_init this) = Some [2, 4]"
  using pointerList_refines_sequence
    [of "[AddTail (1 :: int), AddTail 2, AddHead 3, RemoveAt 1, AddTail 4, RemoveHead]" "[2, 4]"] by auto

end
