(* ===== verification/Spec2Isabelle.thy ===== *)
theory Spec2Isabelle
  imports BitStore Strings Requests Incoming PointerLists
begin

text \<open>
  A verification development for the client kernel module.
\<close>

end
